theory Spec2Isabelle
  imports Complex_Main "HOL-Library.Log_Nat"
begin

section \<open>Numbers, strings and vectors\<close>

text \<open>
  JavaScript numbers are modelled as \<^typ>\<open>real\<close> wherever a function only does arithmetic on
  finite coordinates (rounding of IEEE doubles is idealised away); the parser and the typed
  arrays use the type \<open>jsnum\<close> further down. Strings are byte strings.
  Array reads go through \<open>js_index\<close>, which yields \<open>None\<close> where JavaScript yields
  \<open>undefined\<close>.
\<close>

datatype js_error = TypeError | Error string

definition js_index :: "'a list \<Rightarrow> int \<Rightarrow> 'a option" where
  "js_index xs i = (if 0 \<le> i \<and> i < int (length xs) then Some (xs ! nat i) else None)"

definition toUpperChar :: "char \<Rightarrow> char" where
  "toUpperChar c =
     (let n = (of_char c :: nat) in if 97 \<le> n \<and> n \<le> 122 then char_of (n - 32) else c)"

definition toUpperCase :: "string \<Rightarrow> string" where
  "toUpperCase s = map toUpperChar s"

text \<open>
  \<open>BABYLON.Vector3\<close> is the vector class of the rendering library the sources call. Its
  operations are written out here as the library documents them; \<open>normalize\<close> leaves a
  vector of length 0 unchanged.
\<close>

datatype vec3 = Vector3 (vx: real) (vy: real) (vz: real)

definition v_add :: "vec3 \<Rightarrow> vec3 \<Rightarrow> vec3" where
  "v_add a b = Vector3 (vx a + vx b) (vy a + vy b) (vz a + vz b)"

definition v_subtract :: "vec3 \<Rightarrow> vec3 \<Rightarrow> vec3" where
  "v_subtract a b = Vector3 (vx a - vx b) (vy a - vy b) (vz a - vz b)"

definition v_scale :: "vec3 \<Rightarrow> real \<Rightarrow> vec3" where
  "v_scale a s = Vector3 (vx a * s) (vy a * s) (vz a * s)"

definition v_length :: "vec3 \<Rightarrow> real" where
  "v_length a = sqrt (vx a * vx a + vy a * vy a + vz a * vz a)"

definition v_normalize :: "vec3 \<Rightarrow> vec3" where
  "v_normalize a =
     (let len = v_length a in if len = 0 \<or> len = 1 then a else v_scale a (1 / len))"

definition v_Cross :: "vec3 \<Rightarrow> vec3 \<Rightarrow> vec3" where
  "v_Cross a b = Vector3 (vy a * vz b - vz a * vy b)
                         (vz a * vx b - vx a * vz b)
                         (vx a * vy b - vy a * vx b)"

definition v_Dot :: "vec3 \<Rightarrow> vec3 \<Rightarrow> real" where
  "v_Dot a b = vx a * vx b + vy a * vy b + vz a * vz b"

section \<open>BSplineCurve (spline-math.js)\<close>

text \<open>
  \<open>evaluateBSpline\<close> throws when it is not handed four points, and calling \<open>scale\<close> on
  an \<open>undefined\<close> array element is a \<open>TypeError\<close>.
\<close>

definition evaluateBSpline :: "vec3 option list \<Rightarrow> real \<Rightarrow> js_error + vec3" where
  "evaluateBSpline controlPoints t =
     (if length controlPoints \<noteq> 4
      then Inl (Error ''B-spline evaluation requires exactly 4 control points'')
      else
        let t2 = t * t;
            t3 = t2 * t;
            w0 = (- t3 + 3 * t2 - 3 * t + 1) / 6;
            w1 = (3 * t3 - 6 * t2 + 4) / 6;
            w2 = (- 3 * t3 + 3 * t2 + 3 * t + 1) / 6;
            w3 = t3 / 6
        in case (controlPoints ! 0, controlPoints ! 1, controlPoints ! 2, controlPoints ! 3) of
             (Some p0, Some p1, Some p2, Some p3) \<Rightarrow>
               Inr (v_add (v_add (v_add (v_scale p0 w0) (v_scale p1 w1)) (v_scale p2 w2))
                          (v_scale p3 w3))
           | _ \<Rightarrow> Inl TypeError)"

definition degree :: nat where
  "degree = 3"

text \<open>The index of the first of the four control points \<open>getPointAt\<close> selects.\<close>

definition startIndex :: "vec3 list \<Rightarrow> real \<Rightarrow> int" where
  "startIndex controlPoints t0 =
     (let t = max 0 (min 1 t0);
          numSpans = int (length controlPoints) - int degree;
          span = \<lfloor>t * real_of_int numSpans\<rfloor>
      in max 0 (min span (int (length controlPoints) - 4)))"

definition getPointAt :: "vec3 list \<Rightarrow> real \<Rightarrow> js_error + vec3" where
  "getPointAt controlPoints t0 =
     (if length controlPoints < 4
      then (if length controlPoints = 0 then Inr (Vector3 0 0 0)
            else (case js_index controlPoints 0 of Some p \<Rightarrow> Inr p | None \<Rightarrow> Inl TypeError))
      else
        let t = max 0 (min 1 t0);
            numSpans = int (length controlPoints) - int degree;
            span = \<lfloor>t * real_of_int numSpans\<rfloor>;
            localT = t * real_of_int numSpans - real_of_int span;
            i = startIndex controlPoints t0;
            p0 = js_index controlPoints i;
            p1 = js_index controlPoints (i + 1);
            p2 = js_index controlPoints (i + 2);
            p3 = js_index controlPoints (i + 3)
        in evaluateBSpline [p0, p1, p2, p3] localT)"

text \<open>
  \<open>getTangentAt\<close> looks into \<open>_tangentCache\<close> only when that field exists, and only
  \<open>setControlPoints\<close> and \<open>addControlPoint\<close> create it; a curve built by the constructor, as
  \<open>createSmoothCurve\<close> builds it, computes every tangent afresh, which is what is modelled.
\<close>

definition getTangentAt :: "vec3 list \<Rightarrow> real \<Rightarrow> js_error + vec3" where
  "getTangentAt controlPoints t =
     (let delta = 0.001;
          t1 = max 0 (t - delta);
          t2 = min 1 (t + delta)
      in case getPointAt controlPoints t1 of
           Inl e \<Rightarrow> Inl e
         | Inr p1 \<Rightarrow>
             (case getPointAt controlPoints t2 of
                Inl e \<Rightarrow> Inl e
              | Inr p2 \<Rightarrow> Inr (v_normalize (v_subtract p2 p1))))"

definition getPerpendicularVector :: "vec3 \<Rightarrow> vec3" where
  "getPerpendicularVector v =
     (let absX = \<bar>vx v\<bar>; absY = \<bar>vy v\<bar>; absZ = \<bar>vz v\<bar>
      in if absX \<le> absY \<and> absX \<le> absZ then v_normalize (v_Cross v (Vector3 1 0 0))
         else if absY \<le> absZ then v_normalize (v_Cross v (Vector3 0 1 0))
         else v_normalize (v_Cross v (Vector3 0 0 1)))"

record frenetFrame =
  ff_position :: vec3
  ff_tangent :: vec3
  ff_normal :: vec3
  ff_binormal :: vec3

definition getFrenetFrameAt :: "vec3 list \<Rightarrow> real \<Rightarrow> js_error + frenetFrame" where
  "getFrenetFrameAt controlPoints t =
     (case getPointAt controlPoints t of
        Inl e \<Rightarrow> Inl e
      | Inr position \<Rightarrow>
     (case getTangentAt controlPoints t of
        Inl e \<Rightarrow> Inl e
      | Inr tangent \<Rightarrow>
     (let delta = 0.001;
          t1 = max 0 (t - delta);
          t2 = min 1 (t + delta)
      in case getTangentAt controlPoints t1 of
        Inl e \<Rightarrow> Inl e
      | Inr tangent1 \<Rightarrow>
     (case getTangentAt controlPoints t2 of
        Inl e \<Rightarrow> Inl e
      | Inr tangent2 \<Rightarrow>
          let normal0 = v_subtract tangent2 tangent1;
              normal1 = (if v_length normal0 < 0.001 then getPerpendicularVector tangent
                         else v_normalize normal0);
              binormal = v_normalize (v_Cross tangent normal1);
              normal = v_normalize (v_Cross binormal tangent)
          in Inr \<lparr> ff_position = position, ff_tangent = tangent, ff_normal = normal,
                   ff_binormal = binormal \<rparr>))))"

text \<open>A curve that runs along the x axis and turns back at \<open>t = 1/2\<close>.\<close>

definition foldedCurve :: "vec3 list" where
  "foldedCurve = [Vector3 1 0 0, Vector3 0 0 0, Vector3 0 0 0, Vector3 1 0 0]"

section \<open>Numbers that may be not-a-number\<close>

text \<open>
  Where a claim or a read depends on it, a JavaScript number is a finite \<open>Num r\<close>, one of
  the two infinities, or \<open>NaN\<close>. A read past the end of a typed array yields
  \<open>undefined\<close>, which every arithmetic operator turns into not-a-number; both are \<open>NaN\<close>
  here. The operations \<open>jadd\<close>, \<open>jsub\<close>, \<open>jmul\<close> and \<open>jsqrt\<close> give the exact result
  of the operation. Where a claim depends on the rounding, in the number parsers and in the
  ligand bonds, that result is rounded to a double by \<open>dround\<close> of the next section; in the
  extrusion arrays rounding is idealised away. The sign of zero is left out.
\<close>

datatype jsnum = Num real | PosInf | NegInf | NaN

fun jneg :: "jsnum \<Rightarrow> jsnum" where
  "jneg (Num a) = Num (- a)"
| "jneg PosInf = NegInf"
| "jneg NegInf = PosInf"
| "jneg NaN = NaN"

fun jadd :: "jsnum \<Rightarrow> jsnum \<Rightarrow> jsnum" where
  "jadd (Num a) (Num b) = Num (a + b)"
| "jadd NaN _ = NaN"
| "jadd _ NaN = NaN"
| "jadd PosInf NegInf = NaN"
| "jadd NegInf PosInf = NaN"
| "jadd PosInf _ = PosInf"
| "jadd _ PosInf = PosInf"
| "jadd NegInf _ = NegInf"
| "jadd _ NegInf = NegInf"

definition jsub :: "jsnum \<Rightarrow> jsnum \<Rightarrow> jsnum" where
  "jsub a b = jadd a (jneg b)"

fun jmul :: "jsnum \<Rightarrow> jsnum \<Rightarrow> jsnum" where
  "jmul (Num a) (Num b) = Num (a * b)"
| "jmul NaN _ = NaN"
| "jmul _ NaN = NaN"
| "jmul (Num a) i = (if a = 0 then NaN else if a > 0 then i else jneg i)"
| "jmul i (Num b) = (if b = 0 then NaN else if b > 0 then i else jneg i)"
| "jmul PosInf i = i"
| "jmul NegInf i = jneg i"

fun jsqrt :: "jsnum \<Rightarrow> jsnum" where
  "jsqrt (Num a) = (if a < 0 then NaN else Num (sqrt a))"
| "jsqrt PosInf = PosInf"
| "jsqrt _ = NaN"

fun jcos :: "jsnum \<Rightarrow> jsnum" where
  "jcos (Num a) = Num (cos a)"
| "jcos _ = NaN"

fun jsin :: "jsnum \<Rightarrow> jsnum" where
  "jsin (Num a) = Num (sin a)"
| "jsin _ = NaN"

text \<open>The comparison \<open><\<close>; it is false whenever an operand is not-a-number.\<close>

fun jlt :: "jsnum \<Rightarrow> jsnum \<Rightarrow> bool" where
  "jlt (Num a) (Num b) = (a < b)"
| "jlt NaN _ = False"
| "jlt _ NaN = False"
| "jlt NegInf NegInf = False"
| "jlt NegInf _ = True"
| "jlt PosInf _ = False"
| "jlt _ PosInf = True"
| "jlt _ NegInf = False"

text \<open>\<open>a || d\<close> on numbers: zero and not-a-number are falsy.\<close>

definition jor :: "jsnum \<Rightarrow> jsnum \<Rightarrow> jsnum" where
  "jor a d = (if a = Num 0 \<or> a = NaN then d else a)"

definition f32_get :: "jsnum list \<Rightarrow> nat \<Rightarrow> jsnum" where
  "f32_get arr i = (if i < length arr then arr ! i else NaN)"

section \<open>Double-precision numbers\<close>

text \<open>
  A JavaScript number is an IEEE 754 binary64 value, and every arithmetic operator returns
  the exact result rounded to the nearest such value, ties to the even significand.
  \<open>exponentOf x\<close> is the binary exponent of \<open>x\<close> in that format: \<open>\<lfloor>log\<^sub>2 \<bar>x\<bar>\<rfloor>\<close>, but not
  below \<open>-1022\<close>, where the subnormal numbers start. The doubles of that exponent are the
  multiples of \<open>2\<^sup>e\<^sup>-\<^sup>5\<^sup>2\<close>; \<open>toDouble\<close> rounds to the nearest of them, and a result whose
  binary exponent is 1024 or more is infinite. \<open>dadd\<close>, \<open>dsub\<close>, \<open>dmul\<close> and \<open>dsqrt\<close> are
  the operators \<open>+\<close>, \<open>-\<close>, \<open>*\<close> and \<open>Math.sqrt\<close> on doubles: the exact result, rounded.
  \<open>Math.sqrt\<close> is taken as the correctly rounded square root, which IEEE 754 requires of
  that operation.
\<close>

definition twoPow :: "int \<Rightarrow> real" where
  "twoPow e = (if 0 \<le> e then 2 ^ nat e else 1 / 2 ^ nat (- e))"

definition exponentOf :: "real \<Rightarrow> int" where
  "exponentOf x =
     (let a = \<bar>x\<bar>
      in if 1 \<le> a then int (floorlog 2 (nat \<lfloor>a\<rfloor>)) - 1
         else if a = 0 then - 1022
         else max (- 1022) (- int (floorlog 2 (nat (\<lceil>1 / a\<rceil> - 1)))))"

definition roundHalfEven :: "real \<Rightarrow> int" where
  "roundHalfEven q =
     (let f = \<lfloor>q\<rfloor>; r = q - of_int f
      in if r < 1 / 2 then f
         else if 1 / 2 < r then f + 1
         else if even f then f else f + 1)"

definition toDouble :: "real \<Rightarrow> jsnum" where
  "toDouble x =
     (let ulp = twoPow (exponentOf x - 52);
          y = of_int (roundHalfEven (x / ulp)) * ulp
      in if exponentOf y < 1024 then Num y
         else if 0 < y then PosInf else NegInf)"

fun dround :: "jsnum \<Rightarrow> jsnum" where
  "dround (Num a) = toDouble a"
| "dround a = a"

definition dadd :: "jsnum \<Rightarrow> jsnum \<Rightarrow> jsnum" where
  "dadd a b = dround (jadd a b)"

definition dsub :: "jsnum \<Rightarrow> jsnum \<Rightarrow> jsnum" where
  "dsub a b = dround (jsub a b)"

definition dmul :: "jsnum \<Rightarrow> jsnum \<Rightarrow> jsnum" where
  "dmul a b = dround (jmul a b)"

definition dsqrt :: "jsnum \<Rightarrow> jsnum" where
  "dsqrt a = dround (jsqrt a)"

text \<open>
  Rounding errors are counted in factors \<open>1 \<plusminus> 2\<^sup>-\<^sup>5\<^sup>3\<close>: \<open>relErr k a b\<close> says that \<open>a\<close> is
  \<open>b\<close> up to \<open>k\<close> such factors. A rounding has this error on \<open>inRange\<close>, that is on zero and
  on the range of the normal doubles.
\<close>

definition unitRoundoff :: real where
  "unitRoundoff = 1 / 2 ^ 53"

definition inRange :: "real \<Rightarrow> bool" where
  "inRange x \<longleftrightarrow> (x = 0 \<or> twoPow (- 1022) \<le> \<bar>x\<bar>) \<and> \<bar>x\<bar> \<le> twoPow 1023"

definition relErr :: "nat \<Rightarrow> real \<Rightarrow> real \<Rightarrow> bool" where
  "relErr k a b \<longleftrightarrow> (1 - unitRoundoff) ^ k * b \<le> a \<and> a \<le> (1 + unitRoundoff) ^ k * b"

section \<open>CartoonMath, CartoonExtrude and CartoonShapes\<close>

text \<open>
  \<open>CartoonMath\<close> works on plain \<open>{x, y, z}\<close> objects, which are \<^typ>\<open>vec3\<close> values here.
  Its \<open>normalize\<close> returns the vector (0, 0, 1) for a vector of length 0.
\<close>

definition cm_normalize :: "vec3 \<Rightarrow> vec3" where
  "cm_normalize v =
     (let len = sqrt (vx v * vx v + vy v * vy v + vz v * vz v)
      in if len > 0 then Vector3 (vx v / len) (vy v / len) (vz v / len) else Vector3 0 0 1)"

definition cm_cross :: "vec3 \<Rightarrow> vec3 \<Rightarrow> vec3" where
  "cm_cross a b = Vector3 (vy a * vz b - vz a * vy b)
                          (vz a * vx b - vx a * vz b)
                          (vx a * vy b - vy a * vx b)"

definition cm_dot :: "vec3 \<Rightarrow> vec3 \<Rightarrow> real" where
  "cm_dot a b = vx a * vx b + vy a * vy b + vz a * vz b"

definition cm_subtract :: "vec3 \<Rightarrow> vec3 \<Rightarrow> vec3" where
  "cm_subtract a b = Vector3 (vx a - vx b) (vy a - vy b) (vz a - vz b)"

definition cm_scale :: "vec3 \<Rightarrow> real \<Rightarrow> vec3" where
  "cm_scale v s = Vector3 (vx v * s) (vy v * s) (vz v * s)"

definition cm_length :: "vec3 \<Rightarrow> real" where
  "cm_length v = sqrt (vx v * vx v + vy v * vy v + vz v * vz v)"

definition cm_distance :: "vec3 \<Rightarrow> vec3 \<Rightarrow> real" where
  "cm_distance a b = cm_length (cm_subtract a b)"

text \<open>
  The fields of \<open>CartoonExtrude\<close> carry the prefix \<open>ex_\<close>. A fresh \<open>Float32Array(k)\<close>
  holds \<open>k\<close> zeros.
\<close>

record CartoonExtrude =
  ex_n :: nat
  ex_points :: "jsnum list"
  ex_normals :: "jsnum list"
  ex_colors :: "jsnum list"
  ex_alphas :: "jsnum list"
  ex_indices :: "nat list"
  ex_radius :: real
  ex_scaleFactors :: "jsnum list"
  ex_shapeVertices :: "jsnum list"
  ex_shapeNormals :: "jsnum list"
  ex_nShapePoints :: nat

definition newCartoonExtrude :: CartoonExtrude where
  "newCartoonExtrude =
     \<lparr> ex_n = 0, ex_points = [], ex_normals = [], ex_colors = [], ex_alphas = [],
       ex_indices = [], ex_radius = 1, ex_scaleFactors = [], ex_shapeVertices = [],
       ex_shapeNormals = [], ex_nShapePoints = 0 \<rparr>"

definition allocatePointsNormalsColors :: "CartoonExtrude \<Rightarrow> nat \<Rightarrow> CartoonExtrude" where
  "allocatePointsNormalsColors e k =
     e \<lparr> ex_n := k,
         ex_points := replicate (k * 3) (Num 0),
         ex_normals := replicate (k * 9) (Num 0),
         ex_colors := replicate (k * 3) (Num 0),
         ex_alphas := replicate k (Num 1),
         ex_indices := replicate k 0,
         ex_scaleFactors := replicate k (Num 1) \<rparr>"

text \<open>
  \<open>circle\<close> runs its loop for \<open>i = 0, \<dots>, n\<close>, so the first point of the polygon is
  written again as point \<open>n\<close>, and sets \<open>nShapePoints\<close> to \<open>n + 1\<close>. The angle
  \<open>2\<pi>i / n\<close> is not-a-number for \<open>n = 0\<close>.
\<close>

definition circleAngle :: "nat \<Rightarrow> nat \<Rightarrow> jsnum" where
  "circleAngle k i = (if k = 0 then NaN else Num (2 * pi * real i / real k))"

definition circle :: "CartoonExtrude \<Rightarrow> nat \<Rightarrow> real \<Rightarrow> CartoonExtrude" where
  "circle e k sz =
     e \<lparr> ex_shapeVertices :=
           concat (map (\<lambda>i. [jmul (Num sz) (jcos (circleAngle k i)),
                              jmul (Num sz) (jsin (circleAngle k i)),
                              Num 0]) [0..<k + 1]),
         ex_shapeNormals :=
           concat (map (\<lambda>i. [jcos (circleAngle k i), jsin (circleAngle k i), Num 0])
                       [0..<k + 1]),
         ex_nShapePoints := k + 1 \<rparr>"

section \<open>CartoonGenerator (pymol-cartoon-generator.js)\<close>

record geometry =
  g_vertices :: "jsnum list"
  g_normals :: "jsnum list"
  g_colors :: "jsnum list"
  g_indices :: "nat list"

text \<open>
  \<open>generateGeometry\<close>: one ring of \<open>nShapePoints\<close> vertices for each of the \<open>n\<close> curve
  points, three numbers a vertex, then six indices for every shape point between two
  consecutive rings.
\<close>

definition ringVertex :: "CartoonExtrude \<Rightarrow> nat \<Rightarrow> nat \<Rightarrow> jsnum list" where
  "ringVertex e i j =
     (let px = f32_get (ex_points e) (i * 3);
          py = f32_get (ex_points e) (i * 3 + 1);
          pz = f32_get (ex_points e) (i * 3 + 2);
          nx = f32_get (ex_normals e) (i * 9 + 3);
          ny = f32_get (ex_normals e) (i * 9 + 4);
          nz = f32_get (ex_normals e) (i * 9 + 5);
          bx = f32_get (ex_normals e) (i * 9 + 6);
          by = f32_get (ex_normals e) (i * 9 + 7);
          bz = f32_get (ex_normals e) (i * 9 + 8);
          sx = f32_get (ex_shapeVertices e) (j * 3);
          sy = f32_get (ex_shapeVertices e) (j * 3 + 1)
      in [jadd (jadd px (jmul sx nx)) (jmul sy bx),
          jadd (jadd py (jmul sx ny)) (jmul sy by),
          jadd (jadd pz (jmul sx nz)) (jmul sy bz)])"

definition ringNormal :: "CartoonExtrude \<Rightarrow> nat \<Rightarrow> nat \<Rightarrow> jsnum list" where
  "ringNormal e i j =
     (let nx = f32_get (ex_normals e) (i * 9 + 3);
          ny = f32_get (ex_normals e) (i * 9 + 4);
          nz = f32_get (ex_normals e) (i * 9 + 5);
          bx = f32_get (ex_normals e) (i * 9 + 6);
          by = f32_get (ex_normals e) (i * 9 + 7);
          bz = f32_get (ex_normals e) (i * 9 + 8);
          sx = f32_get (ex_shapeNormals e) (j * 3);
          sy = f32_get (ex_shapeNormals e) (j * 3 + 1)
      in [jadd (jmul sx nx) (jmul sy bx),
          jadd (jmul sx ny) (jmul sy by),
          jadd (jmul sx nz) (jmul sy bz)])"

definition ringColor :: "CartoonExtrude \<Rightarrow> nat \<Rightarrow> jsnum list" where
  "ringColor e i =
     [f32_get (ex_colors e) (i * 3), f32_get (ex_colors e) (i * 3 + 1),
      f32_get (ex_colors e) (i * 3 + 2), Num 1]"

definition quadIndices :: "nat \<Rightarrow> nat \<Rightarrow> nat \<Rightarrow> nat list" where
  "quadIndices shapePoints i j =
     (let nextJ = (j + 1) mod shapePoints;
          i1 = i * shapePoints + j;
          i2 = i * shapePoints + nextJ;
          i3 = (i + 1) * shapePoints + j;
          i4 = (i + 1) * shapePoints + nextJ
      in [i1, i2, i3, i2, i4, i3])"

definition generateGeometry :: "CartoonExtrude \<Rightarrow> geometry" where
  "generateGeometry e =
     (let m = ex_n e; shapePoints = ex_nShapePoints e
      in if m < 2 \<or> shapePoints < 3
         then \<lparr> g_vertices = [], g_normals = [], g_colors = [], g_indices = [] \<rparr>
         else
           \<lparr> g_vertices =
               concat (map (\<lambda>i. concat (map (\<lambda>j. ringVertex e i j) [0..<shapePoints])) [0..<m]),
             g_normals =
               concat (map (\<lambda>i. concat (map (\<lambda>j. ringNormal e i j) [0..<shapePoints])) [0..<m]),
             g_colors =
               concat (map (\<lambda>i. concat (map (\<lambda>j. ringColor e i) [0..<shapePoints])) [0..<m]),
             g_indices =
               concat (map (\<lambda>i. concat (map (\<lambda>j. quadIndices shapePoints i j) [0..<shapePoints]))
                           [0..<m - 1]) \<rparr>)"

text \<open>
  A frame is the object \<open>{tangent, normal, binormal}\<close> that \<open>computeFrenetFrame\<close> returns.
  \<open>minimizeFrameTwisting\<close> updates the array in place, for \<open>i = 1, \<dots>, length - 1\<close>, reading
  the frame before \<open>i\<close> as the earlier iterations left it. \<open>computeFrenetFrames\<close> pushes a
  fresh object for every index, so no two positions of the array share a frame.
\<close>

record frame =
  fr_tangent :: vec3
  fr_normal :: vec3
  fr_binormal :: vec3

definition untwist :: "frame \<Rightarrow> frame \<Rightarrow> frame" where
  "untwist prevFrame currFrame =
     (let normalDot = cm_dot (fr_normal prevFrame) (fr_normal currFrame);
          c1 = (if normalDot < 0
                then currFrame \<lparr> fr_normal := cm_scale (fr_normal currFrame) (- 1),
                                 fr_binormal := cm_scale (fr_binormal currFrame) (- 1) \<rparr>
                else currFrame);
          binormalDot = cm_dot (fr_binormal prevFrame) (fr_binormal c1)
      in if binormalDot < 0
         then c1 \<lparr> fr_binormal := cm_scale (fr_binormal c1) (- 1) \<rparr>
         else c1)"

definition minimizeFrameTwisting :: "frame list \<Rightarrow> frame list" where
  "minimizeFrameTwisting frames =
     (if length frames < 2 then frames
      else fold (\<lambda>i fs. fs[i := untwist (fs ! (i - 1)) (fs ! i)]) [1..<length frames] frames)"

section \<open>String primitives\<close>

text \<open>
  \<open>substring\<close>, \<open>trim\<close>, \<open>startsWith\<close>, \<open>parseInt\<close> and \<open>parseFloat\<close> are language
  built-ins, written out after the language standard on strings of code units below 256:
  \<open>parseInt\<close> reads an optional sign, an optional \<open>0x\<close> prefix and the longest run of
  digits, \<open>parseFloat\<close> the longest prefix that is a decimal literal, and both yield
  not-a-number when that prefix has no digit. \<open>integerValue\<close> and \<open>decimalValue\<close> are the
  mathematical values of these prefixes, which the two functions round to a double. The
  white space that \<open>trim\<close> and the two parsers strip is, below 256: tab, line feed,
  vertical tab, form feed, carriage return, space and the no-break space (160).
\<close>

definition substring :: "string \<Rightarrow> nat \<Rightarrow> nat \<Rightarrow> string" where
  "substring s a b = take (max a b - min a b) (drop (min a b) s)"

definition isSpace :: "char \<Rightarrow> bool" where
  "isSpace c = ((of_char c :: nat) \<in> {9, 10, 11, 12, 13, 32, 160})"

definition trim :: "string \<Rightarrow> string" where
  "trim s = rev (dropWhile isSpace (rev (dropWhile isSpace s)))"

definition startsWith :: "string \<Rightarrow> string \<Rightarrow> bool" where
  "startsWith s p = (take (length p) s = p)"

definition digitValue :: "char \<Rightarrow> nat option" where
  "digitValue c =
     (let k = (of_char c :: nat)
      in if 48 \<le> k \<and> k \<le> 57 then Some (k - 48)
         else if 97 \<le> k \<and> k \<le> 122 then Some (k - 87)
         else if 65 \<le> k \<and> k \<le> 90 then Some (k - 55)
         else None)"

definition isDigitIn :: "nat \<Rightarrow> char \<Rightarrow> bool" where
  "isDigitIn radix c = (case digitValue c of Some d \<Rightarrow> d < radix | None \<Rightarrow> False)"

definition digitsValue :: "nat \<Rightarrow> string \<Rightarrow> nat" where
  "digitsValue radix ds = foldl (\<lambda>acc c. acc * radix + the (digitValue c)) 0 ds"

definition splitSign :: "string \<Rightarrow> bool \<times> string" where
  "splitSign s =
     (case s of
        c # rest \<Rightarrow> if c = CHR ''-'' then (True, rest)
                    else if c = CHR ''+'' then (False, rest) else (False, s)
      | [] \<Rightarrow> (False, s))"

definition integerValue :: "string \<Rightarrow> jsnum" where
  "integerValue s =
     (let (neg, s1) = splitSign (dropWhile isSpace s);
          hex = (take 2 s1 = ''0x'' \<or> take 2 s1 = ''0X'');
          radix = (if hex then 16 else 10);
          s2 = (if hex then drop 2 s1 else s1);
          ds = takeWhile (isDigitIn radix) s2
      in if ds = [] then NaN
         else Num ((if neg then - 1 else 1) * real (digitsValue radix ds)))"

definition parseExponent :: "string \<Rightarrow> int" where
  "parseExponent s =
     (case s of
        c # rest \<Rightarrow>
          if c = CHR ''e'' \<or> c = CHR ''E''
          then (let (neg, r1) = splitSign rest;
                    ds = takeWhile (isDigitIn 10) r1
                in if ds = [] then 0
                   else (if neg then - 1 else 1) * int (digitsValue 10 ds))
          else 0
      | [] \<Rightarrow> 0)"

definition parseInt :: "string \<Rightarrow> jsnum" where
  "parseInt s = dround (integerValue s)"

definition decimalValue :: "string \<Rightarrow> jsnum" where
  "decimalValue s =
     (let (neg, s1) = splitSign (dropWhile isSpace s)
      in if take 8 s1 = ''Infinity'' then (if neg then NegInf else PosInf)
         else
           let ip = takeWhile (isDigitIn 10) s1;
               r1 = drop (length ip) s1;
               dot = (take 1 r1 = ''.'');
               fp = (if dot then takeWhile (isDigitIn 10) (drop 1 r1) else []);
               r2 = (if dot \<and> (ip \<noteq> [] \<or> fp \<noteq> []) then drop (1 + length fp) r1 else r1);
               ex = parseExponent r2;
               mant = real (digitsValue 10 ip) + real (digitsValue 10 fp) / 10 ^ length fp
           in if ip = [] \<and> fp = [] then NaN
              else Num ((if neg then - 1 else 1)
                        * (if 0 \<le> ex then mant * 10 ^ nat ex else mant / 10 ^ nat (- ex))))"

definition parseFloat :: "string \<Rightarrow> jsnum" where
  "parseFloat s = dround (decimalValue s)"

section \<open>PDBParser atoms and ligand bonds (spline-math.js)\<close>

text \<open>The fields of an atom object carry the prefix \<open>a_\<close>.\<close>

record atom =
  a_id :: jsnum
  a_name :: string
  a_altLoc :: string
  a_resName :: string
  a_chainId :: string
  a_resSeq :: jsnum
  a_iCode :: string
  a_x :: jsnum
  a_y :: jsnum
  a_z :: jsnum
  a_occupancy :: jsnum
  a_tempFactor :: jsnum
  a_element :: string
  a_charge :: string
  a_isHetAtom :: bool

definition guessElement :: "string \<Rightarrow> string" where
  "guessElement atomName =
     (let name = toUpperCase (trim atomName)
      in if startsWith name ''C'' then ''C''
         else if startsWith name ''N'' then ''N''
         else if startsWith name ''O'' then ''O''
         else if startsWith name ''S'' then ''S''
         else if startsWith name ''P'' then ''P''
         else if startsWith name ''H'' then ''H''
         else if startsWith name ''FE'' then ''FE''
         else if startsWith name ''MG'' then ''MG''
         else if startsWith name ''CA'' then ''CA''
         else if startsWith name ''ZN'' then ''ZN''
         else ''C'')"

text \<open>
  \<open>parseAtom\<close> builds the atom from fixed columns. Nothing it calls can throw. The atom is
  then appended to \<open>this.atoms\<close> and to its residue's entry of the atom map.
\<close>

definition parseAtom :: "string \<Rightarrow> atom" where
  "parseAtom line =
     \<lparr> a_id = parseInt (trim (substring line 6 11)),
       a_name = trim (substring line 12 16),
       a_altLoc = trim (substring line 16 17),
       a_resName = trim (substring line 17 20),
       a_chainId = trim (substring line 21 22),
       a_resSeq = parseInt (trim (substring line 22 26)),
       a_iCode = trim (substring line 26 27),
       a_x = parseFloat (trim (substring line 30 38)),
       a_y = parseFloat (trim (substring line 38 46)),
       a_z = parseFloat (trim (substring line 46 54)),
       a_occupancy = jor (parseFloat (trim (substring line 54 60))) (Num 1),
       a_tempFactor = jor (parseFloat (trim (substring line 60 66))) (Num 0),
       a_element = (if trim (substring line 76 78) \<noteq> [] then trim (substring line 76 78)
                    else guessElement (trim (substring line 12 16))),
       a_charge = trim (substring line 78 80),
       a_isHetAtom = startsWith line ''HETATM'' \<rparr>"

text \<open>
  The loop of \<open>parse\<close> over the lines of the file, as far as \<open>this.atoms\<close> goes: a line that
  starts with HEADER is a header, a line that starts with ATOM or HETATM is handed to
  \<open>parseAtom\<close>.
\<close>

definition parsedAtoms :: "string list \<Rightarrow> atom list" where
  "parsedAtoms lines =
     map parseAtom
       (filter (\<lambda>line. \<not> startsWith line ''HEADER''
                        \<and> (startsWith line ''ATOM'' \<or> startsWith line ''HETATM'')) lines)"

definition covalentRadii :: "(string \<times> real) list" where
  "covalentRadii =
     [(''H'', 0.31), (''C'', 0.76), (''N'', 0.71), (''O'', 0.66), (''S'', 1.05),
      (''P'', 1.07), (''F'', 0.57), (''CL'', 1.02), (''BR'', 1.20), (''I'', 1.39),
      (''FE'', 1.32), (''MG'', 1.41), (''CA'', 1.76), (''ZN'', 1.22)]"

text \<open>
  The table is given with the decimal literals of the source; the object holds the doubles
  nearest to them. \<open>covalentRadii[element.toUpperCase()] || 0.76\<close>: a missing key and a zero
  entry are falsy.
\<close>

definition radiusOf :: "string \<Rightarrow> jsnum" where
  "radiusOf element =
     (case map_of covalentRadii (toUpperCase element) of
        Some r \<Rightarrow> jor (toDouble r) (toDouble 0.76)
      | None \<Rightarrow> toDouble 0.76)"

text \<open>
  A bond object refers to its two atom objects; the reference to \<open>atoms[i]\<close> is the index
  \<open>i\<close> here.
\<close>

record bond =
  b_atom1 :: nat
  b_atom2 :: nat
  b_distance :: jsnum

definition atomDistance :: "atom \<Rightarrow> atom \<Rightarrow> jsnum" where
  "atomDistance atom1 atom2 =
     (let dx = dsub (a_x atom2) (a_x atom1);
          dy = dsub (a_y atom2) (a_y atom1);
          dz = dsub (a_z atom2) (a_z atom1)
      in dsqrt (dadd (dadd (dmul dx dx) (dmul dy dy)) (dmul dz dz)))"

definition bondOf :: "atom list \<Rightarrow> nat \<Rightarrow> nat \<Rightarrow> bond list" where
  "bondOf atoms i j =
     (let atom1 = atoms ! i;
          atom2 = atoms ! j;
          distance = atomDistance atom1 atom2;
          r1 = radiusOf (a_element atom1);
          r2 = radiusOf (a_element atom2);
          maxDist = dmul (dadd r1 r2) (toDouble 1.3)
      in if jlt distance maxDist \<and> jlt (toDouble 0.4) distance
         then [\<lparr> b_atom1 = i, b_atom2 = j, b_distance = distance \<rparr>]
         else [])"

definition calculateLigandBonds :: "atom list \<Rightarrow> bond list" where
  "calculateLigandBonds atoms =
     concat (map (\<lambda>i. concat (map (\<lambda>j. bondOf atoms i j) [i + 1..<length atoms]))
                 [0..<length atoms])"

text \<open>
  The radius as the specification words it: the table entry of the upper-cased element
  symbol, 0.76 when the table has none, as a real number.
\<close>

definition spec_radius :: "string \<Rightarrow> real" where
  "spec_radius element =
     (case map_of covalentRadii (toUpperCase element) of Some r \<Rightarrow> r | None \<Rightarrow> 0.76)"

text \<open>
  The square of a coordinate difference neither underflows nor overflows when the difference
  is zero or lies between \<open>2\<^sup>-\<^sup>5\<^sup>0\<^sup>0\<close> and \<open>2\<^sup>5\<^sup>0\<^sup>0\<close> in magnitude.
\<close>

definition differenceInRange :: "real \<Rightarrow> bool" where
  "differenceInRange t \<longleftrightarrow> t = 0 \<or> (1 / 2 ^ 500 \<le> \<bar>t\<bar> \<and> \<bar>t\<bar> \<le> 2 ^ 500)"

text \<open>
  Inputs for the examples: a carbon and an oxygen one unit apart, two HETATM records of a
  hydrogen and a sulfur 1.768 apart, and an ATOM record whose numeric columns hold no number.
\<close>

definition bondedPair :: "atom list" where
  "bondedPair =
     [\<lparr> a_id = Num 1, a_name = ''C1'', a_altLoc = [], a_resName = ''LIG'', a_chainId = ''A'',
        a_resSeq = Num 1, a_iCode = [], a_x = Num 0, a_y = Num 0, a_z = Num 0,
        a_occupancy = Num 1, a_tempFactor = Num 0, a_element = ''C'', a_charge = [],
        a_isHetAtom = True \<rparr>,
      \<lparr> a_id = Num 2, a_name = ''O1'', a_altLoc = [], a_resName = ''LIG'', a_chainId = ''A'',
        a_resSeq = Num 1, a_iCode = [], a_x = Num 0, a_y = Num 0, a_z = Num 1,
        a_occupancy = Num 1, a_tempFactor = Num 0, a_element = ''o'', a_charge = [],
        a_isHetAtom = True \<rparr>]"

definition hydrogenLine :: string where
  "hydrogenLine = ''HETATM    1  H1  LIG A   1       0.000   0.000   0.000  1.00  0.00           H  ''"

definition sulfurLine :: string where
  "sulfurLine = ''HETATM    2  S1  LIG A   1       0.000   0.000   1.768  1.00  0.00           S  ''"

definition unparseableAtomLine :: string where
  "unparseableAtomLine = ''ATOM  *****  CA  ALA A  ??         n/a   x.500   -.-     n/a  ****           C  ''"

section \<open>SecondaryStructureAnalyzer: smoothing\<close>

text \<open>
  The smoothing passes read and write only the field \<open>assignment\<close> of the objects in the
  array, so they are given on the list of these fields. Each loop is the source's loop over
  the index, updating the list in place. \<open>runStart\<close> starts at \<open>-1\<close> in the source and is
  read only after a run has set it; it starts at 0 here.
\<close>

definition coilRun :: "string list \<Rightarrow> nat \<Rightarrow> nat \<Rightarrow> string list" where
  "coilRun assignments runStart currentRun =
     fold (\<lambda>j a. a[j := ''coil'']) [runStart..<runStart + currentRun] assignments"

definition enforceStep ::
  "string \<Rightarrow> nat \<Rightarrow> nat \<Rightarrow> string list \<times> nat \<times> nat \<Rightarrow> string list \<times> nat \<times> nat" where
  "enforceStep ssType minLength i st =
     (case st of (assignments, currentRun, runStart) \<Rightarrow>
        if i < length assignments \<and> assignments ! i = ssType
        then (assignments, currentRun + 1, if currentRun = 0 then i else runStart)
        else ((if currentRun > 0 \<and> currentRun < minLength
               then coilRun assignments runStart currentRun else assignments),
              0, runStart))"

definition enforceMinimumLength :: "string list \<Rightarrow> string \<Rightarrow> nat \<Rightarrow> string list" where
  "enforceMinimumLength assignments ssType minLength =
     fst (fold (enforceStep ssType minLength) [0..<length assignments + 1] (assignments, 0, 0))"

definition fillSingle :: "nat \<Rightarrow> string list \<Rightarrow> string list" where
  "fillSingle i a =
     (let prev = a ! (i - 1); current = a ! i; next = a ! (i + 1)
      in if current = ''coil'' \<and> prev = next \<and> prev \<noteq> ''coil'' then a[i := prev] else a)"

definition fillGap :: "nat \<Rightarrow> nat \<Rightarrow> string list \<Rightarrow> string list" where
  "fillGap gapSize i a =
     (let before = a ! (i - 1);
          after = a ! (i + gapSize);
          allCoil = (\<forall>j \<in> {0..<gapSize}. a ! (i + j) = ''coil'')
      in if allCoil \<and> before = after \<and> before \<noteq> ''coil''
         then fold (\<lambda>j b. b[i + j := before]) [0..<gapSize] a
         else a)"

definition fillShortGaps :: "string list \<Rightarrow> nat \<Rightarrow> string list" where
  "fillShortGaps assignments maxGapLength =
     fold (\<lambda>gapSize a. fold (fillGap gapSize) [gapSize..<length a - gapSize] a)
          [2..<maxGapLength + 1]
          (fold fillSingle [1..<length assignments - 1] assignments)"

definition helixMinLength :: nat where
  "helixMinLength = 4"

definition sheetMinLength :: nat where
  "sheetMinLength = 3"

definition smoothLabels :: "string list \<Rightarrow> string list" where
  "smoothLabels assignments =
     fillShortGaps
       (enforceMinimumLength (enforceMinimumLength assignments ''helix'' helixMinLength)
                             ''sheet'' sheetMinLength) 2"

text \<open>
  The positions \<open>p, \<dots>, q - 1\<close> of a list are a maximal run of the label \<open>t\<close> when all of
  them hold \<open>t\<close> and neither the position before \<open>p\<close> nor the position \<open>q\<close> does.
\<close>

definition maximalRun :: "string list \<Rightarrow> string \<Rightarrow> nat \<Rightarrow> nat \<Rightarrow> bool" where
  "maximalRun xs t p q =
     (p < q \<and> q \<le> length xs \<and> (\<forall>k \<in> {p..<q}. xs ! k = t)
      \<and> (p = 0 \<or> xs ! (p - 1) \<noteq> t) \<and> (q = length xs \<or> xs ! q \<noteq> t))"

text \<open>
  Auxiliary notions for the proofs: the maximal runs that end at or before a bound, the
  invariant of the loop of \<open>enforceMinimumLength\<close>, lists without short runs, and an example.
\<close>

definition runsUpTo :: "string list \<Rightarrow> string \<Rightarrow> nat \<Rightarrow> nat \<Rightarrow> bool" where
  "runsUpTo a t m e = (\<forall>p q. q \<le> e \<and> maximalRun a t p q \<longrightarrow> m \<le> q - p)"

definition enforceInv ::
  "string list \<Rightarrow> string \<Rightarrow> nat \<Rightarrow> nat \<Rightarrow> string list \<times> nat \<times> nat \<Rightarrow> bool" where
  "enforceInv xs t m i st =
     (case st of (a, c, s) \<Rightarrow>
        length a = length xs \<and> c \<le> i \<and> (0 < c \<longrightarrow> s = i - c \<and> i \<le> length xs)
        \<and> (\<forall>k. i - c \<le> k \<and> k < i \<longrightarrow> a ! k = t)
        \<and> (0 < i - c \<and> i - c \<le> length xs \<longrightarrow> a ! (i - c - 1) \<noteq> t)
        \<and> (\<forall>k < length xs. a ! k = xs ! k \<or> (xs ! k = t \<and> a ! k = ''coil''))
        \<and> runsUpTo a t m (i - c))"

definition noShortRuns :: "string list \<Rightarrow> string \<Rightarrow> nat \<Rightarrow> bool" where
  "noShortRuns a t m = (\<forall>p q. maximalRun a t p q \<longrightarrow> m \<le> q - p)"

definition smoothingExample :: "string list" where
  "smoothingExample =
     [''helix'', ''helix'', ''coil'', ''helix'', ''helix'', ''helix'', ''helix'', ''coil'',
      ''helix'', ''helix'', ''helix'', ''helix'', ''sheet'', ''sheet'', ''coil'', ''sheet'',
      ''sheet'', ''sheet'']"

section \<open>SecondaryStructureAnalyzer: geometric pass\<close>

text \<open>
  The later stages read of a residue its chain, number, name, label, the flag \<open>isProtein\<close>
  and the coordinates of its CA atom; \<open>ca\<close> is \<open>None\<close> for a residue without one. The
  fields carry the prefix \<open>rs_\<close>. Coordinates are finite numbers here, so the arithmetic is
  on \<^typ>\<open>real\<close>; the averages below divide by a length that the guard
  \<open>caAtoms.length < 3\<close> keeps positive.
\<close>

record residue =
  rs_chainId :: string
  rs_resSeq :: int
  rs_resName :: string
  rs_secondaryStructure :: string
  rs_ssConfidence :: "real option"
  rs_isProtein :: bool
  rs_ca :: "vec3 option"

definition geometryWindow :: nat where
  "geometryWindow = 5"

definition distance3D :: "vec3 \<Rightarrow> vec3 \<Rightarrow> real" where
  "distance3D p1 p2 =
     (let dx = vx p2 - vx p1; dy = vy p2 - vy p1; dz = vz p2 - vz p1
      in sqrt (dx * dx + dy * dy + dz * dz))"

definition vector3D :: "vec3 \<Rightarrow> vec3 \<Rightarrow> vec3" where
  "vector3D p1 p2 = Vector3 (vx p2 - vx p1) (vy p2 - vy p1) (vz p2 - vz p1)"

definition dotProduct :: "vec3 \<Rightarrow> vec3 \<Rightarrow> real" where
  "dotProduct v1 v2 = vx v1 * vx v2 + vy v1 * vy v2 + vz v1 * vz v2"

definition vectorLength :: "vec3 \<Rightarrow> real" where
  "vectorLength v = sqrt (vx v * vx v + vy v * vy v + vz v * vz v)"

definition crossProduct :: "vec3 \<Rightarrow> vec3 \<Rightarrow> vec3" where
  "crossProduct v1 v2 = Vector3 (vy v1 * vz v2 - vz v1 * vy v2)
                                (vz v1 * vx v2 - vx v1 * vz v2)
                                (vx v1 * vy v2 - vy v1 * vx v2)"

definition angleBetweenVectors :: "vec3 \<Rightarrow> vec3 \<Rightarrow> real" where
  "angleBetweenVectors v1 v2 =
     (let dot = dotProduct v1 v2; len1 = vectorLength v1; len2 = vectorLength v2
      in if len1 = 0 \<or> len2 = 0 then 0
         else arccos (max (- 1) (min 1 (dot / (len1 * len2)))))"

definition calculateTorsionAngle :: "vec3 \<Rightarrow> vec3 \<Rightarrow> vec3 \<Rightarrow> vec3 \<Rightarrow> real" where
  "calculateTorsionAngle p1 p2 p3 p4 =
     (let v1 = vector3D p1 p2; v2 = vector3D p2 p3; v3 = vector3D p3 p4;
          n1 = crossProduct v1 v2; n2 = crossProduct v2 v3;
          angle = angleBetweenVectors n1 n2;
          sign = (if dotProduct (crossProduct n1 n2) v2 > 0 then 1 else - 1)
      in sign * angle * 180 / pi)"

definition extractCAAtoms :: "residue list \<Rightarrow> vec3 list" where
  "extractCAAtoms residues =
     map (\<lambda>r. the (rs_ca r)) (filter (\<lambda>r. rs_isProtein r \<and> rs_ca r \<noteq> None) residues)"

definition calculateDistances :: "vec3 list \<Rightarrow> real list" where
  "calculateDistances caAtoms =
     map (\<lambda>i. distance3D (caAtoms ! i) (caAtoms ! (i + 1))) [0..<length caAtoms - 1]"

definition calculateAngles :: "vec3 list \<Rightarrow> real list" where
  "calculateAngles caAtoms =
     map (\<lambda>i. angleBetweenVectors (vector3D (caAtoms ! i) (caAtoms ! (i + 1)))
                                    (vector3D (caAtoms ! (i + 1)) (caAtoms ! (i + 2))) * 180 / pi)
         [0..<length caAtoms - 2]"

definition calculateTorsions :: "vec3 list \<Rightarrow> real list" where
  "calculateTorsions caAtoms =
     map (\<lambda>i. calculateTorsionAngle (caAtoms ! i) (caAtoms ! (i + 1)) (caAtoms ! (i + 2))
                                    (caAtoms ! (i + 3)))
         [0..<length caAtoms - 3]"

text \<open>The parameters \<open>helixParams\<close> and \<open>sheetParams\<close> of the constructor.\<close>

definition helix_caDistance :: real where "helix_caDistance = 3.8"
definition helix_distanceTolerance :: real where "helix_distanceTolerance = 0.4"
definition helix_turnAngle :: real where "helix_turnAngle = 100"
definition helix_angleTolerance :: real where "helix_angleTolerance = 30"
definition sheet_maxTurnAngle :: real where "sheet_maxTurnAngle = 30"
definition sheet_minDistance :: real where "sheet_minDistance = 3.3"

definition scoreHelicalGeometry :: "real list \<Rightarrow> real list \<Rightarrow> real list \<Rightarrow> real" where
  "scoreHelicalGeometry distances angles torsions =
     (let (score1, count1) =
            fold (\<lambda>dist (score, count).
                    ((if \<bar>dist - helix_caDistance\<bar> \<le> helix_distanceTolerance
                      then score + (1 - \<bar>dist - helix_caDistance\<bar> / helix_distanceTolerance)
                      else score), count + 1))
                 distances (0, 0 :: nat);
          (score2, count2) =
            fold (\<lambda>angle (score, count).
                    ((if \<bar>angle - helix_turnAngle\<bar> \<le> helix_angleTolerance
                      then score + (1 - \<bar>angle - helix_turnAngle\<bar> / helix_angleTolerance)
                      else score), count + 1))
                 angles (score1, count1);
          (score3, count3) =
            (if length torsions \<ge> 2
             then (let avgTorsion = foldl (+) 0 torsions / real (length torsions);
                       regularityScore =
                         fold (\<lambda>torsion r. if \<bar>torsion - avgTorsion\<bar> < 30 then r + 1 else r)
                              torsions (0 :: real)
                   in (score2 + regularityScore / real (length torsions), count2 + 1))
             else (score2, count2))
      in if count3 > 0 then score3 / real count3 else 0)"

text \<open>The test for an extended conformation that opens \<open>scoreSheetGeometry\<close>.\<close>

definition extendedConformation :: "real list \<Rightarrow> bool" where
  "extendedConformation distances =
     (foldl (+) 0 distances / real (length distances) \<ge> sheet_minDistance)"

definition scoreSheetGeometry :: "real list \<Rightarrow> real list \<Rightarrow> real" where
  "scoreSheetGeometry distances angles =
     (let avgDistance = foldl (+) 0 distances / real (length distances);
          score1 = (if extendedConformation distances
                    then min 1 ((avgDistance - sheet_minDistance) / 0.5) else 0);
          count1 = (1 :: nat);
          straightSegments =
            fold (\<lambda>angle n. if angle < sheet_maxTurnAngle \<or> angle > 180 - sheet_maxTurnAngle
                              then n + 1 else n) angles (0 :: nat);
          (score2, count2) =
            (if length angles > 0
             then (score1 + real straightSegments / real (length angles), count1 + 1)
             else (score1, count1))
      in if count2 > 0 then score2 / real count2 else 0)"

definition calculateConfidence :: "vec3 list \<Rightarrow> real list \<Rightarrow> real list \<Rightarrow> real" where
  "calculateConfidence caAtoms distances angles =
     (let c1 = (if length caAtoms < geometryWindow
                then 1 * (real (length caAtoms) / real geometryWindow) else 1);
          avgDistance = foldl (+) 0 distances / real (length distances);
          distanceVariance =
            foldl (\<lambda>sum d. sum + (d - avgDistance)\<^sup>2) 0 distances / real (length distances);
          c2 = (if distanceVariance > 0.5 then c1 * 0.8 else c1)
      in max 0.1 c2)"

record geometryScore =
  gs_helix :: real
  gs_sheet :: real
  gs_coil :: real
  gs_confidence :: real

definition analyzeLocalGeometry :: "residue list \<Rightarrow> geometryScore" where
  "analyzeLocalGeometry window =
     (let caAtoms = extractCAAtoms window
      in if length caAtoms < 3
         then \<lparr> gs_helix = 0, gs_sheet = 0, gs_coil = 1, gs_confidence = 0 \<rparr>
         else
           let distances = calculateDistances caAtoms;
               angles = calculateAngles caAtoms;
               torsions = calculateTorsions caAtoms;
               helixScore = scoreHelicalGeometry distances angles torsions;
               sheetScore = scoreSheetGeometry distances angles;
               structureScore = max helixScore sheetScore;
               coilScore = max 0 (1 - structureScore);
               confidence = calculateConfidence caAtoms distances angles
           in \<lparr> gs_helix = helixScore, gs_sheet = sheetScore, gs_coil = coilScore,
                gs_confidence = confidence \<rparr>)"

text \<open>The window of residue \<open>i\<close>: \<open>residues.slice(start, end + 1)\<close>.\<close>

definition windowOf :: "residue list \<Rightarrow> nat \<Rightarrow> residue list" where
  "windowOf residues i =
     (let halfWindow = geometryWindow div 2;
          start = max 0 (int i - int halfWindow);
          end = min (int (length residues) - 1) (int i + int halfWindow)
      in take (nat (end + 1 - start)) (drop (nat start) residues))"

definition calculateGeometryScores :: "residue list \<Rightarrow> geometryScore list" where
  "calculateGeometryScores residues =
     map (\<lambda>i. analyzeLocalGeometry (windowOf residues i)) [0..<length residues]"

definition assignmentOf :: "geometryScore \<Rightarrow> string" where
  "assignmentOf score =
     (if gs_confidence score > 0.5
      then (if gs_helix score > gs_sheet score \<and> gs_helix score > 0.6 then ''helix''
            else if gs_sheet score > gs_helix score \<and> gs_sheet score > 0.6 then ''sheet''
            else ''coil'')
      else ''coil'')"

text \<open>
  An assignment object is its label and its score; its index and residue are its
  position in the list and the residue at that position.
\<close>

definition applyGeometryAssignments :: "geometryScore list \<Rightarrow> (string \<times> geometryScore) list" where
  "applyGeometryAssignments scores = map (\<lambda>score. (assignmentOf score, score)) scores"

definition smoothAssignments :: "(string \<times> geometryScore) list \<Rightarrow> (string \<times> geometryScore) list" where
  "smoothAssignments assignments = zip (smoothLabels (map fst assignments)) (map snd assignments)"

definition applyAssignments :: "(string \<times> geometryScore) list \<Rightarrow> residue list \<Rightarrow> residue list" where
  "applyAssignments assignments residues =
     map (\<lambda>i. if i < length assignments
               then (residues ! i) \<lparr> rs_secondaryStructure := fst (assignments ! i),
                                      rs_ssConfidence := Some (gs_confidence (snd (assignments ! i))) \<rparr>
               else residues ! i)
         [0..<length residues]"

definition assignDefaultStructure :: "residue list \<Rightarrow> residue list" where
  "assignDefaultStructure residues =
     map (\<lambda>r. r \<lparr> rs_secondaryStructure := ''coil'', rs_ssConfidence := Some 0.1 \<rparr>) residues"

text \<open>\<open>analyzeChain\<close>, as the residues it leaves behind (its return value is a summary of them).\<close>

definition analyzeChain :: "residue list \<Rightarrow> residue list" where
  "analyzeChain residues =
     (if length residues < geometryWindow then assignDefaultStructure residues
      else
        let geometryScores = calculateGeometryScores residues;
            assignments = applyGeometryAssignments geometryScores;
            smoothed = smoothAssignments assignments
        in applyAssignments smoothed residues)"

text \<open>
  The chain of the scenario: five protein residues whose CA atoms lie on the line through
  \<open>p0\<close> with direction \<open>u\<close>, each 3.8 further along than the one before.
\<close>

definition colinearCA :: "vec3 \<Rightarrow> vec3 \<Rightarrow> nat \<Rightarrow> vec3" where
  "colinearCA p0 u k =
     Vector3 (vx p0 + real k * 3.8 * vx u) (vy p0 + real k * 3.8 * vy u)
             (vz p0 + real k * 3.8 * vz u)"

definition colinearResidue :: "vec3 \<Rightarrow> vec3 \<Rightarrow> nat \<Rightarrow> residue" where
  "colinearResidue p0 u k =
     \<lparr> rs_chainId = ''A'', rs_resSeq = int k + 1, rs_resName = ''ALA'',
       rs_secondaryStructure = ''coil'', rs_ssConfidence = None, rs_isProtein = True,
       rs_ca = Some (colinearCA p0 u k) \<rparr>"

definition colinearChain :: "vec3 \<Rightarrow> vec3 \<Rightarrow> residue list" where
  "colinearChain p0 u =
     [colinearResidue p0 u 0, colinearResidue p0 u 1, colinearResidue p0 u 2,
      colinearResidue p0 u 3, colinearResidue p0 u 4]"

section \<open>RibbonGeometryGenerator (ribbon-geometry.js)\<close>

text \<open>
  A chain as the parser builds it, and the mesh handed to the renderer. Of a mesh the model
  keeps its name, its vertex positions (three numbers a vertex), its triangle indices and
  its metadata; texture coordinates, colours, the normals the rendering library computes
  and the material are left out. The metadata of a mesh of the rendering library is
  \<open>null\<close> (\<open>None\<close>) until it is assigned.
\<close>

record chain =
  ch_id :: string
  ch_residues :: "residue list"
  ch_type :: string

record meshMetadata =
  md_chainId :: string
  md_secondaryStructure :: string
  md_start :: int
  md_end :: int

record mesh =
  ms_name :: "string \<times> nat"
  ms_positions :: "jsnum list"
  ms_indices :: "nat list"
  ms_metadata :: "meshMetadata option"

text \<open>
  \<open>createSmoothCurve\<close> puts a phantom point before the first and after the last point;
  \<open>createProteinBackbone\<close> calls it with tension 0.3.
\<close>

definition createSmoothCurve :: "vec3 list \<Rightarrow> real \<Rightarrow> vec3 list" where
  "createSmoothCurve points tension =
     (if length points < 2 then points
      else
        let first = points ! 0;
            second = points ! 1;
            phantomStart = v_add first (v_scale (v_subtract first second) tension);
            secondLast = points ! (length points - 2);
            last = points ! (length points - 1);
            phantomEnd = v_add last (v_scale (v_subtract last secondLast) tension)
        in phantomStart # points @ [phantomEnd])"

definition createProteinBackbone :: "vec3 list \<Rightarrow> vec3 list" where
  "createProteinBackbone caAtoms =
     (if length caAtoms < 2 then [] else createSmoothCurve caAtoms 0.3)"

definition extractBackbone :: "residue list \<Rightarrow> vec3 list" where
  "extractBackbone residues =
     map (\<lambda>r. the (rs_ca r)) (filter (\<lambda>r. rs_isProtein r \<and> rs_ca r \<noteq> None) residues)"

record profilePoint =
  pp_x :: real
  pp_y :: real
  pp_isCircular :: bool

definition getHelixProfile :: "profilePoint list" where
  "getHelixProfile =
     map (\<lambda>i. \<lparr> pp_x = cos (real i / 12 * 2 * pi) * 1.2,
                  pp_y = sin (real i / 12 * 2 * pi) * 1.2,
                  pp_isCircular = True \<rparr>) [0..<12]"

definition getSheetProfile :: "profilePoint list" where
  "getSheetProfile =
     [\<lparr> pp_x = - 2.5 / 2, pp_y = - 0.3 / 2, pp_isCircular = False \<rparr>,
      \<lparr> pp_x = 2.5 / 2, pp_y = - 0.3 / 2, pp_isCircular = False \<rparr>,
      \<lparr> pp_x = 2.5 / 2, pp_y = 0.3 / 2, pp_isCircular = False \<rparr>,
      \<lparr> pp_x = - 2.5 / 2, pp_y = 0.3 / 2, pp_isCircular = False \<rparr>]"

definition getCoilProfile :: "profilePoint list" where
  "getCoilProfile =
     [\<lparr> pp_x = - 0.8 / 2, pp_y = - 0.2 / 2, pp_isCircular = False \<rparr>,
      \<lparr> pp_x = 0.8 / 2, pp_y = - 0.2 / 2, pp_isCircular = False \<rparr>,
      \<lparr> pp_x = 0.8 / 2, pp_y = 0.2 / 2, pp_isCircular = False \<rparr>,
      \<lparr> pp_x = - 0.8 / 2, pp_y = 0.2 / 2, pp_isCircular = False \<rparr>]"

definition getProfileForSecondaryStructure :: "string \<Rightarrow> profilePoint list" where
  "getProfileForSecondaryStructure ssType =
     (if ssType = ''helix'' then getHelixProfile
      else if ssType = ''sheet'' then getSheetProfile
      else getCoilProfile)"

record segment =
  sg_position :: vec3
  sg_tangent :: vec3
  sg_normal :: vec3
  sg_binormal :: vec3
  sg_profile :: "profilePoint list"
  sg_residue :: residue
  sg_t :: real
  sg_segmentIndex :: nat

text \<open>
  A loop body that may throw is a list of results; the loop stops at the first error.
\<close>

fun collect :: "('e + 'a) list \<Rightarrow> 'e + 'a list" where
  "collect [] = Inr []"
| "collect (Inl e # _) = Inl e"
| "collect (Inr x # rest) = (case collect rest of Inl e \<Rightarrow> Inl e | Inr xs \<Rightarrow> Inr (x # xs))"

text \<open>
  \<open>interpolateProfiles\<close> pairs the points of the two profiles by index modulo length; with
  one profile empty and the other not, the read is \<open>undefined\<close> and its \<open>x\<close> a \<open>TypeError\<close>.
\<close>

definition interpolateProfiles ::
  "profilePoint list \<Rightarrow> profilePoint list \<Rightarrow> real \<Rightarrow> js_error + profilePoint list" where
  "interpolateProfiles profile1 profile2 t =
     (let maxLength = max (length profile1) (length profile2)
      in if maxLength > 0 \<and> (profile1 = [] \<or> profile2 = []) then Inl TypeError
         else Inr (map (\<lambda>i. let p1 = profile1 ! (i mod length profile1);
                                 p2 = profile2 ! (i mod length profile2)
                             in \<lparr> pp_x = pp_x p1 * (1 - t) + pp_x p2 * t,
                                  pp_y = pp_y p1 * (1 - t) + pp_y p2 * t,
                                  pp_isCircular = False \<rparr>) [0..<maxLength]))"

definition smoothTransitionStep :: "nat \<Rightarrow> js_error + segment list \<Rightarrow> js_error + segment list" where
  "smoothTransitionStep i st =
     (case st of
        Inl e \<Rightarrow> Inl e
      | Inr segments \<Rightarrow>
          let prev = segments ! (i - 1);
              current = segments ! i;
              next = segments ! (i + 1);
              ssPrev = rs_secondaryStructure (sg_residue prev);
              ssCurrent = rs_secondaryStructure (sg_residue current);
              ssNext = rs_secondaryStructure (sg_residue next)
          in if (ssPrev \<noteq> ssCurrent \<or> ssCurrent \<noteq> ssNext) \<and> ssPrev \<noteq> ssCurrent
             then (case interpolateProfiles (sg_profile prev) (sg_profile current) 0.3 of
                     Inl e \<Rightarrow> Inl e
                   | Inr profile \<Rightarrow> Inr (segments[i := current \<lparr> sg_profile := profile \<rparr>]))
             else Inr segments)"

definition smoothTransitions :: "segment list \<Rightarrow> js_error + segment list" where
  "smoothTransitions segments =
     fold smoothTransitionStep [1..<length segments - 1] (Inr segments)"

definition pointsPerResidue :: nat where
  "pointsPerResidue = 8"

definition segmentAt :: "vec3 list \<Rightarrow> residue list \<Rightarrow> nat \<Rightarrow> js_error + segment" where
  "segmentAt spline residues i =
     (let totalPoints = length residues * pointsPerResidue;
          t = real i / (real totalPoints - 1)
      in case getFrenetFrameAt spline t of
           Inl e \<Rightarrow> Inl e
         | Inr frame \<Rightarrow>
             let residueIndex = i div pointsPerResidue;
                 residue = residues ! (min residueIndex (length residues - 1));
                 profile = getProfileForSecondaryStructure (rs_secondaryStructure residue)
             in Inr \<lparr> sg_position = ff_position frame, sg_tangent = ff_tangent frame,
                      sg_normal = ff_normal frame, sg_binormal = ff_binormal frame,
                      sg_profile = profile, sg_residue = residue, sg_t = t,
                      sg_segmentIndex = i \<rparr>)"

definition generateSegments :: "vec3 list \<Rightarrow> residue list \<Rightarrow> js_error + segment list" where
  "generateSegments spline residues =
     (case collect (map (segmentAt spline residues) [0..<length residues * pointsPerResidue]) of
        Inl e \<Rightarrow> Inl e
      | Inr segments \<Rightarrow> smoothTransitions segments)"

definition transformProfileToWorld :: "segment \<Rightarrow> vec3 list" where
  "transformProfileToWorld segment =
     map (\<lambda>point. v_add (v_add (sg_position segment) (v_scale (sg_normal segment) (pp_x point)))
                         (v_scale (sg_binormal segment) (pp_y point)))
         (sg_profile segment)"

definition faceIndices :: "nat \<Rightarrow> nat \<Rightarrow> nat \<Rightarrow> nat list" where
  "faceIndices profileSize i j =
     (let next = (j + 1) mod profileSize;
          c1 = i * profileSize + j;
          c2 = i * profileSize + next;
          n1 = (i + 1) * profileSize + j;
          n2 = (i + 1) * profileSize + next
      in [c1, n1, c2, c2, n1, n2])"

definition createSegmentMesh :: "segment list \<Rightarrow> string \<times> nat \<Rightarrow> mesh option" where
  "createSegmentMesh segments name =
     (if length segments < 2 then None
      else Some
        \<lparr> ms_name = name,
          ms_positions =
            concat (map (\<lambda>segment.
                           concat (map (\<lambda>point. [Num (vx point), Num (vy point), Num (vz point)])
                                       (transformProfileToWorld segment)))
                        segments),
          ms_indices =
            concat (map (\<lambda>i. concat (map (\<lambda>j. faceIndices (length (sg_profile (segments ! i))) i j)
                                           [0..<length (sg_profile (segments ! i))]))
                        [0..<length segments - 1]),
          ms_metadata =
            Some \<lparr> md_chainId = rs_chainId (sg_residue (segments ! 0)),
                   md_secondaryStructure = rs_secondaryStructure (sg_residue (segments ! 0)),
                   md_start = rs_resSeq (sg_residue (segments ! 0)),
                   md_end = rs_resSeq (sg_residue (segments ! (length segments - 1))) \<rparr> \<rparr>)"

definition segmentLength :: nat where
  "segmentLength = 4"

text \<open>
  \<open>createRibbonMeshes\<close> makes one mesh for every fourth segment \<open>i\<close> below
  \<open>length - 4\<close>, from the five segments \<open>i, \<dots>, i + 4\<close>.
\<close>

definition createRibbonMeshes :: "segment list \<Rightarrow> string \<Rightarrow> mesh list" where
  "createRibbonMeshes segments chainId =
     List.map_filter
       (\<lambda>i. createSegmentMesh (take (segmentLength + 1) (drop i segments)) (chainId, i))
       (filter (\<lambda>i. i mod segmentLength = 0) [0..<length segments - segmentLength])"

definition generateRibbon :: "chain list \<Rightarrow> string \<Rightarrow> js_error + mesh list" where
  "generateRibbon chainList chainId =
     (case find (\<lambda>c. ch_id c = chainId) chainList of
        None \<Rightarrow> Inr []
      | Some c \<Rightarrow>
          if ch_type c \<noteq> ''protein'' then Inr []
          else
            let backboneAtoms = extractBackbone (ch_residues c)
            in if length backboneAtoms < 4 then Inr []
               else
                 let spline = createProteinBackbone backboneAtoms
                 in case generateSegments spline (ch_residues c) of
                      Inl e \<Rightarrow> Inl e
                    | Inr segments \<Rightarrow> Inr (createRibbonMeshes segments chainId))"

section \<open>CartoonGenerator: the pipeline\<close>

datatype CartoonType =
  AUTO | TUBE | LOOP | HELIX | SHEET | ARROW | DASH | PUTTY | SKIP | SKIP_HELIX | SKIP_SHEET
  | SKIP_LOOP

definition cartoonTypeNumber :: "CartoonType \<Rightarrow> nat" where
  "cartoonTypeNumber ct =
     (case ct of AUTO \<Rightarrow> 0 | TUBE \<Rightarrow> 1 | LOOP \<Rightarrow> 2 | HELIX \<Rightarrow> 3 | SHEET \<Rightarrow> 4 | ARROW \<Rightarrow> 5
      | DASH \<Rightarrow> 6 | PUTTY \<Rightarrow> 7 | SKIP \<Rightarrow> 8 | SKIP_HELIX \<Rightarrow> 9 | SKIP_SHEET \<Rightarrow> 10
      | SKIP_LOOP \<Rightarrow> 11)"

definition rectangle :: "CartoonExtrude \<Rightarrow> real \<Rightarrow> real \<Rightarrow> CartoonExtrude" where
  "rectangle e width len =
     (let w = width / 2;
          l = len / 2;
          top = map (\<lambda>i. ([- l + real i / 3 * 2 * l, w, 0], [0, 1, 0 :: real])) [0..<4];
          right = map (\<lambda>i. ([l, w - real i / 3 * 2 * w, 0], [1, 0, 0])) [0..<4];
          bottom = map (\<lambda>i. ([l - real i / 3 * 2 * l, - w, 0], [0, - 1, 0])) [0..<4];
          left = map (\<lambda>i. ([- l, - w + real i / 3 * 2 * w, 0], [- 1, 0, 0])) [0..<4];
          pts = top @ right @ bottom @ left
      in e \<lparr> ex_shapeVertices := map Num (concat (map fst pts)),
             ex_shapeNormals := map Num (concat (map snd pts)),
             ex_nShapePoints := length pts \<rparr>)"

definition catmullRom :: "vec3 \<Rightarrow> vec3 \<Rightarrow> vec3 \<Rightarrow> vec3 \<Rightarrow> real \<Rightarrow> vec3" where
  "catmullRom p0 p1 p2 p3 t =
     (let t2 = t * t; t3 = t2 * t;
          f = (\<lambda>a b c d. 0.5 * (2 * b + (- a + c) * t + (2 * a - 5 * b + 4 * c - d) * t2
                                   + (- a + 3 * b - 3 * c + d) * t3))
      in Vector3 (f (vx p0) (vx p1) (vx p2) (vx p3))
                 (f (vy p0) (vy p1) (vy p2) (vy p3))
                 (f (vz p0) (vz p1) (vz p2) (vz p3)))"

definition linearInterpolate :: "vec3 \<Rightarrow> vec3 \<Rightarrow> real \<Rightarrow> vec3" where
  "linearInterpolate p1 p2 t =
     Vector3 (vx p1 + t * (vx p2 - vx p1)) (vy p1 + t * (vy p2 - vy p1))
             (vz p1 + t * (vz p2 - vz p1))"

text \<open>
  \<open>computeFrenetFrame\<close> reads \<open>points[1]\<close>, \<open>points[n - 2]\<close> and the neighbours of
  \<open>index\<close>; a read outside the array is \<open>undefined\<close> and \<open>subtract\<close> on it a \<open>TypeError\<close>.
\<close>

definition arbitraryPerpendicular :: "vec3 \<Rightarrow> vec3" where
  "arbitraryPerpendicular tangent =
     (if \<bar>vy tangent\<bar> < 0.9 then cm_cross tangent (Vector3 0 1 0)
      else cm_cross tangent (Vector3 1 0 0))"

definition computeFrenetFrame :: "vec3 list \<Rightarrow> nat \<Rightarrow> js_error + frame" where
  "computeFrenetFrame points index =
     (let n = int (length points);
          i = int index;
          ends = (if i = 0 then (js_index points 1, js_index points 0)
                  else if i = n - 1 then (js_index points (n - 1), js_index points (n - 2))
                  else (js_index points (i + 1), js_index points (i - 1)))
      in case ends of
           (Some a, Some b) \<Rightarrow>
             (let tangent = cm_normalize (cm_subtract a b)
              in if i = 0 \<or> i = n - 1
                 then (let normal = cm_normalize (arbitraryPerpendicular tangent);
                           binormal = cm_normalize (cm_cross tangent normal)
                       in Inr \<lparr> fr_tangent = tangent, fr_normal = normal,
                                fr_binormal = binormal \<rparr>)
                 else
                   (case (js_index points (i - 1), js_index points i, js_index points (i + 1)) of
                      (Some prevPoint, Some currPoint, Some nextPoint) \<Rightarrow>
                        (let d1 = cm_subtract currPoint prevPoint;
                             d2 = cm_subtract nextPoint currPoint;
                             curvature = cm_subtract d2 d1;
                             tproj = cm_scale tangent (cm_dot curvature tangent);
                             normal0 = cm_subtract curvature tproj;
                             normal1 = (if cm_length normal0 < 1 / 1000000
                                        then arbitraryPerpendicular tangent else normal0);
                             normal = cm_normalize normal1;
                             binormal = cm_normalize (cm_cross tangent normal)
                         in Inr \<lparr> fr_tangent = tangent, fr_normal = normal,
                                  fr_binormal = binormal \<rparr>)
                    | _ \<Rightarrow> Inl TypeError))
         | _ \<Rightarrow> Inl TypeError)"

definition computeFrenetFrames :: "vec3 list \<Rightarrow> js_error + frame list" where
  "computeFrenetFrames points =
     (case collect (map (computeFrenetFrame points) [0..<length points]) of
        Inl e \<Rightarrow> Inl e
      | Inr frames \<Rightarrow> Inr (minimizeFrameTwisting frames))"

text \<open>
  A backbone point is the position of a CA atom with its residue. \<open>interpolateSmooth\<close>
  samples \<open>(length - 1) * sampling\<close> points; its parameter divides by that number less
  one, which is positive for the sampling of the settings (20). The index
  \<open>Math.max(0, segmentIndex - 1)\<close> is the subtraction of natural numbers, which stops at 0.
  For two points and a sampling of 1 the code divides 0 by 0 and the one sampled point is
  not-a-number in every coordinate; a \<^typ>\<open>vec3\<close> has no such value, and the definition is
  not meant for that input.
\<close>

record backbonePoint =
  bp_position :: vec3
  bp_residue :: residue

definition extractBackboneCoordinates :: "chain \<Rightarrow> backbonePoint list" where
  "extractBackboneCoordinates c =
     map (\<lambda>r. \<lparr> bp_position = the (rs_ca r), bp_residue = r \<rparr>)
         (filter (\<lambda>r. rs_ca r \<noteq> None) (ch_residues c))"

definition interpolateSmooth :: "vec3 list \<Rightarrow> nat \<Rightarrow> vec3 list" where
  "interpolateSmooth points sampling =
     (if length points < 2 then points
      else
        let totalSegments = (length points - 1) * sampling
        in map (\<lambda>i.
                  let t = real i / (real totalSegments - 1);
                      segmentIndex = nat \<lfloor>t * real (length points - 1)\<rfloor>;
                      localT = t * real (length points - 1) - real segmentIndex
                  in if length points = 2
                     then linearInterpolate (points ! 0) (points ! 1) localT
                     else catmullRom (points ! (segmentIndex - 1))
                                     (points ! segmentIndex)
                                     (points ! (min (length points - 1) (segmentIndex + 1)))
                                     (points ! (min (length points - 1) (segmentIndex + 2)))
                                     localT)
               [0..<totalSegments])"

definition toLowerChar :: "char \<Rightarrow> char" where
  "toLowerChar c =
     (let k = (of_char c :: nat) in if 65 \<le> k \<and> k \<le> 90 then char_of (k + 32) else c)"

definition toLowerCase :: "string \<Rightarrow> string" where
  "toLowerCase s = map toLowerChar s"

definition autoDetectSecondaryStructure :: "backbonePoint list \<Rightarrow> nat \<Rightarrow> CartoonType" where
  "autoDetectSecondaryStructure points index =
     (let windowSize = 4;
          start = index - windowSize;
          end = min (length points) (index + windowSize + 1)
      in if end - start < 3 then LOOP
         else
           let segmentPoints = map bp_position (take (end - start) (drop start points));
               steps =
                 map (\<lambda>i. let p1 = segmentPoints ! (i - 1);
                               p2 = segmentPoints ! i;
                               p3 = segmentPoints ! (i + 1);
                               v1 = cm_normalize (cm_subtract p2 p1);
                               v2 = cm_normalize (cm_subtract p3 p2);
                               angle = arccos (max (- 1) (min 1 (cm_dot v1 v2)));
                               d1 = cm_distance p1 p2;
                               d2 = cm_distance p2 p3
                           in (angle, \<bar>d1 - d2\<bar>))
                     [1..<length segmentPoints - 1];
               totalCurvature = foldl (+) 0 (map fst steps);
               regularityScore = foldl (+) 0 (map snd steps);
               avgCurvature = totalCurvature / real (length segmentPoints - 2);
               avgRegularity = regularityScore / real (length segmentPoints - 2)
           in if avgCurvature < 0.3 \<and> avgRegularity < 1 then HELIX
              else if avgCurvature < 0.5 \<and> avgRegularity < 2 then SHEET
              else LOOP)"

record cartoonSegment =
  cs_point1 :: backbonePoint
  cs_point2 :: backbonePoint
  cs_cartoonType :: CartoonType
  cs_residue :: residue
  cs_index :: nat

record segmentGroup =
  gr_cartoonType :: CartoonType
  gr_segments :: "cartoonSegment list"
  gr_points :: "backbonePoint list"

definition cartoonTypeOf :: "backbonePoint list \<Rightarrow> nat \<Rightarrow> CartoonType" where
  "cartoonTypeOf points i =
     (let ss = rs_secondaryStructure (bp_residue (points ! i))
      in if ss \<noteq> []
         then (if toLowerCase ss \<in> {''helix'', ''h''} then HELIX
               else if toLowerCase ss \<in> {''sheet'', ''strand'', ''e''} then SHEET
               else LOOP)
         else autoDetectSecondaryStructure points i)"

fun groupLoop ::
  "cartoonSegment list \<Rightarrow> segmentGroup list \<Rightarrow> segmentGroup option \<Rightarrow> segmentGroup list" where
  "groupLoop [] groups currentGroup =
     (case currentGroup of None \<Rightarrow> groups | Some g \<Rightarrow> groups @ [g])"
| "groupLoop (seg # rest) groups currentGroup =
     (case currentGroup of
        None \<Rightarrow>
          groupLoop rest groups
            (Some \<lparr> gr_cartoonType = cs_cartoonType seg, gr_segments = [seg],
                     gr_points = [cs_point1 seg, cs_point2 seg] \<rparr>)
      | Some g \<Rightarrow>
          if gr_cartoonType g \<noteq> cs_cartoonType seg
          then groupLoop rest (groups @ [g])
                 (Some \<lparr> gr_cartoonType = cs_cartoonType seg, gr_segments = [seg],
                          gr_points = [cs_point1 seg, cs_point2 seg] \<rparr>)
          else groupLoop rest groups
                 (Some (g \<lparr> gr_segments := gr_segments g @ [seg],
                            gr_points := gr_points g @ [cs_point2 seg] \<rparr>)))"

definition groupSegmentsByType :: "cartoonSegment list \<Rightarrow> segmentGroup list" where
  "groupSegmentsByType segments = groupLoop segments [] None"

definition detectSecondaryStructure :: "backbonePoint list \<Rightarrow> segmentGroup list" where
  "detectSecondaryStructure points =
     groupSegmentsByType
       (map (\<lambda>i. \<lparr> cs_point1 = points ! i, cs_point2 = points ! (i + 1),
                    cs_cartoonType = cartoonTypeOf points i,
                    cs_residue = bp_residue (points ! i), cs_index = i \<rparr>)
            [0..<length points - 1])"

definition generateColors :: "cartoonSegment list \<Rightarrow> (real \<times> real \<times> real) list" where
  "generateColors segments =
     map (\<lambda>seg. if cs_cartoonType seg = HELIX then (0.8, 0.2, 0.2)
                 else if cs_cartoonType seg = SHEET then (0.2, 0.2, 0.8)
                 else (0.2, 0.8, 0.2)) segments"

record curve =
  cv_cartoonType :: CartoonType
  cv_points :: "vec3 list"
  cv_frames :: "frame list"
  cv_colors :: "(real \<times> real \<times> real) list"
  cv_segments :: "cartoonSegment list"

record settings =
  st_sampling :: nat
  st_helix_radius :: real
  st_sheet_width :: real
  st_sheet_length :: real
  st_loop_radius :: real

definition defaultSettings :: settings where
  "defaultSettings =
     \<lparr> st_sampling = 20, st_helix_radius = 1.8, st_sheet_width = 2.5, st_sheet_length = 0.3,
       st_loop_radius = 0.8 \<rparr>"

definition curveOf :: "settings \<Rightarrow> segmentGroup \<Rightarrow> js_error + curve" where
  "curveOf stg g =
     (let smoothPoints = interpolateSmooth (map bp_position (gr_points g)) (st_sampling stg)
      in case computeFrenetFrames smoothPoints of
           Inl e \<Rightarrow> Inl e
         | Inr frames \<Rightarrow>
             Inr \<lparr> cv_cartoonType = gr_cartoonType g, cv_points = smoothPoints,
                    cv_frames = frames, cv_colors = generateColors (gr_segments g),
                    cv_segments = gr_segments g \<rparr>)"

definition generateSmoothCurves :: "segmentGroup list \<Rightarrow> settings \<Rightarrow> js_error + curve list" where
  "generateSmoothCurves segmentGroups stg =
     collect (map (curveOf stg) (filter (\<lambda>g. \<not> length (gr_points g) < 2) segmentGroups))"

text \<open>
  \<open>createExtrusion\<close> first copies the points, frames and colour of the curve into a fresh
  extrusion object (\<open>copyCurve\<close>), then sets the shape by the cartoon type.
\<close>

definition copyCurve :: "curve \<Rightarrow> CartoonExtrude" where
  "copyCurve cv =
     (let k = length (cv_points cv);
          e0 = allocatePointsNormalsColors newCartoonExtrude k;
          color = (case js_index (cv_colors cv) (int (length (cv_colors cv) div 2)) of
                     Some c \<Rightarrow> c | None \<Rightarrow> (0.8, 0.8, 0.8))
      in e0 \<lparr> ex_points :=
                 concat (map (\<lambda>p. [Num (vx p), Num (vy p), Num (vz p)]) (cv_points cv)),
               ex_normals :=
                 concat (map (\<lambda>i. case js_index (cv_frames cv) (int i) of
                                     Some f \<Rightarrow>
                                       [Num (vx (fr_tangent f)), Num (vy (fr_tangent f)),
                                        Num (vz (fr_tangent f)), Num (vx (fr_normal f)),
                                        Num (vy (fr_normal f)), Num (vz (fr_normal f)),
                                        Num (vx (fr_binormal f)), Num (vy (fr_binormal f)),
                                        Num (vz (fr_binormal f))]
                                   | None \<Rightarrow> replicate 9 NaN) [0..<k]),
               ex_colors :=
                 concat (map (\<lambda>i. [Num (fst color), Num (fst (snd color)),
                                     Num (snd (snd color))]) [0..<k]) \<rparr>)"

definition createExtrusion :: "curve \<Rightarrow> settings \<Rightarrow> CartoonExtrude" where
  "createExtrusion cv stg =
     (if cv_cartoonType cv = HELIX then circle (copyCurve cv) 12 (st_helix_radius stg)
      else if cv_cartoonType cv = SHEET
      then rectangle (copyCurve cv) (st_sheet_width stg) (st_sheet_length stg)
      else circle (copyCurve cv) 8 (st_loop_radius stg))"

text \<open>
  \<open>generateMesh\<close> names the mesh after the cartoon type and the clock (left out here) and
  never assigns metadata.
\<close>

definition generateMesh :: "CartoonExtrude \<Rightarrow> CartoonType \<Rightarrow> mesh option" where
  "generateMesh e cartoonType =
     (let g = generateGeometry e
      in if g_vertices g = [] then None
         else Some \<lparr> ms_name = (''cartoon'', cartoonTypeNumber cartoonType),
                      ms_positions = g_vertices g, ms_indices = g_indices g,
                      ms_metadata = None \<rparr>)"

definition generateCartoon :: "chain list \<Rightarrow> string \<Rightarrow> settings \<Rightarrow> js_error + mesh list" where
  "generateCartoon chainList chainId stg =
     (case find (\<lambda>c. ch_id c = chainId) chainList of
        None \<Rightarrow> Inr []
      | Some c \<Rightarrow>
          if length (ch_residues c) < 2 then Inr []
          else
            let backbonePoints = extractBackboneCoordinates c
            in if length backbonePoints < 2 then Inr []
               else
                 case generateSmoothCurves (detectSecondaryStructure backbonePoints) stg of
                   Inl e \<Rightarrow> Inl e
                 | Inr curves \<Rightarrow>
                     Inr (List.map_filter
                            (\<lambda>cv. generateMesh (createExtrusion cv stg) (cv_cartoonType cv))
                            curves))"

text \<open>
  The chain of the scenario: ten protein residues numbered 1 to 10, each with a CA atom at
  the position \<open>ca k\<close>, all labelled \<open>helix\<close>, in a chain of type protein.
\<close>

definition helixResidue :: "(nat \<Rightarrow> vec3) \<Rightarrow> nat \<Rightarrow> residue" where
  "helixResidue ca k =
     \<lparr> rs_chainId = ''A'', rs_resSeq = int k + 1, rs_resName = ''ALA'',
       rs_secondaryStructure = ''helix'', rs_ssConfidence = None, rs_isProtein = True,
       rs_ca = Some (ca k) \<rparr>"

definition helixChain :: "(nat \<Rightarrow> vec3) \<Rightarrow> chain" where
  "helixChain ca =
     \<lparr> ch_id = ''A'', ch_residues = map (helixResidue ca) [0..<10], ch_type = ''protein'' \<rparr>"

text \<open>
  Two ribbon segments with the helix profile, and the CA positions of a straight chain,
  as concrete inputs.
\<close>

definition ringSegment :: "real \<Rightarrow> segment" where
  "ringSegment z =
     \<lparr> sg_position = Vector3 0 0 z, sg_tangent = Vector3 0 0 1, sg_normal = Vector3 1 0 0,
       sg_binormal = Vector3 0 1 0, sg_profile = getHelixProfile,
       sg_residue = helixResidue (\<lambda>k. Vector3 0 0 (real k)) 0, sg_t = z, sg_segmentIndex = 0 \<rparr>"

definition lineCA :: "nat \<Rightarrow> vec3" where
  "lineCA k = Vector3 (3.8 * real k) 0 0"

section \<open>PDBParser residue classification (spline-math.js)\<close>

definition proteinResidues :: "string list" where
  "proteinResidues =
     [''ALA'', ''ARG'', ''ASN'', ''ASP'', ''CYS'', ''GLN'', ''GLU'', ''GLY'', ''HIS'', ''ILE'',
      ''LEU'', ''LYS'', ''MET'', ''PHE'', ''PRO'', ''SER'', ''THR'', ''TRP'', ''TYR'', ''VAL'',
      ''MSE'', ''SEP'', ''TPO'', ''PTR'', ''MLY'', ''M3L'', ''HOH'']"

definition isProteinResidue :: "string \<Rightarrow> bool" where
  "isProteinResidue resName = (toUpperCase resName \<in> set proteinResidues)"

text \<open>The \<open>isWater\<close> flag \<open>buildResidues\<close> computes from the residue name.\<close>

definition isWater :: "string \<Rightarrow> bool" where
  "isWater resName = (resName = ''HOH'' \<or> resName = ''WAT'')"

section \<open>Theorems\<close>

subsection \<open>Curve point evaluation\<close>

lemma startIndex_bounds:
  assumes "4 \<le> length cps"
  shows "0 \<le> startIndex cps t \<and> startIndex cps t + 3 < int (length cps)"
  using assms by (simp add: startIndex_def Let_def)

text \<open>
  C10. \<open>getPointAt\<close> returns a point for every real parameter and every control-point
  list: the origin for no control points, the first control point for one to three of
  them, and for four or more the four points starting at \<open>startIndex\<close>, which lies
  between 0 and the length minus 4, so that all four reads are inside the array.
\<close>

theorem getPointAt_total:
  "getPointAt [] t = Inr (Vector3 0 0 0)
   \<and> (1 \<le> length cps \<and> length cps \<le> 3 \<longrightarrow> getPointAt cps t = Inr (cps ! 0))
   \<and> (4 \<le> length cps \<longrightarrow>
        0 \<le> startIndex cps t \<and> startIndex cps t \<le> int (length cps) - 4
        \<and> (\<forall>k \<in> {0, 1, 2, 3}. js_index cps (startIndex cps t + k) \<noteq> None)
        \<and> (\<exists>p. getPointAt cps t = Inr p))"
proof (intro conjI impI)
  show "getPointAt [] t = Inr (Vector3 0 0 0)"
    by (simp add: getPointAt_def)
next
  assume "1 \<le> length cps \<and> length cps \<le> 3"
  then show "getPointAt cps t = Inr (cps ! 0)"
    by (cases cps) (simp_all add: getPointAt_def js_index_def)
next
  assume len: "4 \<le> length cps"
  from startIndex_bounds [OF len]
  have b: "0 \<le> startIndex cps t" "startIndex cps t + 3 < int (length cps)"
    by simp_all
  show "0 \<le> startIndex cps t" by (rule b)
  show "startIndex cps t \<le> int (length cps) - 4" using b by simp
  show in_range: "\<forall>k \<in> {0, 1, 2, 3}. js_index cps (startIndex cps t + k) \<noteq> None"
    using b by (simp add: js_index_def)
  then obtain p0 p1 p2 p3 where
    "js_index cps (startIndex cps t) = Some p0" "js_index cps (startIndex cps t + 1) = Some p1"
    "js_index cps (startIndex cps t + 2) = Some p2" "js_index cps (startIndex cps t + 3) = Some p3"
    by fastforce
  then show "\<exists>p. getPointAt cps t = Inr p"
    using len by (simp add: getPointAt_def evaluateBSpline_def Let_def)
qed

theorem getPointAt_total_witness:
  "getPointAt [Vector3 1 0 0, Vector3 2 0 0] 5 = Inr (Vector3 1 0 0)
   \<and> startIndex [Vector3 0 0 0, Vector3 1 0 0, Vector3 2 0 0, Vector3 3 0 0, Vector3 4 0 0] 7 = 1
   \<and> (\<exists>p. getPointAt [Vector3 0 0 0, Vector3 1 0 0, Vector3 2 0 0, Vector3 3 0 0,
                        Vector3 4 0 0] 7 = Inr p)"
  using getPointAt_total [of 5 "[Vector3 1 0 0, Vector3 2 0 0]"]
        getPointAt_total [of 7 "[Vector3 0 0 0, Vector3 1 0 0, Vector3 2 0 0, Vector3 3 0 0,
                        Vector3 4 0 0]"]
  by (simp add: startIndex_def degree_def)

subsection \<open>Residue classification\<close>

text \<open>
  C7. \<open>isProteinResidue\<close> accepts the water residue name HOH, which \<open>buildResidues\<close>
  flags as water on the same residue.
\<close>

theorem isProteinResidue_HOH:
  "isProteinResidue ''HOH'' \<and> isWater ''HOH''"
  by code_simp

subsection \<open>Extrusion counts\<close>

lemma length_concat_const:
  "(\<And>x. x \<in> set xs \<Longrightarrow> length (f x) = k) \<Longrightarrow> length (concat (map f xs)) = k * length xs"
  by (induction xs) simp_all

lemma generateGeometry_counts:
  assumes "2 \<le> ex_n e" "3 \<le> ex_nShapePoints e"
  shows "length (g_vertices (generateGeometry e)) = 3 * (ex_n e * ex_nShapePoints e)"
    and "length (g_indices (generateGeometry e)) = (ex_n e - 1) * ex_nShapePoints e * 6"
proof -
  have v: "\<And>i. length (concat (map (\<lambda>j. ringVertex e i j) [0..<ex_nShapePoints e])) = 3 * ex_nShapePoints e"
    by (subst length_concat_const [where k = 3]) (simp_all add: ringVertex_def Let_def)
  have q: "\<And>i. length (concat (map (\<lambda>j. quadIndices (ex_nShapePoints e) i j) [0..<ex_nShapePoints e])) = 6 * ex_nShapePoints e"
    by (subst length_concat_const [where k = 6]) (simp_all add: quadIndices_def Let_def)
  show "length (g_vertices (generateGeometry e)) = 3 * (ex_n e * ex_nShapePoints e)"
    using assms by (simp add: generateGeometry_def Let_def length_concat_const [where k = "3 * ex_nShapePoints e"] v)
  show "length (g_indices (generateGeometry e)) = (ex_n e - 1) * ex_nShapePoints e * 6"
    using assms by (simp add: generateGeometry_def Let_def length_concat_const [where k = "6 * ex_nShapePoints e"] q)
qed

subsection \<open>Twist minimisation\<close>

lemma untwist_normal: "0 \<le> cm_dot (fr_normal p) (fr_normal (untwist p c))"
  by (simp add: untwist_def Let_def cm_dot_def cm_scale_def)

lemma untwist_loop:
  assumes "k \<le> length frames"
  defines "r \<equiv> fold (\<lambda>i fs. fs[i := untwist (fs ! (i - 1)) (fs ! i)]) [1..<k] frames"
  shows "length r = length frames
         \<and> (\<forall>j. k \<le> j \<longrightarrow> r ! j = frames ! j)
         \<and> (\<forall>j. j + 1 < k \<longrightarrow> 0 \<le> cm_dot (fr_normal (r ! j)) (fr_normal (r ! (j + 1))))"
  using assms(1) unfolding r_def
proof (induction k)
  case 0
  then show ?case by simp
next
  case (Suc k)
  show ?case
  proof (cases "k = 0")
    case True
    then show ?thesis by simp
  next
    case False
    then have up: "[1..<Suc k] = [1..<k] @ [k]" by simp
    from Suc have IH: "length (fold (\<lambda>i fs. fs[i := untwist (fs ! (i - 1)) (fs ! i)]) [1..<k] frames) = length frames"
      "\<forall>j. k \<le> j \<longrightarrow> fold (\<lambda>i fs. fs[i := untwist (fs ! (i - 1)) (fs ! i)]) [1..<k] frames ! j = frames ! j"
      "\<forall>j. j + 1 < k \<longrightarrow> 0 \<le> cm_dot (fr_normal (fold (\<lambda>i fs. fs[i := untwist (fs ! (i - 1)) (fs ! i)]) [1..<k] frames ! j)) (fr_normal (fold (\<lambda>i fs. fs[i := untwist (fs ! (i - 1)) (fs ! i)]) [1..<k] frames ! (j + 1)))"
      by simp_all
    define r0 where "r0 = fold (\<lambda>i fs. fs[i := untwist (fs ! (i - 1)) (fs ! i)]) [1..<k] frames"
    have klt: "k < length r0" using Suc.prems IH(1) by (simp add: r0_def)
    have "\<forall>j. j + 1 < Suc k \<longrightarrow> 0 \<le> cm_dot (fr_normal (r0[k := untwist (r0 ! (k - 1)) (r0 ! k)] ! j)) (fr_normal (r0[k := untwist (r0 ! (k - 1)) (r0 ! k)] ! (j + 1)))"
    proof (intro allI impI)
      fix j assume j: "j + 1 < Suc k"
      show "0 \<le> cm_dot (fr_normal (r0[k := untwist (r0 ! (k - 1)) (r0 ! k)] ! j)) (fr_normal (r0[k := untwist (r0 ! (k - 1)) (r0 ! k)] ! (j + 1)))"
      proof (cases "j + 1 = k")
        case True
        then have "j = k - 1" "j \<noteq> k" by simp_all
        then show ?thesis using klt True by (simp add: untwist_normal)
      next
        case F: False
        then have "j + 1 < k" using j by simp
        then show ?thesis using IH(3) by (simp add: r0_def)
      qed
    qed
    then show ?thesis using IH(1,2) by (simp add: up r0_def)
  qed
qed

text \<open>
  C5. After \<open>minimizeFrameTwisting\<close>, the normals of every two consecutive frames have a
  dot product that is not negative.
\<close>

theorem minimizeFrameTwisting_normals:
  "i + 1 < length frames \<Longrightarrow>
   0 \<le> cm_dot (fr_normal (minimizeFrameTwisting frames ! i))
               (fr_normal (minimizeFrameTwisting frames ! (i + 1)))"
  using untwist_loop [of "length frames" frames]
  by (simp add: minimizeFrameTwisting_def)

theorem minimizeFrameTwisting_normals_witness:
  "0 + 1 < length [\<lparr> fr_tangent = Vector3 1 0 0, fr_normal = Vector3 0 1 0, fr_binormal = Vector3 0 0 1 \<rparr>,
                   \<lparr> fr_tangent = Vector3 1 0 0, fr_normal = Vector3 0 (- 1) 0, fr_binormal = Vector3 0 0 1 \<rparr>]
   \<and> 0 \<le> cm_dot
         (fr_normal (minimizeFrameTwisting
            [\<lparr> fr_tangent = Vector3 1 0 0, fr_normal = Vector3 0 1 0, fr_binormal = Vector3 0 0 1 \<rparr>,
             \<lparr> fr_tangent = Vector3 1 0 0, fr_normal = Vector3 0 (- 1) 0, fr_binormal = Vector3 0 0 1 \<rparr>] ! 0))
         (fr_normal (minimizeFrameTwisting
            [\<lparr> fr_tangent = Vector3 1 0 0, fr_normal = Vector3 0 1 0, fr_binormal = Vector3 0 0 1 \<rparr>,
             \<lparr> fr_tangent = Vector3 1 0 0, fr_normal = Vector3 0 (- 1) 0, fr_binormal = Vector3 0 0 1 \<rparr>] ! (0 + 1)))"
  using minimizeFrameTwisting_normals [of 0
            "[\<lparr> fr_tangent = Vector3 1 0 0, fr_normal = Vector3 0 1 0, fr_binormal = Vector3 0 0 1 \<rparr>,
             \<lparr> fr_tangent = Vector3 1 0 0, fr_normal = Vector3 0 (- 1) 0, fr_binormal = Vector3 0 0 1 \<rparr>]"]
  by simp

subsection \<open>Rounding to a double\<close>

text \<open>
  \<open>exponentOf\<close> is the binary exponent; a rounding is determined by the exponent and the
  nearest integer multiple of the unit in the last place; on zero and on the range of the
  normal doubles it changes a number by at most the factor \<open>1 \<plusminus> 2\<^sup>-\<^sup>5\<^sup>3\<close>.
\<close>

lemma twoPow_powr: "twoPow e = 2 powr real_of_int e"
proof (cases "0 \<le> e")
  case True
  define n where "n = nat e"
  have e: "e = int n" using True by (simp add: n_def)
  show ?thesis unfolding e by (simp add: twoPow_def powr_realpow)
next
  case False
  define n where "n = nat (- e)"
  have e: "e = - int n" using False by (simp add: n_def)
  have "twoPow e = 1 / 2 ^ n" using False by (simp add: twoPow_def n_def)
  also have "\<dots> = 2 powr (- real n)" by (simp add: powr_minus powr_realpow divide_inverse)
  finally show ?thesis by (simp add: e)
qed

lemma twoPow_pos: "0 < twoPow e"
  by (simp add: twoPow_powr)

lemma twoPow_less: "twoPow a < twoPow b \<longleftrightarrow> a < b"
  by (simp add: twoPow_powr)

lemma twoPow_le: "twoPow a \<le> twoPow b \<longleftrightarrow> a \<le> b"
  by (simp add: twoPow_powr)

lemma twoPow_add: "twoPow (a + b) = twoPow a * twoPow b"
  by (simp add: twoPow_powr powr_add)

lemma twoPow_nat: "twoPow (int n) = 2 ^ n"
  by (simp add: twoPow_def)

lemma twoPow_neg: "twoPow (- int n) = 1 / 2 ^ n"
  by (simp add: twoPow_def)

lemma exponentOf_ge: "- 1022 \<le> exponentOf x"
  by (simp add: exponentOf_def Let_def)

lemma exponentOf_upper:
  assumes "x \<noteq> 0"
  shows "\<bar>x\<bar> < twoPow (exponentOf x + 1)"
proof (cases "1 \<le> \<bar>x\<bar>")
  case True
  define n where "n = nat \<lfloor>\<bar>x\<bar>\<rfloor>"
  have n: "0 < n" using True by (simp add: n_def)
  have "\<bar>x\<bar> < real_of_int \<lfloor>\<bar>x\<bar>\<rfloor> + 1" by linarith
  also have "\<dots> = real n + 1" using True by (simp add: n_def)
  also have "\<dots> \<le> 2 ^ floorlog 2 n"
  proof -
    have "n < 2 ^ floorlog 2 n" using floorlog_bounds [OF n, of 2] by simp
    then have "n + 1 \<le> 2 ^ floorlog 2 n" by simp
    then have "real (n + 1) \<le> real (2 ^ floorlog 2 n)" by (rule of_nat_mono)
    then show ?thesis by simp
  qed
  finally have "\<bar>x\<bar> < twoPow (int (floorlog 2 n))" by (simp add: twoPow_nat)
  then show ?thesis using True by (simp add: exponentOf_def Let_def n_def)
next
  case False
  define c where "c = nat (\<lceil>1 / \<bar>x\<bar>\<rceil> - 1)"
  define f where "f = floorlog 2 c"
  have a: "0 < \<bar>x\<bar>" "\<bar>x\<bar> < 1" using assms False by simp_all
  then have y: "1 < 1 / \<bar>x\<bar>" by simp
  define k where "k = \<lceil>1 / \<bar>x\<bar>\<rceil>"
  have "2 \<le> k" unfolding k_def using y by linarith
  then have "0 < c" "real c = real_of_int k - 1" by (simp_all add: c_def k_def [symmetric])
  then have c: "0 < c" "real c = real_of_int \<lceil>1 / \<bar>x\<bar>\<rceil> - 1" by (simp_all only: k_def)
  have "real c < 1 / \<bar>x\<bar>" using c(2) by linarith
  moreover have "2 ^ (f - 1) \<le> c" using floorlog_bounds [OF c(1), of 2] by (simp add: f_def)
  then have "real (2 ^ (f - 1)) \<le> real c" by (rule of_nat_mono)
  then have "(2::real) ^ (f - 1) \<le> real c" by simp
  ultimately have "2 ^ (f - 1) < 1 / \<bar>x\<bar>" by linarith
  then have "\<bar>x\<bar> * 2 ^ (f - 1) < 1" using a(1) by (simp add: field_simps)
  then have lt: "\<bar>x\<bar> < 1 / 2 ^ (f - 1)" by (simp add: field_simps)
  have f: "0 < f" using c(1) by (simp add: f_def floorlog_def)
  then have "- int f + 1 = - int (f - 1)" by simp
  then have "twoPow (- int f + 1) = 1 / 2 ^ (f - 1)" by (simp only: twoPow_neg)
  with lt have b: "\<bar>x\<bar> < twoPow (- int f + 1)" by simp
  have "twoPow (- int f + 1) \<le> twoPow (max (- 1022) (- int f) + 1)"
    by (simp add: twoPow_le)
  with b have "\<bar>x\<bar> < twoPow (max (- 1022) (- int f) + 1)" by linarith
  then show ?thesis using False assms by (simp add: exponentOf_def Let_def c_def f_def)
qed

lemma exponentOf_lower:
  assumes "- 1022 < exponentOf x \<or> twoPow (- 1022) \<le> \<bar>x\<bar>"
  shows "twoPow (exponentOf x) \<le> \<bar>x\<bar>"
proof (cases "1 \<le> \<bar>x\<bar>")
  case True
  define n where "n = nat \<lfloor>\<bar>x\<bar>\<rfloor>"
  have n: "0 < n" using True by (simp add: n_def)
  have "2 ^ (floorlog 2 n - 1) \<le> n" using floorlog_bounds [OF n, of 2] by simp
  then have "real (2 ^ (floorlog 2 n - 1)) \<le> real n" by (rule of_nat_mono)
  also have "real n = real_of_int \<lfloor>\<bar>x\<bar>\<rfloor>" using True by (simp add: n_def)
  also have "\<dots> \<le> \<bar>x\<bar>" by linarith
  finally have "2 ^ (floorlog 2 n - 1) \<le> \<bar>x\<bar>" by simp
  moreover have "0 < floorlog 2 n" using n by (simp add: floorlog_def)
  then have "int (floorlog 2 n) - 1 = int (floorlog 2 n - 1)" by simp
  ultimately have "twoPow (int (floorlog 2 n) - 1) \<le> \<bar>x\<bar>"
    by (simp only: twoPow_nat)
  then show ?thesis using True by (simp add: exponentOf_def Let_def n_def)
next
  case False
  show ?thesis
  proof (cases "x = 0")
    case True
    then show ?thesis using assms twoPow_pos [of "- 1022"] by (simp add: exponentOf_def)
  next
    case x: False
    define c where "c = nat (\<lceil>1 / \<bar>x\<bar>\<rceil> - 1)"
    define f where "f = floorlog 2 c"
    have a: "0 < \<bar>x\<bar>" "\<bar>x\<bar> < 1" using x False by simp_all
    then have y: "1 < 1 / \<bar>x\<bar>" by simp
    define k where "k = \<lceil>1 / \<bar>x\<bar>\<rceil>"
    have "2 \<le> k" unfolding k_def using y by linarith
    then have "0 < c" "real c = real_of_int k - 1" by (simp_all add: c_def k_def [symmetric])
    then have c: "0 < c" "real c = real_of_int \<lceil>1 / \<bar>x\<bar>\<rceil> - 1" by (simp_all only: k_def)
    have "1 / \<bar>x\<bar> \<le> real c + 1" using c(2) by linarith
    moreover have "c < 2 ^ f" using floorlog_bounds [OF c(1), of 2] by (simp add: f_def)
    then have "c + 1 \<le> 2 ^ f" by simp
    then have "real (c + 1) \<le> real (2 ^ f)" by (rule of_nat_mono)
    then have "real c + 1 \<le> (2::real) ^ f" by simp
    ultimately have "1 / \<bar>x\<bar> \<le> 2 ^ f" by linarith
    then have "1 \<le> \<bar>x\<bar> * 2 ^ f" using a(1) by (simp add: field_simps)
    then have ge: "1 / 2 ^ f \<le> \<bar>x\<bar>" by (simp add: field_simps)
    have "1 / 2 ^ f = twoPow (- int f)" by (simp only: twoPow_neg)
    with ge have b: "twoPow (- int f) \<le> \<bar>x\<bar>" by simp
    have e: "exponentOf x = max (- 1022) (- int f)"
      using False x by (simp add: exponentOf_def Let_def c_def f_def)
    show ?thesis
    proof (cases "- 1022 \<le> - int f")
      case True
      then show ?thesis using b e by simp
    next
      case False
      then have "exponentOf x = - 1022" using e by simp
      then show ?thesis using assms by simp
    qed
  qed
qed

lemma exponentOf_eqI:
  assumes "twoPow e \<le> \<bar>x\<bar>" "\<bar>x\<bar> < twoPow (e + 1)" "- 1022 \<le> e"
  shows "exponentOf x = e"
proof -
  have x: "x \<noteq> 0" using assms(1) twoPow_pos [of e] by auto
  have "twoPow (- 1022) \<le> twoPow e" using assms(3) by (simp add: twoPow_le)
  then have "twoPow (- 1022) \<le> \<bar>x\<bar>" using assms(1) by linarith
  then have "twoPow (exponentOf x) \<le> \<bar>x\<bar>" using exponentOf_lower by blast
  then have "twoPow (exponentOf x) < twoPow (e + 1)" using assms(2) by linarith
  then have 1: "exponentOf x < e + 1" by (simp only: twoPow_less)
  have "twoPow e < twoPow (exponentOf x + 1)" using exponentOf_upper [OF x] assms(1) by linarith
  then have "e < exponentOf x + 1" by (simp only: twoPow_less)
  with 1 show ?thesis by linarith
qed

lemma exponentOf_subnormal:
  assumes "\<bar>x\<bar> < twoPow (- 1022)"
  shows "exponentOf x = - 1022"
proof (rule ccontr)
  assume "exponentOf x \<noteq> - 1022"
  then have lt: "- 1022 < exponentOf x" using exponentOf_ge [of x] by linarith
  then have "twoPow (exponentOf x) \<le> \<bar>x\<bar>" using exponentOf_lower by blast
  then have "twoPow (exponentOf x) < twoPow (- 1022)" using assms by linarith
  then have "exponentOf x < - 1022" by (simp only: twoPow_less)
  with lt show False by linarith
qed

lemma exponentOf_less:
  assumes "\<bar>x\<bar> < twoPow e" "- 1022 < e"
  shows "exponentOf x < e"
proof (rule ccontr)
  assume "\<not> exponentOf x < e"
  then have ge: "e \<le> exponentOf x" by linarith
  then have "- 1022 < exponentOf x" using assms(2) by linarith
  then have "twoPow (exponentOf x) \<le> \<bar>x\<bar>" using exponentOf_lower by blast
  then have "twoPow (exponentOf x) < twoPow e" using assms(1) by linarith
  then have "exponentOf x < e" by (simp only: twoPow_less)
  with ge show False by linarith
qed

lemma roundHalfEven_close: "\<bar>real_of_int (roundHalfEven q) - q\<bar> \<le> 1 / 2"
proof -
  have "real_of_int \<lfloor>q\<rfloor> \<le> q" "q < real_of_int \<lfloor>q\<rfloor> + 1" by linarith+
  then show ?thesis by (auto simp add: roundHalfEven_def Let_def)
qed

lemma roundHalfEven_eqI:
  assumes "\<bar>q - real_of_int n\<bar> < 1 / 2"
  shows "roundHalfEven q = n"
proof -
  have "\<bar>real_of_int (roundHalfEven q) - q\<bar> \<le> 1 / 2" by (rule roundHalfEven_close)
  with assms have "\<bar>real_of_int (roundHalfEven q) - real_of_int n\<bar> < 1" by linarith
  then have "\<bar>real_of_int (roundHalfEven q - n)\<bar> < 1" by simp
  then have "\<bar>roundHalfEven q - n\<bar> < 1" by linarith
  then show ?thesis by linarith
qed

lemma toDouble_eqI:
  assumes "twoPow e \<le> \<bar>x\<bar>" "\<bar>x\<bar> < twoPow (e + 1)" "- 1022 \<le> e" "e \<le> 1022"
    and "\<bar>x / twoPow (e - 52) - real_of_int n\<bar> < 1 / 2"
  shows "toDouble x = Num (real_of_int n * twoPow (e - 52))"
proof -
  have e: "exponentOf x = e" using assms(1-3) by (rule exponentOf_eqI)
  have r: "roundHalfEven (x / twoPow (e - 52)) = n" using assms(5) by (rule roundHalfEven_eqI)
  define y where "y = real_of_int n * twoPow (e - 52)"
  have p: "0 < twoPow (e - 52)" by (rule twoPow_pos)
  have "\<bar>x - y\<bar> = \<bar>x / twoPow (e - 52) - real_of_int n\<bar> * twoPow (e - 52)"
    using p by (simp add: y_def abs_mult [symmetric] field_simps)
  also have "\<dots> < 1 / 2 * twoPow (e - 52)" using assms(5) p by (simp add: field_simps)
  also have "\<dots> \<le> twoPow (e - 52)" using p by simp
  also have "\<dots> \<le> twoPow (e + 1)" by (simp add: twoPow_le)
  finally have "\<bar>y\<bar> < twoPow (e + 1) + twoPow (e + 1)" using assms(2) by linarith
  also have "\<dots> = twoPow (e + 2)"
    using twoPow_add [of "e + 1" 1] by (simp add: twoPow_def add.commute)
  also have "\<dots> \<le> twoPow 1024" using assms(4) by (simp add: twoPow_le)
  finally have "exponentOf y < 1024" by (rule exponentOf_less) simp
  then show ?thesis by (simp add: toDouble_def Let_def e r y_def)
qed

lemma toDouble_zero: "toDouble 0 = Num 0"
  by (simp add: toDouble_def roundHalfEven_def exponentOf_def Let_def)

lemma toDouble_sqrt_eqI:
  assumes "twoPow (2 * e) \<le> a" "a < twoPow (2 * e + 2)" "- 1022 \<le> e" "e \<le> 1022" "1 \<le> n"
    and "(real_of_int n - 1 / 2)\<^sup>2 < a / twoPow (2 * (e - 52))"
    and "a / twoPow (2 * (e - 52)) < (real_of_int n + 1 / 2)\<^sup>2"
  shows "toDouble (sqrt a) = Num (real_of_int n * twoPow (e - 52))"
proof (rule toDouble_eqI [OF _ _ assms(3,4)])
  have sq: "twoPow (2 * k) = (twoPow k)\<^sup>2" for k
    using twoPow_add [of k k] by (simp add: power2_eq_square)
  have a: "0 < a" using assms(1) twoPow_pos [of "2 * e"] by linarith
  have "sqrt (twoPow (2 * e)) \<le> sqrt a" using assms(1) by simp
  then show "twoPow e \<le> \<bar>sqrt a\<bar>" using twoPow_pos [of e] a by (simp add: sq)
  have "2 * e + 2 = 2 * (e + 1)" by simp
  then have "a < (twoPow (e + 1))\<^sup>2" using assms(2) sq [of "e + 1"] by simp
  then have "sqrt a < sqrt ((twoPow (e + 1))\<^sup>2)" by (simp only: real_sqrt_less_iff)
  then show "\<bar>sqrt a\<bar> < twoPow (e + 1)" using twoPow_pos [of "e + 1"] a by simp
  define b where "b = a / twoPow (2 * (e - 52))"
  have "b = a / (twoPow (e - 52))\<^sup>2" unfolding b_def by (simp only: sq)
  then have b: "sqrt b = sqrt a / twoPow (e - 52)"
    using twoPow_pos [of "e - 52"] by (simp add: real_sqrt_divide)
  have n: "0 \<le> real_of_int n - 1 / 2" using assms(5) by simp
  have "sqrt ((real_of_int n - 1 / 2)\<^sup>2) < sqrt b"
    using assms(6) unfolding b_def [symmetric] by (simp only: real_sqrt_less_iff)
  then have 1: "real_of_int n - 1 / 2 < sqrt b" using n by simp
  have "sqrt b < sqrt ((real_of_int n + 1 / 2)\<^sup>2)"
    using assms(7) unfolding b_def [symmetric] by (simp only: real_sqrt_less_iff)
  then have 2: "sqrt b < real_of_int n + 1 / 2" using n by simp
  from 1 2 show "\<bar>sqrt a / twoPow (e - 52) - real_of_int n\<bar> < 1 / 2"
    unfolding b [symmetric] by linarith
qed

lemma toDouble_rel:
  assumes "inRange x"
  shows "\<exists>y. toDouble x = Num y \<and> \<bar>y - x\<bar> \<le> unitRoundoff * \<bar>x\<bar>"
proof (cases "x = 0")
  case True
  then show ?thesis by (simp add: toDouble_zero)
next
  case False
  define e where "e = exponentOf x"
  define ulp where "ulp = twoPow (e - 52)"
  define y where "y = real_of_int (roundHalfEven (x / ulp)) * ulp"
  have lo: "twoPow (- 1022) \<le> \<bar>x\<bar>" and hi: "\<bar>x\<bar> \<le> twoPow 1023"
    using assms False by (simp_all add: inRange_def)
  have e: "twoPow e \<le> \<bar>x\<bar>" unfolding e_def using lo exponentOf_lower by blast
  have p: "0 < ulp" unfolding ulp_def by (rule twoPow_pos)
  have "\<bar>y - x\<bar> = \<bar>real_of_int (roundHalfEven (x / ulp)) - x / ulp\<bar> * ulp"
    using p by (simp add: y_def abs_mult [symmetric] field_simps)
  also have "\<dots> \<le> 1 / 2 * ulp"
    using roundHalfEven_close [of "x / ulp"] p by (simp add: mult_right_mono)
  also have "1 / 2 * ulp = unitRoundoff * twoPow e"
  proof -
    have "twoPow e = twoPow (e - 52) * twoPow 52" using twoPow_add [of "e - 52" 52] by simp
    then show ?thesis by (simp add: ulp_def unitRoundoff_def twoPow_def)
  qed
  also have "\<dots> \<le> unitRoundoff * \<bar>x\<bar>" using e by (simp add: unitRoundoff_def)
  finally have err: "\<bar>y - x\<bar> \<le> unitRoundoff * \<bar>x\<bar>" .
  have "unitRoundoff * \<bar>x\<bar> \<le> unitRoundoff * twoPow 1023"
    using hi by (simp add: unitRoundoff_def)
  also have "\<dots> < twoPow 1023" using twoPow_pos [of 1023] by (simp add: unitRoundoff_def)
  finally have "\<bar>y\<bar> < twoPow 1023 + twoPow 1023" using err hi by linarith
  also have "\<dots> = twoPow 1024" by (simp add: twoPow_def)
  finally have "exponentOf y < 1024" by (rule exponentOf_less) simp
  then have "toDouble x = Num y"
    by (simp add: toDouble_def Let_def e_def [symmetric] ulp_def [symmetric] y_def)
  with err show ?thesis by blast
qed

lemma u_bounds: "0 < unitRoundoff" "unitRoundoff < 1"
  by (simp_all add: unitRoundoff_def)

lemma rel_refl: "relErr 0 a a"
  by (simp add: relErr_def)

lemma rel_round:
  assumes "inRange x" "0 \<le> x"
  shows "\<exists>y. toDouble x = Num y \<and> relErr 1 y x"
proof -
  from toDouble_rel [OF assms(1)] obtain y where
    y: "toDouble x = Num y" "\<bar>y - x\<bar> \<le> unitRoundoff * \<bar>x\<bar>" by blast
  have "\<bar>y - x\<bar> \<le> unitRoundoff * x" using y(2) assms(2) by simp
  then have "relErr 1 y x" by (simp add: relErr_def algebra_simps) linarith
  with y(1) show ?thesis by blast
qed

lemma rel_round_abs:
  assumes "inRange x"
  shows "\<exists>y. toDouble x = Num y \<and> relErr 1 \<bar>y\<bar> \<bar>x\<bar>"
proof -
  from toDouble_rel [OF assms(1)] obtain y where
    y: "toDouble x = Num y" "\<bar>y - x\<bar> \<le> unitRoundoff * \<bar>x\<bar>" by blast
  have "\<bar>\<bar>y\<bar> - \<bar>x\<bar>\<bar> \<le> unitRoundoff * \<bar>x\<bar>" using y(2) by linarith
  then have "relErr 1 \<bar>y\<bar> \<bar>x\<bar>" by (simp add: relErr_def algebra_simps) linarith
  with y(1) show ?thesis by blast
qed

lemma rel_trans:
  assumes "relErr j a b" "relErr k b c" "n = j + k"
  shows "relErr n a c"
proof -
  have l: "0 \<le> (1 - unitRoundoff) ^ j" and h: "0 \<le> (1 + unitRoundoff) ^ j"
    using u_bounds by simp_all
  have "(1 - unitRoundoff) ^ j * ((1 - unitRoundoff) ^ k * c) \<le> (1 - unitRoundoff) ^ j * b"
    using assms(2) l by (simp only: relErr_def mult_left_mono)
  moreover have "(1 + unitRoundoff) ^ j * b \<le> (1 + unitRoundoff) ^ j * ((1 + unitRoundoff) ^ k * c)"
    using assms(2) h by (simp only: relErr_def mult_left_mono)
  ultimately show ?thesis using assms(1,3) by (simp add: relErr_def power_add mult.assoc)
qed

lemma rel_add:
  assumes "relErr k a b" "relErr k a' b'"
  shows "relErr k (a + a') (b + b')"
  using assms by (simp add: relErr_def distrib_left)

lemma rel_mono:
  assumes "relErr j a b" "j \<le> k" "0 \<le> b"
  shows "relErr k a b"
proof -
  have "(1 - unitRoundoff) ^ k \<le> (1 - unitRoundoff) ^ j"
    using u_bounds assms(2) by (intro power_decreasing) simp_all
  then have "(1 - unitRoundoff) ^ k * b \<le> (1 - unitRoundoff) ^ j * b"
    using assms(3) by (rule mult_right_mono)
  moreover have "(1 + unitRoundoff) ^ j \<le> (1 + unitRoundoff) ^ k"
    using u_bounds assms(2) by (intro power_increasing) simp_all
  then have "(1 + unitRoundoff) ^ j * b \<le> (1 + unitRoundoff) ^ k * b"
    using assms(3) by (rule mult_right_mono)
  ultimately show ?thesis using assms(1) by (simp add: relErr_def)
qed

lemma rel_mult:
  assumes "relErr j a b" "relErr k a' b'" "0 \<le> b" "0 \<le> b'" "n = j + k"
  shows "relErr n (a * a') (b * b')"
proof -
  have l: "0 \<le> (1 - unitRoundoff) ^ j * b" "0 \<le> (1 - unitRoundoff) ^ k * b'"
    using u_bounds assms(3,4) by simp_all
  then have a: "0 \<le> a" "0 \<le> a'" using assms(1,2) by (simp_all add: relErr_def)
  have "((1 - unitRoundoff) ^ j * b) * ((1 - unitRoundoff) ^ k * b') \<le> a * a'"
    using assms(1,2) l a by (intro mult_mono) (simp_all add: relErr_def)
  moreover have "a * a' \<le> ((1 + unitRoundoff) ^ j * b) * ((1 + unitRoundoff) ^ k * b')"
    using assms(1,2) a by (intro mult_mono) (simp_all add: relErr_def)
  ultimately show ?thesis using assms(5) by (simp add: relErr_def power_add mult_ac)
qed

lemma sqrt_even_power:
  assumes "0 \<le> c"
  shows "sqrt (c ^ (2 * k) * b) = c ^ k * sqrt b"
proof -
  have "c ^ (2 * k) = (c ^ k)\<^sup>2" by (simp add: power_mult [symmetric] mult.commute)
  then have "sqrt (c ^ (2 * k) * b) = \<bar>c ^ k\<bar> * sqrt b" by (simp add: real_sqrt_mult)
  then show ?thesis using assms by simp
qed

lemma rel_sqrt:
  assumes "relErr n a b" "0 \<le> b" "n = 2 * k"
  shows "relErr k (sqrt a) (sqrt b)"
proof -
  note r = assms(1) [unfolded assms(3)]
  have l: "sqrt ((1 - unitRoundoff) ^ (2 * k) * b) = (1 - unitRoundoff) ^ k * sqrt b"
    using u_bounds by (intro sqrt_even_power) simp
  have h: "sqrt ((1 + unitRoundoff) ^ (2 * k) * b) = (1 + unitRoundoff) ^ k * sqrt b"
    using u_bounds by (intro sqrt_even_power) simp
  have "sqrt ((1 - unitRoundoff) ^ (2 * k) * b) \<le> sqrt a"
    using r by (simp only: relErr_def real_sqrt_le_iff)
  moreover have "sqrt a \<le> sqrt ((1 + unitRoundoff) ^ (2 * k) * b)"
    using r by (simp only: relErr_def real_sqrt_le_iff)
  ultimately show ?thesis unfolding l h by (simp add: relErr_def)
qed

lemma rel_nonneg: "relErr k a b \<Longrightarrow> 0 \<le> b \<Longrightarrow> 0 \<le> a"
proof -
  assume "relErr k a b" "0 \<le> b"
  then have "(1 - unitRoundoff) ^ k * b \<le> a" "0 \<le> (1 - unitRoundoff) ^ k * b"
    using u_bounds by (simp_all add: relErr_def)
  then show ?thesis by linarith
qed

lemma rel_zero: "relErr k a 0 \<Longrightarrow> a = 0"
  by (simp add: relErr_def)

lemma pow_bounds:
  assumes "k \<le> 8"
  shows "1 / 2 \<le> (1 - unitRoundoff) ^ k" "(1 + unitRoundoff) ^ k \<le> 2"
proof -
  have "(1 - unitRoundoff) ^ 8 \<le> (1 - unitRoundoff) ^ k"
    using u_bounds assms by (intro power_decreasing) simp_all
  moreover have "1 / 2 \<le> (1 - unitRoundoff) ^ 8" by (simp add: unitRoundoff_def power_divide)
  ultimately show "1 / 2 \<le> (1 - unitRoundoff) ^ k" by linarith
  have "(1 + unitRoundoff) ^ k \<le> (1 + unitRoundoff) ^ 8"
    using u_bounds assms by (intro power_increasing) simp_all
  moreover have "(1 + unitRoundoff) ^ 8 \<le> 2" by (simp add: unitRoundoff_def power_divide)
  ultimately show "(1 + unitRoundoff) ^ k \<le> 2" by linarith
qed

lemma rel_range:
  assumes "relErr k a b" "k \<le> 8" "b = 0 \<or> lo \<le> b" "b \<le> hi" "0 \<le> lo"
  shows "(a = 0 \<or> lo / 2 \<le> a) \<and> a \<le> 2 * hi \<and> 0 \<le> a"
proof (cases "b = 0")
  case True
  then have "a = 0" using assms(1) by (simp add: rel_zero)
  then show ?thesis using True assms(4) by simp
next
  case False
  then have b: "lo \<le> b" "0 \<le> b" using assms(3,5) by simp_all
  have "1 / 2 * b \<le> (1 - unitRoundoff) ^ k * b"
    using pow_bounds(1) [OF assms(2)] b(2) by (rule mult_right_mono)
  then have 1: "lo / 2 \<le> a" using assms(1) b(1) by (simp add: relErr_def)
  have "(1 + unitRoundoff) ^ k * b \<le> 2 * b"
    using pow_bounds(2) [OF assms(2)] b(2) by (rule mult_right_mono)
  then have 2: "a \<le> 2 * hi" using assms(1,4) by (simp add: relErr_def)
  from 1 2 assms(5) show ?thesis by simp
qed

subsection \<open>Ligand bonds\<close>

lemma dround_ops:
  "dsub (Num b) (Num a) = toDouble (b - a)"
  "dadd (Num a) (Num b) = toDouble (a + b)"
  "dmul (Num a) (Num b) = toDouble (a * b)"
  by (simp_all add: dsub_def dadd_def dmul_def jsub_def)

lemma dsqrt_Num: "0 \<le> a \<Longrightarrow> dsqrt (Num a) = toDouble (sqrt a)"
  by (simp add: dsqrt_def)

lemma dmul_commute: "dmul a b = dmul b a"
  by (cases a; cases b) (simp_all add: dmul_def mult.commute)

lemma inRange_I:
  assumes "x = 0 \<or> 1 / 2 ^ 1022 \<le> x" "x \<le> 2 ^ 1023" "0 \<le> x"
  shows "inRange x"
  using assms by (simp add: inRange_def twoPow_def)

lemma square_range:
  assumes "differenceInRange t"
  shows "(t * t = 0 \<or> 1 / 2 ^ 1000 \<le> t * t) \<and> t * t \<le> 2 ^ 1000 \<and> 0 \<le> t * t"
proof (cases "t = 0")
  case True
  then show ?thesis by simp
next
  case False
  then have t: "1 / 2 ^ 500 \<le> \<bar>t\<bar>" "\<bar>t\<bar> \<le> 2 ^ 500"
    using assms by (simp_all add: differenceInRange_def)
  have "(1 / 2 ^ 500) * (1 / 2 ^ 500) \<le> \<bar>t\<bar> * \<bar>t\<bar>"
    using t(1) by (intro mult_mono) simp_all
  then have 1: "1 / 2 ^ 1000 \<le> t * t" by (simp add: power_add [symmetric])
  have "\<bar>t\<bar> * \<bar>t\<bar> \<le> 2 ^ 500 * 2 ^ 500"
    using t(2) by (intro mult_mono) simp_all
  then have 2: "t * t \<le> 2 ^ 1000" by (simp add: power_add [symmetric])
  from 1 2 show ?thesis by simp
qed

lemma square_rel:
  assumes "differenceInRange t"
  shows "\<exists>p. dmul (toDouble t) (toDouble t) = Num p \<and> relErr 3 p (t * t)"
proof -
  have "inRange t"
  proof (cases "t = 0")
    case True
    then show ?thesis by (simp add: inRange_def twoPow_def)
  next
    case False
    then have "1 / 2 ^ 500 \<le> \<bar>t\<bar>" "\<bar>t\<bar> \<le> 2 ^ 500"
      using assms by (simp_all add: differenceInRange_def)
    moreover have "(1::real) / 2 ^ 1022 \<le> 1 / 2 ^ 500" "(2::real) ^ 500 \<le> 2 ^ 1023" by simp_all
    ultimately have "1 / 2 ^ 1022 \<le> \<bar>t\<bar>" "\<bar>t\<bar> \<le> 2 ^ 1023" by linarith+
    then show ?thesis by (simp add: inRange_def twoPow_def)
  qed
  from rel_round_abs [OF this] obtain dx where
    dx: "toDouble t = Num dx" "relErr 1 \<bar>dx\<bar> \<bar>t\<bar>" by blast
  have "relErr 2 (\<bar>dx\<bar> * \<bar>dx\<bar>) (\<bar>t\<bar> * \<bar>t\<bar>)"
    using dx(2) dx(2) by (rule rel_mult) simp_all
  then have r2: "relErr 2 (dx * dx) (t * t)" by simp
  have sr: "t * t = 0 \<or> 1 / 2 ^ 1000 \<le> t * t" "t * t \<le> 2 ^ 1000"
    using square_range [OF assms] by simp_all
  have "(dx * dx = 0 \<or> (1 / 2 ^ 1000) / 2 \<le> dx * dx) \<and> dx * dx \<le> 2 * 2 ^ 1000 \<and> 0 \<le> dx * dx"
    by (rule rel_range [OF r2 _ sr]) simp_all
  moreover have "(1::real) / 2 ^ 1022 \<le> (1 / 2 ^ 1000) / 2" "(2::real) * 2 ^ 1000 \<le> 2 ^ 1023"
    by simp_all
  ultimately have "dx * dx = 0 \<or> 1 / 2 ^ 1022 \<le> dx * dx" "dx * dx \<le> 2 ^ 1023" "0 \<le> dx * dx"
    by linarith+
  then have ir: "inRange (dx * dx)" and nn: "0 \<le> dx * dx" by (simp_all add: inRange_I)
  from rel_round [OF ir nn] obtain p where
    p: "toDouble (dx * dx) = Num p" "relErr 1 p (dx * dx)" by blast
  have "relErr 3 p (t * t)" using p(2) r2 by (rule rel_trans) simp
  moreover have "dmul (toDouble t) (toDouble t) = Num p" by (simp add: dx(1) dround_ops p(1))
  ultimately show ?thesis by blast
qed

lemma atomDistance_rel:
  assumes "a_x a1 = Num x1" "a_y a1 = Num y1" "a_z a1 = Num z1"
    and "a_x a2 = Num x2" "a_y a2 = Num y2" "a_z a2 = Num z2"
    and "differenceInRange (x2 - x1)" "differenceInRange (y2 - y1)" "differenceInRange (z2 - z1)"
  shows "\<exists>d. atomDistance a1 a2 = Num d
             \<and> relErr 4 d (sqrt ((x2 - x1)\<^sup>2 + (y2 - y1)\<^sup>2 + (z2 - z1)\<^sup>2))"
proof -
  define tx where "tx = x2 - x1"
  define ty where "ty = y2 - y1"
  define tz where "tz = z2 - z1"
  have dr: "differenceInRange tx" "differenceInRange ty" "differenceInRange tz"
    using assms(7-9) by (simp_all add: tx_def ty_def tz_def)
  from square_rel [OF dr(1)] obtain px where
    px: "dmul (toDouble tx) (toDouble tx) = Num px" "relErr 3 px (tx * tx)" by blast
  from square_rel [OF dr(2)] obtain py where
    py: "dmul (toDouble ty) (toDouble ty) = Num py" "relErr 3 py (ty * ty)" by blast
  from square_rel [OF dr(3)] obtain pz where
    pz: "dmul (toDouble tz) (toDouble tz) = Num pz" "relErr 3 pz (tz * tz)" by blast
  note rx = square_range [OF dr(1)] and ry = square_range [OF dr(2)]
    and rz = square_range [OF dr(3)]
  define S2 where "S2 = tx * tx + ty * ty"
  define S where "S = S2 + tz * tz"
  have S2r: "S2 = 0 \<or> 1 / 2 ^ 1000 \<le> S2" "S2 \<le> 2 * 2 ^ 1000" "0 \<le> S2"
    using rx ry unfolding S2_def by linarith+
  have Sr: "S = 0 \<or> 1 / 2 ^ 1000 \<le> S" "S \<le> 3 * 2 ^ 1000" "0 \<le> S"
    using S2r rz unfolding S_def by linarith+
  have r3: "relErr 3 (px + py) S2" unfolding S2_def using px(2) py(2) by (rule rel_add)
  have "(px + py = 0 \<or> (1 / 2 ^ 1000) / 2 \<le> px + py) \<and> px + py \<le> 2 * (2 * 2 ^ 1000)
        \<and> 0 \<le> px + py"
    by (rule rel_range [OF r3 _ S2r(1,2)]) simp_all
  moreover have "(1::real) / 2 ^ 1022 \<le> (1 / 2 ^ 1000) / 2" "(2::real) * (2 * 2 ^ 1000) \<le> 2 ^ 1023"
    by simp_all
  ultimately have "px + py = 0 \<or> 1 / 2 ^ 1022 \<le> px + py" "px + py \<le> 2 ^ 1023" "0 \<le> px + py"
    by linarith+
  then have "inRange (px + py)" "0 \<le> px + py" by (simp_all add: inRange_I)
  from rel_round [OF this] obtain s1 where
    s1: "toDouble (px + py) = Num s1" "relErr 1 s1 (px + py)" by blast
  have s1r: "relErr 4 s1 S2" using s1(2) r3 by (rule rel_trans) simp
  have "0 \<le> tz * tz" by simp
  then have "relErr 4 pz (tz * tz)" by (intro rel_mono [OF pz(2)]) simp_all
  with s1r have r4: "relErr 4 (s1 + pz) S" unfolding S_def by (rule rel_add)
  have "(s1 + pz = 0 \<or> (1 / 2 ^ 1000) / 2 \<le> s1 + pz) \<and> s1 + pz \<le> 2 * (3 * 2 ^ 1000)
        \<and> 0 \<le> s1 + pz"
    by (rule rel_range [OF r4 _ Sr(1,2)]) simp_all
  moreover have "(2::real) * (3 * 2 ^ 1000) \<le> 2 ^ 1023" by simp
  moreover have "(1::real) / 2 ^ 1022 \<le> (1 / 2 ^ 1000) / 2" by simp
  ultimately have "s1 + pz = 0 \<or> 1 / 2 ^ 1022 \<le> s1 + pz" "s1 + pz \<le> 2 ^ 1023" "0 \<le> s1 + pz"
    by linarith+
  then have "inRange (s1 + pz)" "0 \<le> s1 + pz" by (simp_all add: inRange_I)
  from rel_round [OF this] obtain s where
    s: "toDouble (s1 + pz) = Num s" "relErr 1 s (s1 + pz)" by blast
  have r5: "relErr 5 s S" using s(2) r4 by (rule rel_trans) simp
  then have "relErr 6 s S" by (rule rel_mono) (use Sr(3) in simp_all)
  then have rs: "relErr 3 (sqrt s) (sqrt S)" using Sr(3) by (rule rel_sqrt) simp
  have sn: "0 \<le> s" using r5 Sr(3) by (rule rel_nonneg)
  have q1: "sqrt S = 0 \<or> 1 / 2 ^ 500 \<le> sqrt S"
  proof (cases "S = 0")
    case True
    then show ?thesis by simp
  next
    case False
    then have "(1 / 2 ^ 500)\<^sup>2 \<le> S" using Sr(1) by (simp add: power_divide)
    then have "1 / 2 ^ 500 \<le> sqrt S" by (rule real_le_rsqrt)
    then show ?thesis by simp
  qed
  have "S \<le> (2 * 2 ^ 500)\<^sup>2" using Sr(2) by (simp add: power_mult_distrib)
  then have q2: "sqrt S \<le> 2 * 2 ^ 500" by (intro real_le_lsqrt) simp_all
  have "(sqrt s = 0 \<or> (1 / 2 ^ 500) / 2 \<le> sqrt s) \<and> sqrt s \<le> 2 * (2 * 2 ^ 500)
        \<and> 0 \<le> sqrt s"
    by (rule rel_range [OF rs _ q1 q2]) simp_all
  moreover have "(1::real) / 2 ^ 1022 \<le> (1 / 2 ^ 500) / 2" "(2::real) * (2 * 2 ^ 500) \<le> 2 ^ 1023"
    by simp_all
  ultimately have "sqrt s = 0 \<or> 1 / 2 ^ 1022 \<le> sqrt s" "sqrt s \<le> 2 ^ 1023" "0 \<le> sqrt s"
    by linarith+
  then have "inRange (sqrt s)" "0 \<le> sqrt s" by (simp_all add: inRange_I)
  from rel_round [OF this] obtain d where
    d: "toDouble (sqrt s) = Num d" "relErr 1 d (sqrt s)" by blast
  have "relErr 4 d (sqrt S)" using d(2) rs by (rule rel_trans) simp
  moreover have "S = (x2 - x1)\<^sup>2 + (y2 - y1)\<^sup>2 + (z2 - z1)\<^sup>2"
    by (simp add: S_def S2_def tx_def ty_def tz_def power2_eq_square)
  moreover have "atomDistance a1 a2 = Num d"
    using px(1) py(1) pz(1)
    by (simp add: atomDistance_def Let_def assms(1-6) dround_ops(1) tx_def [symmetric]
                  ty_def [symmetric] tz_def [symmetric] dround_ops(2) s1(1) s(1)
                  dsqrt_Num [OF sn] d(1))
  ultimately show ?thesis by simp
qed

lemma spec_radius_range: "1 / 4 \<le> spec_radius e \<and> spec_radius e \<le> 2"
proof (cases "map_of covalentRadii (toUpperCase e)")
  case None
  then show ?thesis by (simp add: spec_radius_def)
next
  case (Some r)
  then have "(toUpperCase e, r) \<in> set covalentRadii" by (rule map_of_SomeD)
  then have "r \<in> snd ` set covalentRadii" by force
  moreover have "\<forall>r \<in> snd ` set covalentRadii. 1 / 4 \<le> r \<and> r \<le> 2"
    by (simp add: covalentRadii_def)
  ultimately have "1 / 4 \<le> r \<and> r \<le> 2" by blast
  then show ?thesis using Some by (simp add: spec_radius_def)
qed

lemma rel_pos:
  assumes "relErr k a b" "0 < b"
  shows "0 < a"
proof -
  have "0 < (1 - unitRoundoff) ^ k" using u_bounds by simp
  then have "0 < (1 - unitRoundoff) ^ k * b" using assms(2) by simp
  then show ?thesis using assms(1) by (simp add: relErr_def)
qed

lemma radius_round:
  assumes "1 / 4 \<le> r" "r \<le> 4"
  shows "\<exists>q. toDouble r = Num q \<and> relErr 1 q r \<and> 0 < q"
proof -
  have "(1::real) / 2 ^ 1022 \<le> 1 / 4" "(4::real) \<le> 2 ^ 1023" by simp_all
  then have "r = 0 \<or> 1 / 2 ^ 1022 \<le> r" "r \<le> 2 ^ 1023" "0 \<le> r" using assms by linarith+
  then have "inRange r" "0 \<le> r" by (simp_all add: inRange_I)
  from rel_round [OF this] obtain q where q: "toDouble r = Num q" "relErr 1 q r" by blast
  have "0 < q" using q(2) by (rule rel_pos) (use assms in simp)
  with q show ?thesis by blast
qed

lemma radiusOf_toDouble: "radiusOf e = toDouble (spec_radius e)"
proof (cases "map_of covalentRadii (toUpperCase e)")
  case None
  then show ?thesis by (simp add: radiusOf_def spec_radius_def)
next
  case (Some r)
  then have r: "spec_radius e = r" by (simp add: spec_radius_def)
  have "1 / 4 \<le> r" "r \<le> 4" using spec_radius_range [of e] unfolding r by simp_all
  from radius_round [OF this] obtain q where "toDouble r = Num q" "0 < q" by blast
  then show ?thesis using Some by (simp add: radiusOf_def r jor_def)
qed

lemma maxDist_rel:
  "\<exists>m. dmul (dadd (radiusOf e1) (radiusOf e2)) (toDouble 1.3) = Num m
       \<and> relErr 4 m ((spec_radius e1 + spec_radius e2) * 1.3)"
proof -
  define r1 where "r1 = spec_radius e1"
  define r2 where "r2 = spec_radius e2"
  have b: "1 / 4 \<le> r1" "r1 \<le> 2" "1 / 4 \<le> r2" "r2 \<le> 2"
    using spec_radius_range [of e1] spec_radius_range [of e2] by (simp_all add: r1_def r2_def)
  then have "1 / 4 \<le> r1" "r1 \<le> 4" "1 / 4 \<le> r2" "r2 \<le> 4" by simp_all
  from radius_round [OF this(1,2)] radius_round [OF this(3,4)] obtain q1 q2 where
    q: "toDouble r1 = Num q1" "relErr 1 q1 r1" "toDouble r2 = Num q2" "relErr 1 q2 r2"
    by blast
  have ra: "relErr 1 (q1 + q2) (r1 + r2)" using q(2,4) by (rule rel_add)
  have "0 < q1 + q2" using ra by (rule rel_pos) (use b in simp)
  have "(q1 + q2 = 0 \<or> (1 / 2) / 2 \<le> q1 + q2) \<and> q1 + q2 \<le> 2 * 4 \<and> 0 \<le> q1 + q2"
    by (rule rel_range [OF ra]) (use b in simp_all)
  then have "1 / 4 \<le> q1 + q2" "q1 + q2 \<le> 8" using \<open>0 < q1 + q2\<close> by simp_all
  moreover have "(1::real) / 2 ^ 1022 \<le> 1 / 4" "(8::real) \<le> 2 ^ 1023" by simp_all
  ultimately have "q1 + q2 = 0 \<or> 1 / 2 ^ 1022 \<le> q1 + q2" "q1 + q2 \<le> 2 ^ 1023" "0 \<le> q1 + q2"
    by linarith+
  then have "inRange (q1 + q2)" "0 \<le> q1 + q2" by (simp_all add: inRange_I)
  from rel_round [OF this] obtain sm where
    sm: "toDouble (q1 + q2) = Num sm" "relErr 1 sm (q1 + q2)" by blast
  have sr: "relErr 2 sm (r1 + r2)" using sm(2) ra by (rule rel_trans) simp
  have "(1::real) / 4 \<le> 13 / 10" "(13::real) / 10 \<le> 4" by simp_all
  from radius_round [OF this] obtain t where
    t: "toDouble (13 / 10) = Num t" "relErr 1 t (13 / 10)" by blast
  have pr: "relErr 3 (sm * t) ((r1 + r2) * (13 / 10))"
    using sr t(2) by (rule rel_mult) (use b in simp_all)
  have pb: "1 / 2 \<le> (r1 + r2) * (13 / 10)" "(r1 + r2) * (13 / 10) \<le> 6" using b by simp_all
  have "(sm * t = 0 \<or> (1 / 2) / 2 \<le> sm * t) \<and> sm * t \<le> 2 * 6 \<and> 0 \<le> sm * t"
    by (rule rel_range [OF pr]) (use pb in simp_all)
  moreover have "(1::real) / 2 ^ 1022 \<le> (1 / 2) / 2" "(2::real) * 6 \<le> 2 ^ 1023" by simp_all
  ultimately have "sm * t = 0 \<or> 1 / 2 ^ 1022 \<le> sm * t" "sm * t \<le> 2 ^ 1023" "0 \<le> sm * t"
    by linarith+
  then have "inRange (sm * t)" "0 \<le> sm * t" by (simp_all add: inRange_I)
  from rel_round [OF this] obtain m where
    m: "toDouble (sm * t) = Num m" "relErr 1 m (sm * t)" by blast
  have "relErr 4 m ((r1 + r2) * (13 / 10))" using m(2) pr by (rule rel_trans) simp
  then have "relErr 4 m ((spec_radius e1 + spec_radius e2) * 1.3)"
    by (simp add: r1_def r2_def)
  moreover have "dmul (dadd (radiusOf e1) (radiusOf e2)) (toDouble 1.3) = Num m"
    using q(1,3) sm(1) t(1) m(1)
    by (simp add: radiusOf_toDouble r1_def [symmetric] r2_def [symmetric] dround_ops)
  ultimately show ?thesis by blast
qed

lemma minDist_rel: "\<exists>c. toDouble 0.4 = Num c \<and> relErr 1 c (2 / 5)"
proof -
  have "(1::real) / 4 \<le> 2 / 5" "(2::real) / 5 \<le> 4" by simp_all
  from radius_round [OF this] show ?thesis by auto
qed

lemma roundoff_margins:
  "1 + unitRoundoff < (1 - unitRoundoff) ^ 4 * (1 + 1 / 2 ^ 49)"
  "(1 + unitRoundoff) ^ 4 * (1 - 1 / 2 ^ 49) < (1 - unitRoundoff) ^ 4"
  "(1 + unitRoundoff) ^ 4 * (1 - 1 / 2 ^ 49) \<le> 1 - unitRoundoff"
  "(1 + unitRoundoff) ^ 4 \<le> (1 - unitRoundoff) ^ 4 * (1 + 1 / 2 ^ 49)"
  by (simp_all add: unitRoundoff_def power_divide)

lemma bond_sandwich_in:
  assumes "relErr 4 d' d" "relErr 4 m M" "relErr 1 c (2 / 5)" "0 < M"
    and "2 / 5 * (1 + 1 / 2 ^ 49) \<le> d" "d \<le> M * (1 - 1 / 2 ^ 49)"
  shows "c < d' \<and> d' < m"
proof -
  define A where "A = (1 - unitRoundoff) ^ 4"
  define B where "B = (1 + unitRoundoff) ^ 4"
  have A: "0 < A" and B: "0 < B" using u_bounds by (simp_all add: A_def B_def)
  have f: "A * d \<le> d'" "d' \<le> B * d" "A * M \<le> m" "m \<le> B * M"
    "c \<le> (1 + unitRoundoff) * (2 / 5)"
    using assms(1-3) by (simp_all add: relErr_def A_def B_def)
  have "(1 + unitRoundoff) * (2 / 5) < (A * (1 + 1 / 2 ^ 49)) * (2 / 5)"
    using roundoff_margins(1) unfolding A_def by (rule mult_strict_right_mono) simp
  also have "\<dots> = A * (2 / 5 * (1 + 1 / 2 ^ 49))" by simp
  also have "\<dots> \<le> A * d" using assms(5) A by (simp only: mult_le_cancel_left_pos)
  finally have 1: "c < d'" using f(1,5) by linarith
  have "B * d \<le> B * (M * (1 - 1 / 2 ^ 49))" using assms(6) B by (simp only: mult_le_cancel_left_pos)
  also have "\<dots> = (B * (1 - 1 / 2 ^ 49)) * M" by simp
  also have "\<dots> < A * M"
    using roundoff_margins(2) assms(4) unfolding A_def B_def by (rule mult_strict_right_mono)
  finally have 2: "d' < m" using f(2,3) by linarith
  from 1 2 show ?thesis by simp
qed

lemma bond_sandwich_out:
  assumes "relErr 4 d' d" "relErr 4 m M" "relErr 1 c (2 / 5)" "0 < M"
    and "c < d'" "d' < m"
  shows "2 / 5 * (1 - 1 / 2 ^ 49) < d \<and> d < M * (1 + 1 / 2 ^ 49)"
proof -
  define A where "A = (1 - unitRoundoff) ^ 4"
  define B where "B = (1 + unitRoundoff) ^ 4"
  have A: "0 < A" and B: "0 < B" using u_bounds by (simp_all add: A_def B_def)
  have f: "A * d \<le> d'" "d' \<le> B * d" "A * M \<le> m" "m \<le> B * M"
    "(1 - unitRoundoff) * (2 / 5) \<le> c"
    using assms(1-3) by (simp_all add: relErr_def A_def B_def)
  have "(B * (1 - 1 / 2 ^ 49)) * (2 / 5) \<le> (1 - unitRoundoff) * (2 / 5)"
    using roundoff_margins(3) unfolding B_def by (rule mult_right_mono) simp
  then have "B * (2 / 5 * (1 - 1 / 2 ^ 49)) < B * d" using f(2,5) assms(5) by (simp add: mult_ac)
  then have 1: "2 / 5 * (1 - 1 / 2 ^ 49) < d" using B by (simp only: mult_less_cancel_left_pos)
  have "B * M \<le> (A * (1 + 1 / 2 ^ 49)) * M"
    using roundoff_margins(4) unfolding A_def B_def by (rule mult_right_mono) (use assms(4) in simp)
  then have "A * d < A * (M * (1 + 1 / 2 ^ 49))" using f(1,4) assms(6) by (simp add: mult_ac)
  then have 2: "d < M * (1 + 1 / 2 ^ 49)" using A by (simp only: mult_less_cancel_left_pos)
  from 1 2 show ?thesis by simp
qed

lemma bondOf_atoms: "b \<in> set (bondOf atoms i j) \<Longrightarrow> b_atom1 b = i \<and> b_atom2 b = j"
  by (auto simp add: bondOf_def Let_def split: if_splits)

lemma calculateLigandBonds_set:
  "set (calculateLigandBonds atoms)
   = (\<Union>i \<in> {0..<length atoms}. \<Union>j \<in> {i + 1..<length atoms}. set (bondOf atoms i j))"
  by (simp add: calculateLigandBonds_def)

lemma calculateLigandBonds_pair:
  assumes "i < j" "j < length atoms"
  shows "(\<exists>b \<in> set (calculateLigandBonds atoms). b_atom1 b = i \<and> b_atom2 b = j)
         \<longleftrightarrow> bondOf atoms i j \<noteq> []"
proof
  assume "\<exists>b \<in> set (calculateLigandBonds atoms). b_atom1 b = i \<and> b_atom2 b = j"
  then obtain b where b: "b \<in> set (calculateLigandBonds atoms)" "b_atom1 b = i" "b_atom2 b = j"
    by blast
  from b(1) obtain i' j' where m: "b \<in> set (bondOf atoms i' j')"
    unfolding calculateLigandBonds_set by blast
  from bondOf_atoms [OF m] b(2,3) have "i' = i" "j' = j" by simp_all
  with m show "bondOf atoms i j \<noteq> []" by (cases "bondOf atoms i j") simp_all
next
  assume "bondOf atoms i j \<noteq> []"
  then have b: "hd (bondOf atoms i j) \<in> set (bondOf atoms i j)" by (rule hd_in_set)
  have "i \<in> {0..<length atoms}" "j \<in> {i + 1..<length atoms}"
    using assms by simp_all
  with b have "hd (bondOf atoms i j) \<in> set (calculateLigandBonds atoms)"
    unfolding calculateLigandBonds_set by blast
  then show "\<exists>b \<in> set (calculateLigandBonds atoms). b_atom1 b = i \<and> b_atom2 b = j"
    using bondOf_atoms [OF b] by blast
qed

lemma bondOf_nonempty:
  "bondOf atoms i j \<noteq> [] \<longleftrightarrow>
     jlt (toDouble 0.4) (atomDistance (atoms ! i) (atoms ! j))
     \<and> jlt (atomDistance (atoms ! i) (atoms ! j))
            (dmul (toDouble 1.3)
                  (dadd (toDouble (spec_radius (a_element (atoms ! i))))
                        (toDouble (spec_radius (a_element (atoms ! j))))))"
  by (simp add: bondOf_def Let_def radiusOf_toDouble conj_commute
                dmul_commute [of "toDouble 1.3"])

text \<open>
  C8. For two atoms \<open>i < j\<close> of a ligand, \<open>calculateLigandBonds\<close> emits a bond between them
  exactly when \<open>0.4 < d\<close> and \<open>d < 1.3 (r\<^sub>i + r\<^sub>j)\<close> hold for the doubles that the code
  computes: the distance \<open>d\<close> with every subtraction, product, sum and the square root
  rounded, the radii looked up by upper-cased element symbol with 0.76 for an element the
  table lacks, their sum and its product with 1.3 rounded. For finite coordinates whose
  differences are zero or between \<open>2\<^sup>-\<^sup>5\<^sup>0\<^sup>0\<close> and \<open>2\<^sup>5\<^sup>0\<^sup>0\<close> in magnitude this agrees with
  the comparison of the exact Euclidean distance \<open>d\<close> away from the two thresholds: a bond is
  emitted if \<open>0.4 (1 + 2\<^sup>-\<^sup>4\<^sup>9) \<le> d \<le> 1.3 (r\<^sub>i + r\<^sub>j) (1 - 2\<^sup>-\<^sup>4\<^sup>9)\<close>, and only if
  \<open>0.4 (1 - 2\<^sup>-\<^sup>4\<^sup>9) < d < 1.3 (r\<^sub>i + r\<^sub>j) (1 + 2\<^sup>-\<^sup>4\<^sup>9)\<close>.
\<close>

theorem calculateLigandBonds_iff:
  assumes "i < j" "j < length atoms"
  shows "((\<exists>b \<in> set (calculateLigandBonds atoms). b_atom1 b = i \<and> b_atom2 b = j)
          \<longleftrightarrow> jlt (toDouble 0.4) (atomDistance (atoms ! i) (atoms ! j))
               \<and> jlt (atomDistance (atoms ! i) (atoms ! j))
                      (dmul (toDouble 1.3)
                            (dadd (toDouble (spec_radius (a_element (atoms ! i))))
                                  (toDouble (spec_radius (a_element (atoms ! j)))))))
       \<and> (a_x (atoms ! i) = Num x1 \<and> a_y (atoms ! i) = Num y1 \<and> a_z (atoms ! i) = Num z1
          \<and> a_x (atoms ! j) = Num x2 \<and> a_y (atoms ! j) = Num y2 \<and> a_z (atoms ! j) = Num z2
          \<and> differenceInRange (x2 - x1) \<and> differenceInRange (y2 - y1)
          \<and> differenceInRange (z2 - z1)
          \<longrightarrow> (0.4 * (1 + 1 / 2 ^ 49) \<le> sqrt ((x2 - x1)\<^sup>2 + (y2 - y1)\<^sup>2 + (z2 - z1)\<^sup>2)
                \<and> sqrt ((x2 - x1)\<^sup>2 + (y2 - y1)\<^sup>2 + (z2 - z1)\<^sup>2)
                    \<le> 1.3 * (spec_radius (a_element (atoms ! i))
                              + spec_radius (a_element (atoms ! j))) * (1 - 1 / 2 ^ 49)
                \<longrightarrow> (\<exists>b \<in> set (calculateLigandBonds atoms). b_atom1 b = i \<and> b_atom2 b = j))
             \<and> ((\<exists>b \<in> set (calculateLigandBonds atoms). b_atom1 b = i \<and> b_atom2 b = j)
                \<longrightarrow> 0.4 * (1 - 1 / 2 ^ 49) < sqrt ((x2 - x1)\<^sup>2 + (y2 - y1)\<^sup>2 + (z2 - z1)\<^sup>2)
                    \<and> sqrt ((x2 - x1)\<^sup>2 + (y2 - y1)\<^sup>2 + (z2 - z1)\<^sup>2)
                        < 1.3 * (spec_radius (a_element (atoms ! i))
                                 + spec_radius (a_element (atoms ! j))) * (1 + 1 / 2 ^ 49)))"
proof -
  have iff: "(\<exists>b \<in> set (calculateLigandBonds atoms). b_atom1 b = i \<and> b_atom2 b = j)
          \<longleftrightarrow> jlt (toDouble 0.4) (atomDistance (atoms ! i) (atoms ! j))
               \<and> jlt (atomDistance (atoms ! i) (atoms ! j))
                      (dmul (toDouble 1.3)
                            (dadd (toDouble (spec_radius (a_element (atoms ! i))))
                                  (toDouble (spec_radius (a_element (atoms ! j))))))"
    unfolding calculateLigandBonds_pair [OF assms] by (rule bondOf_nonempty)
  define D where "D = sqrt ((x2 - x1)\<^sup>2 + (y2 - y1)\<^sup>2 + (z2 - z1)\<^sup>2)"
  define M where "M = (spec_radius (a_element (atoms ! i)) + spec_radius (a_element (atoms ! j))) * 1.3"
  have Mpos: "0 < M"
    using spec_radius_range [of "a_element (atoms ! i)"] spec_radius_range [of "a_element (atoms ! j)"]
    by (simp add: M_def)
  have M': "1.3 * (spec_radius (a_element (atoms ! i)) + spec_radius (a_element (atoms ! j))) = M"
    by (simp add: M_def)
  from minDist_rel obtain c where c: "toDouble 0.4 = Num c" "relErr 1 c (2 / 5)" by blast
  from maxDist_rel [of "a_element (atoms ! i)" "a_element (atoms ! j)"] obtain m where
    m: "dmul (dadd (radiusOf (a_element (atoms ! i))) (radiusOf (a_element (atoms ! j))))
             (toDouble 1.3) = Num m" "relErr 4 m M"
    unfolding M_def by blast
  have m': "dmul (toDouble 1.3)
                 (dadd (toDouble (spec_radius (a_element (atoms ! i))))
                       (toDouble (spec_radius (a_element (atoms ! j))))) = Num m"
    using m(1) by (simp add: radiusOf_toDouble dmul_commute [of "toDouble 1.3"])
  have sandwich:
    "(0.4 * (1 + 1 / 2 ^ 49) \<le> D \<and> D \<le> M * (1 - 1 / 2 ^ 49)
         \<longrightarrow> (\<exists>b \<in> set (calculateLigandBonds atoms). b_atom1 b = i \<and> b_atom2 b = j))
       \<and> ((\<exists>b \<in> set (calculateLigandBonds atoms). b_atom1 b = i \<and> b_atom2 b = j)
         \<longrightarrow> 0.4 * (1 - 1 / 2 ^ 49) < D \<and> D < M * (1 + 1 / 2 ^ 49))"
    if h: "a_x (atoms ! i) = Num x1 \<and> a_y (atoms ! i) = Num y1 \<and> a_z (atoms ! i) = Num z1
          \<and> a_x (atoms ! j) = Num x2 \<and> a_y (atoms ! j) = Num y2 \<and> a_z (atoms ! j) = Num z2
          \<and> differenceInRange (x2 - x1) \<and> differenceInRange (y2 - y1)
          \<and> differenceInRange (z2 - z1)"
  proof -
    from h have "\<exists>d. atomDistance (atoms ! i) (atoms ! j) = Num d \<and> relErr 4 d D"
      unfolding D_def by (intro atomDistance_rel) simp_all
    then obtain d where d: "atomDistance (atoms ! i) (atoms ! j) = Num d" "relErr 4 d D"
      by blast
    have b: "(\<exists>b \<in> set (calculateLigandBonds atoms). b_atom1 b = i \<and> b_atom2 b = j)
             \<longleftrightarrow> c < d \<and> d < m"
      unfolding iff d(1) c(1) m' by simp
    have 1: "\<exists>b \<in> set (calculateLigandBonds atoms). b_atom1 b = i \<and> b_atom2 b = j"
      if "0.4 * (1 + 1 / 2 ^ 49) \<le> D \<and> D \<le> M * (1 - 1 / 2 ^ 49)"
    proof -
      from that have "2 / 5 * (1 + 1 / 2 ^ 49) \<le> D" "D \<le> M * (1 - 1 / 2 ^ 49)" by simp_all
      with d(2) m(2) c(2) Mpos have "c < d \<and> d < m" by (rule bond_sandwich_in)
      with b show ?thesis by simp
    qed
    have 2: "0.4 * (1 - 1 / 2 ^ 49) < D \<and> D < M * (1 + 1 / 2 ^ 49)"
      if "\<exists>b \<in> set (calculateLigandBonds atoms). b_atom1 b = i \<and> b_atom2 b = j"
    proof -
      from that b have "c < d" "d < m" by simp_all
      with d(2) m(2) c(2) Mpos have "2 / 5 * (1 - 1 / 2 ^ 49) < D \<and> D < M * (1 + 1 / 2 ^ 49)"
        by (rule bond_sandwich_out)
      then show ?thesis by simp
    qed
    from 1 2 show ?thesis by blast
  qed
  from iff sandwich show ?thesis unfolding D_def [symmetric] M' by blast
qed

lemma spec_radius_examples:
  "spec_radius ''C'' = 0.76 \<and> spec_radius ''o'' = 0.66
   \<and> spec_radius ''H'' = 0.31 \<and> spec_radius ''S'' = 1.05"
  by code_simp

text \<open>
  A carbon at the origin and an oxygen at distance 1 are bonded: 1 lies between the
  thresholds 0.4 and 1.3 (0.76 + 0.66) = 1.846, away from both.
\<close>

theorem calculateLigandBonds_iff_witness:
  "(0::nat) < 1 \<and> 1 < length bondedPair
   \<and> differenceInRange (0 - 0) \<and> differenceInRange (1 - 0)
   \<and> 0.4 * (1 + 1 / 2 ^ 49) \<le> sqrt ((0 - 0)\<^sup>2 + (0 - 0)\<^sup>2 + (1 - 0)\<^sup>2)
   \<and> sqrt ((0 - 0)\<^sup>2 + (0 - 0)\<^sup>2 + (1 - 0)\<^sup>2)
       \<le> 1.3 * (spec_radius ''C'' + spec_radius ''o'') * (1 - 1 / 2 ^ 49)
   \<and> (\<exists>b \<in> set (calculateLigandBonds bondedPair). b_atom1 b = 0 \<and> b_atom2 b = 1)
   \<and> jlt (toDouble 0.4) (atomDistance (bondedPair ! 0) (bondedPair ! 1))"
  using calculateLigandBonds_iff [of 0 1 bondedPair 0 0 0 0 0 1]
  by (auto simp add: bondedPair_def spec_radius_examples differenceInRange_def)

text \<open>
  At a threshold the exact comparison and the code differ. The records \<open>hydrogenLine\<close> and
  \<open>sulfurLine\<close> put a hydrogen at the origin and a sulfur at \<open>z = 1.768\<close>; the parsed
  coordinate is the double \<open>7962364141191037 / 2\<^sup>5\<^sup>2\<close>, which is not below
  1.3 (0.31 + 1.05) = 1.768, while the code compares it with the next double above,
  \<open>7962364141191038 / 2\<^sup>5\<^sup>2\<close>, the rounded product of the rounded sum of the radii and
  1.3.
\<close>

lemma threshold_strings:
  "decimalValue (trim (substring hydrogenLine 30 38)) = Num 0
   \<and> decimalValue (trim (substring hydrogenLine 38 46)) = Num 0
   \<and> decimalValue (trim (substring hydrogenLine 46 54)) = Num 0
   \<and> decimalValue (trim (substring sulfurLine 30 38)) = Num 0
   \<and> decimalValue (trim (substring sulfurLine 38 46)) = Num 0
   \<and> decimalValue (trim (substring sulfurLine 46 54)) = Num 1.768
   \<and> trim (substring hydrogenLine 76 78) = ''H''
   \<and> trim (substring sulfurLine 76 78) = ''S''
   \<and> startsWith hydrogenLine ''HETATM'' \<and> \<not> startsWith hydrogenLine ''HEADER''
   \<and> startsWith sulfurLine ''HETATM'' \<and> \<not> startsWith sulfurLine ''HEADER''"
  by code_simp

lemma double_values:
  "toDouble 1.768 = Num (7962364141191037 / 2 ^ 52)"
  "toDouble (7962364141191037 / 2 ^ 52) = Num (7962364141191037 / 2 ^ 52)"
  "toDouble ((7962364141191037 / 2 ^ 52) * (7962364141191037 / 2 ^ 52))
     = Num (7038729900812877 / 2 ^ 51)"
  "toDouble (7038729900812877 / 2 ^ 51) = Num (7038729900812877 / 2 ^ 51)"
  "toDouble (sqrt (7038729900812877 / 2 ^ 51)) = Num (7962364141191037 / 2 ^ 52)"
  "toDouble 0.31 = Num (5584463537939415 / 2 ^ 54)"
  "toDouble 1.05 = Num (4728779608739021 / 2 ^ 52)"
  "toDouble (5584463537939415 / 2 ^ 54 + 4728779608739021 / 2 ^ 52)
     = Num (6124895493223875 / 2 ^ 52)"
  "toDouble 1.3 = Num (5854679515581645 / 2 ^ 52)"
  "toDouble ((6124895493223875 / 2 ^ 52) * (5854679515581645 / 2 ^ 52))
     = Num (7962364141191038 / 2 ^ 52)"
  "toDouble 0.4 = Num (7205759403792794 / 2 ^ 54)"
proof -
  show "toDouble 1.768 = Num (7962364141191037 / 2 ^ 52)"
    using toDouble_eqI [of 0 "1.768" 7962364141191037] by (simp add: twoPow_def)
  show "toDouble (7962364141191037 / 2 ^ 52) = Num (7962364141191037 / 2 ^ 52)"
    using toDouble_eqI [of 0 "7962364141191037 / 2 ^ 52" 7962364141191037]
    by (simp add: twoPow_def)
  show "toDouble ((7962364141191037 / 2 ^ 52) * (7962364141191037 / 2 ^ 52))
     = Num (7038729900812877 / 2 ^ 51)"
    using toDouble_eqI [of 1 "(7962364141191037 / 2 ^ 52) * (7962364141191037 / 2 ^ 52)"
                           7038729900812877]
    by (simp add: twoPow_def)
  show "toDouble (7038729900812877 / 2 ^ 51) = Num (7038729900812877 / 2 ^ 51)"
    using toDouble_eqI [of 1 "7038729900812877 / 2 ^ 51" 7038729900812877]
    by (simp add: twoPow_def)
  show "toDouble (sqrt (7038729900812877 / 2 ^ 51)) = Num (7962364141191037 / 2 ^ 52)"
    using toDouble_sqrt_eqI [of 0 "7038729900812877 / 2 ^ 51" 7962364141191037]
    by (simp add: twoPow_def power2_eq_square)
  show "toDouble 0.31 = Num (5584463537939415 / 2 ^ 54)"
    using toDouble_eqI [of "- 2" "0.31" 5584463537939415] by (simp add: twoPow_def)
  show "toDouble 1.05 = Num (4728779608739021 / 2 ^ 52)"
    using toDouble_eqI [of 0 "1.05" 4728779608739021] by (simp add: twoPow_def)
  show "toDouble (5584463537939415 / 2 ^ 54 + 4728779608739021 / 2 ^ 52)
     = Num (6124895493223875 / 2 ^ 52)"
    using toDouble_eqI [of 0 "5584463537939415 / 2 ^ 54 + 4728779608739021 / 2 ^ 52"
                           6124895493223875]
    by (simp add: twoPow_def)
  show "toDouble 1.3 = Num (5854679515581645 / 2 ^ 52)"
    using toDouble_eqI [of 0 "1.3" 5854679515581645] by (simp add: twoPow_def)
  show "toDouble ((6124895493223875 / 2 ^ 52) * (5854679515581645 / 2 ^ 52))
     = Num (7962364141191038 / 2 ^ 52)"
    using toDouble_eqI [of 0 "(6124895493223875 / 2 ^ 52) * (5854679515581645 / 2 ^ 52)"
                           7962364141191038]
    by (simp add: twoPow_def)
  show "toDouble 0.4 = Num (7205759403792794 / 2 ^ 54)"
    using toDouble_eqI [of "- 2" "0.4" 7205759403792794] by (simp add: twoPow_def)
qed

lemma threshold_atoms:
  "parsedAtoms [hydrogenLine, sulfurLine] = [parseAtom hydrogenLine, parseAtom sulfurLine]"
  "a_x (parseAtom hydrogenLine) = Num 0"
  "a_y (parseAtom hydrogenLine) = Num 0"
  "a_z (parseAtom hydrogenLine) = Num 0"
  "a_x (parseAtom sulfurLine) = Num 0"
  "a_y (parseAtom sulfurLine) = Num 0"
  "a_z (parseAtom sulfurLine) = Num (7962364141191037 / 2 ^ 52)"
  "a_element (parseAtom hydrogenLine) = ''H''"
  "a_element (parseAtom sulfurLine) = ''S''"
proof -
  show "parsedAtoms [hydrogenLine, sulfurLine] = [parseAtom hydrogenLine, parseAtom sulfurLine]"
    using threshold_strings by (simp add: parsedAtoms_def)
  show "a_x (parseAtom hydrogenLine) = Num 0"
    "a_y (parseAtom hydrogenLine) = Num 0"
    "a_z (parseAtom hydrogenLine) = Num 0"
    "a_x (parseAtom sulfurLine) = Num 0"
    "a_y (parseAtom sulfurLine) = Num 0"
    using threshold_strings by (simp_all add: parseAtom_def parseFloat_def toDouble_zero)
  show "a_z (parseAtom sulfurLine) = Num (7962364141191037 / 2 ^ 52)"
    using threshold_strings double_values(1) by (simp add: parseAtom_def parseFloat_def)
  show "a_element (parseAtom hydrogenLine) = ''H''"
    "a_element (parseAtom sulfurLine) = ''S''"
    using threshold_strings by (simp_all add: parseAtom_def)
qed

lemma threshold_distance:
  "atomDistance (parseAtom hydrogenLine) (parseAtom sulfurLine)
   = Num (7962364141191037 / 2 ^ 52)"
proof -
  have "(0::real) \<le> 7038729900812877 / 2 ^ 51" by simp
  note s = dsqrt_Num [OF this]
  show ?thesis
    using double_values(2-5) s
    by (simp add: atomDistance_def Let_def threshold_atoms dround_ops toDouble_zero)
qed

lemma threshold_maxDist:
  "dmul (dadd (radiusOf ''H'') (radiusOf ''S'')) (toDouble 1.3)
   = Num (7962364141191038 / 2 ^ 52)"
  using double_values(6-10)
  by (simp add: radiusOf_toDouble dround_ops spec_radius_examples)

text \<open>
  The hydrogen and the sulfur are bonded although their exact distance is not less than
  1.3 times the sum of their radii.
\<close>

theorem calculateLigandBonds_threshold_counterexample:
  "(\<exists>b \<in> set (calculateLigandBonds (parsedAtoms [hydrogenLine, sulfurLine])). b_atom1 b = 0 \<and> b_atom2 b = 1)
   \<and> a_x (parsedAtoms [hydrogenLine, sulfurLine] ! 0) = Num 0
   \<and> a_y (parsedAtoms [hydrogenLine, sulfurLine] ! 0) = Num 0
   \<and> a_z (parsedAtoms [hydrogenLine, sulfurLine] ! 0) = Num 0
   \<and> a_x (parsedAtoms [hydrogenLine, sulfurLine] ! 1) = Num 0
   \<and> a_y (parsedAtoms [hydrogenLine, sulfurLine] ! 1) = Num 0
   \<and> a_z (parsedAtoms [hydrogenLine, sulfurLine] ! 1) = Num (7962364141191037 / 2 ^ 52)
   \<and> \<not> sqrt ((0 - 0)\<^sup>2 + (0 - 0)\<^sup>2 + (7962364141191037 / 2 ^ 52 - 0)\<^sup>2)
         < 1.3 * (spec_radius (a_element (parsedAtoms [hydrogenLine, sulfurLine] ! 0))
                  + spec_radius (a_element (parsedAtoms [hydrogenLine, sulfurLine] ! 1)))"
proof -
  have "bondOf (parsedAtoms [hydrogenLine, sulfurLine]) 0 1 \<noteq> []"
    using threshold_distance threshold_maxDist double_values(11)
    by (simp add: bondOf_def Let_def threshold_atoms)
  then have
    "\<exists>b \<in> set (calculateLigandBonds (parsedAtoms [hydrogenLine, sulfurLine])).
        b_atom1 b = 0 \<and> b_atom2 b = 1"
    using calculateLigandBonds_pair [of 0 1 "parsedAtoms [hydrogenLine, sulfurLine]"]
    by (simp add: threshold_atoms(1))
  then show ?thesis
    by (simp add: threshold_atoms spec_radius_examples)
qed

subsection \<open>Atom records\<close>

text \<open>
  C9. \<open>parseAtom\<close> yields an atom for every ATOM or HETATM line, so the parse never stops at
  a record. A serial number, residue number or coordinate column that holds no number gives
  not-a-number in the atom; an occupancy column that holds no number gives 1, and a
  temperature-factor column that holds no number gives 0.
\<close>

theorem parseAtom_numeric_fields:
  "(parseInt (trim (substring line 6 11)) = NaN \<longrightarrow> a_id (parseAtom line) = NaN)
   \<and> (parseInt (trim (substring line 22 26)) = NaN \<longrightarrow> a_resSeq (parseAtom line) = NaN)
   \<and> (parseFloat (trim (substring line 30 38)) = NaN \<longrightarrow> a_x (parseAtom line) = NaN)
   \<and> (parseFloat (trim (substring line 38 46)) = NaN \<longrightarrow> a_y (parseAtom line) = NaN)
   \<and> (parseFloat (trim (substring line 46 54)) = NaN \<longrightarrow> a_z (parseAtom line) = NaN)
   \<and> (parseFloat (trim (substring line 54 60)) = NaN \<longrightarrow> a_occupancy (parseAtom line) = Num 1)
   \<and> (parseFloat (trim (substring line 60 66)) = NaN \<longrightarrow> a_tempFactor (parseAtom line) = Num 0)
   \<and> length (parsedAtoms lines)
       = length (filter (\<lambda>l. startsWith l ''ATOM'' \<or> startsWith l ''HETATM'') lines)"
proof -
  have "\<not> startsWith l ''HEADER''" if "startsWith l ''ATOM'' \<or> startsWith l ''HETATM''" for l
  proof
    assume h: "startsWith l ''HEADER''"
    then have "take 6 l = ''HEADER''" by (simp add: startsWith_def eval_nat_numeral)
    moreover have "l = take 6 l @ drop 6 l" by simp
    ultimately have "l = ''HEADER'' @ drop 6 l" by simp
    then obtain r where "l = ''HEADER'' @ r" ..
    with that show False by (simp add: startsWith_def)
  qed
  then have "filter (\<lambda>l. \<not> startsWith l ''HEADER'' \<and> (startsWith l ''ATOM'' \<or> startsWith l ''HETATM'')) lines
             = filter (\<lambda>l. startsWith l ''ATOM'' \<or> startsWith l ''HETATM'') lines"
    by (intro filter_cong) auto
  then show ?thesis
    by (simp add: parseAtom_def parsedAtoms_def jor_def)
qed

lemma unparseable_fields:
  "parseInt (trim (substring unparseableAtomLine 6 11)) = NaN
   \<and> parseInt (trim (substring unparseableAtomLine 22 26)) = NaN
   \<and> parseFloat (trim (substring unparseableAtomLine 30 38)) = NaN
   \<and> parseFloat (trim (substring unparseableAtomLine 38 46)) = NaN
   \<and> parseFloat (trim (substring unparseableAtomLine 46 54)) = NaN
   \<and> parseFloat (trim (substring unparseableAtomLine 54 60)) = NaN
   \<and> parseFloat (trim (substring unparseableAtomLine 60 66)) = NaN
   \<and> startsWith unparseableAtomLine ''ATOM''"
  by code_simp

theorem parseAtom_numeric_fields_witness:
  "a_id (parseAtom unparseableAtomLine) = NaN
   \<and> a_resSeq (parseAtom unparseableAtomLine) = NaN
   \<and> a_x (parseAtom unparseableAtomLine) = NaN
   \<and> a_y (parseAtom unparseableAtomLine) = NaN
   \<and> a_z (parseAtom unparseableAtomLine) = NaN
   \<and> a_occupancy (parseAtom unparseableAtomLine) = Num 1
   \<and> a_tempFactor (parseAtom unparseableAtomLine) = Num 0
   \<and> length (parsedAtoms [unparseableAtomLine]) = 1"
  using parseAtom_numeric_fields [of unparseableAtomLine "[unparseableAtomLine]"]
  by (simp add: unparseable_fields)

text \<open>
  The occupancy and the temperature factor of that record are numbers although their
  columns hold none.
\<close>

theorem parseAtom_occupancy_counterexample:
  "parseFloat (trim (substring unparseableAtomLine 54 60)) = NaN
   \<and> a_occupancy (parseAtom unparseableAtomLine) \<noteq> NaN
   \<and> parseFloat (trim (substring unparseableAtomLine 60 66)) = NaN
   \<and> a_tempFactor (parseAtom unparseableAtomLine) \<noteq> NaN"
  by (simp add: unparseable_fields parseAtom_def jor_def)

subsection \<open>Smoothing\<close>

lemma fold_update_range:
  "length (fold (\<lambda>j b. b[j := v]) [s..<e] a) = length a
   \<and> (\<forall>k < length a. fold (\<lambda>j b. b[j := v]) [s..<e] a ! k = (if s \<le> k \<and> k < e then v else a ! k))"
proof (induction e)
  case 0
  then show ?case by auto
next
  case (Suc e)
  show ?case
  proof (cases "s \<le> e")
    case True
    define b where "b = fold (\<lambda>j b. b[j := v]) [s..<e] a"
    have len: "length b = length a"
      and nth: "\<And>k. k < length a \<Longrightarrow> b ! k = (if s \<le> k \<and> k < e then v else a ! k)"
      using Suc by (simp_all add: b_def)
    have f: "fold (\<lambda>j b. b[j := v]) [s..<Suc e] a = b[e := v]"
      using True by (simp add: b_def)
    have "b[e := v] ! k = (if s \<le> k \<and> k < Suc e then v else a ! k)" if "k < length a" for k
    proof (cases "k = e")
      case True
      then show ?thesis using that len \<open>s \<le> e\<close> by simp
    next
      case False
      then have "b[e := v] ! k = b ! k" by simp
      then show ?thesis using nth [OF that] False by auto
    qed
    then show ?thesis unfolding f using len by simp
  next
    case False
    then show ?thesis by auto
  qed
qed

lemma coilRun_nth:
  "length (coilRun a s c) = length a"
  "k < length a \<Longrightarrow> coilRun a s c ! k = (if s \<le> k \<and> k < s + c then ''coil'' else a ! k)"
  using fold_update_range [of "''coil''" s "s + c" a] by (simp_all add: coilRun_def)

lemma fold_update_offset:
  "length (fold (\<lambda>j b. b[i + j := v]) [0..<g] a) = length a
   \<and> (\<forall>k < length a. fold (\<lambda>j b. b[i + j := v]) [0..<g] a ! k = (if i \<le> k \<and> k < i + g then v else a ! k))"
proof (induction g)
  case 0
  then show ?case by auto
next
  case (Suc g)
  define b where "b = fold (\<lambda>j b. b[i + j := v]) [0..<g] a"
  have len: "length b = length a"
    and nth: "\<And>k. k < length a \<Longrightarrow> b ! k = (if i \<le> k \<and> k < i + g then v else a ! k)"
    using Suc by (simp_all add: b_def)
  have f: "fold (\<lambda>j b. b[i + j := v]) [0..<Suc g] a = b[i + g := v]"
    by (simp add: b_def)
  have "b[i + g := v] ! k = (if i \<le> k \<and> k < i + Suc g then v else a ! k)" if "k < length a" for k
  proof (cases "k = i + g")
    case True
    then show ?thesis using that len by simp
  next
    case False
    then have "b[i + g := v] ! k = b ! k" by simp
    then show ?thesis using nth [OF that] False by auto
  qed
  then show ?case unfolding f using len by simp
qed

lemma maximalRun_cong:
  assumes "length a' = length a" "\<forall>k < length a. k \<le> q \<longrightarrow> a' ! k = a ! k"
  shows "maximalRun a' t p q = maximalRun a t p q"
proof -
  have "p < q \<Longrightarrow> q \<le> length a \<Longrightarrow> (\<forall>k \<in> {p..<q}. a' ! k = t) = (\<forall>k \<in> {p..<q}. a ! k = t)"
    using assms(2) by auto
  moreover have "p < q \<Longrightarrow> q \<le> length a \<Longrightarrow> p \<noteq> 0 \<Longrightarrow> a' ! (p - 1) = a ! (p - 1)"
    using assms(2) by auto
  moreover have "q < length a \<Longrightarrow> a' ! q = a ! q"
    using assms(2) by auto
  ultimately show ?thesis
    unfolding maximalRun_def assms(1)
    by (cases "p < q \<and> q \<le> length a") (cases "q = length a"; cases "p = 0"; auto)+
qed

lemma runs_step_other:
  assumes "runsUpTo a t m i" "i < length a \<longrightarrow> a ! i \<noteq> t"
  shows "runsUpTo a t m (Suc i)"
  unfolding runsUpTo_def
proof (intro allI impI)
  fix p q assume h: "q \<le> Suc i \<and> maximalRun a t p q"
  show "m \<le> q - p"
  proof (cases "q \<le> i")
    case True
    then show ?thesis using assms(1) h by (auto simp add: runsUpTo_def)
  next
    case False
    then have q: "q = Suc i" using h by simp
    from h have "p < q" "q \<le> length a" "\<forall>k \<in> {p..<q}. a ! k = t"
      by (simp_all add: maximalRun_def)
    then have "i < length a" "a ! i = t" using q by auto
    then show ?thesis using assms(2) by simp
  qed
qed

lemma runs_block:
  assumes "runsUpTo a t m (i - c)" "0 < c" "c \<le> i" "i \<le> length a"
    and blk: "\<forall>k. i - c \<le> k \<and> k < i \<longrightarrow> a ! k = t"
    and bnd: "0 < i - c \<longrightarrow> a ! (i - c - 1) \<noteq> t"
    and "m \<le> c"
  shows "runsUpTo a t m i"
  unfolding runsUpTo_def
proof (intro allI impI)
  fix p q assume h: "q \<le> i \<and> maximalRun a t p q"
  then have mr: "p < q" "q \<le> length a" "\<forall>k \<in> {p..<q}. a ! k = t"
    "p = 0 \<or> a ! (p - 1) \<noteq> t" "q = length a \<or> a ! q \<noteq> t"
    by (simp_all add: maximalRun_def)
  show "m \<le> q - p"
  proof (cases "q \<le> i - c")
    case True
    then show ?thesis using assms(1) h by (auto simp add: runsUpTo_def)
  next
    case False
    then have qgt: "i - c < q" by simp
    have p1: "\<not> p < i - c"
    proof
      assume "p < i - c"
      then have "i - c - 1 \<in> {p..<q}" "0 < i - c" using qgt by auto
      then show False using mr(3) bnd by blast
    qed
    have p2: "\<not> i - c < p"
    proof
      assume lt: "i - c < p"
      then have "p \<noteq> 0" "i - c \<le> p - 1" "p - 1 < i" using mr(1) h by auto
      then show False using mr(4) blk by blast
    qed
    have q1: "\<not> q < i"
    proof
      assume "q < i"
      then have "q \<noteq> length a" "i - c \<le> q" using assms(4) qgt by auto
      then show False using mr(5) blk \<open>q < i\<close> by blast
    qed
    from p1 p2 q1 h have "p = i - c" "q = i" by auto
    then show ?thesis using assms(3,7) by simp
  qed
qed

lemma runs_coiled:
  assumes "runsUpTo a t m (i - c)" "0 < c" "c \<le> i" "i \<le> length a"
    and bnd: "0 < i - c \<longrightarrow> a ! (i - c - 1) \<noteq> t"
    and "t \<noteq> ''coil''" "length a' = length a"
    and upd: "\<forall>k < length a. a' ! k = (if i - c \<le> k \<and> k < i then ''coil'' else a ! k)"
  shows "runsUpTo a' t m i"
  unfolding runsUpTo_def
proof (intro allI impI)
  fix p q assume h: "q \<le> i \<and> maximalRun a' t p q"
  then have mr: "p < q" "q \<le> length a" "\<forall>k \<in> {p..<q}. a' ! k = t"
    using assms(7) by (simp_all add: maximalRun_def)
  then have "q - 1 \<in> {p..<q}" "q - 1 < length a" by auto
  then have last: "a' ! (q - 1) = t" "q - 1 < length a" using mr(3) by blast+
  have "\<not> (i - c \<le> q - 1 \<and> q - 1 < i)"
    using last upd assms(6) by auto
  then have qle: "q \<le> i - c" using h mr(1) by auto
  have "q \<noteq> i - c"
  proof
    assume e: "q = i - c"
    then have pos: "0 < i - c" using mr(1) by simp
    then have "i - c - 1 < length a" "\<not> i - c \<le> i - c - 1" using last(2) e by simp_all
    then have "a' ! (i - c - 1) = a ! (i - c - 1)" using upd by simp
    then show False using bnd last(1) e pos by simp
  qed
  then have "q < i - c" using qle by simp
  then have "\<forall>k < length a. k \<le> q \<longrightarrow> a' ! k = a ! k" using upd by auto
  then have "maximalRun a' t p q = maximalRun a t p q"
    using maximalRun_cong [OF assms(7)] by blast
  then show "m \<le> q - p" using assms(1) h qle by (auto simp add: runsUpTo_def)
qed

lemma enforceInv_step:
  assumes inv: "enforceInv xs t m i st" and i: "i \<le> length xs" and t: "t \<noteq> ''coil''"
  shows "enforceInv xs t m (Suc i) (enforceStep t m i st)"
proof -
  obtain a c s where st: "st = (a, c, s)" by (cases st)
  from inv st have len: "length a = length xs" and ci: "c \<le> i"
    and sc: "0 < c \<longrightarrow> s = i - c \<and> i \<le> length xs"
    and blk: "\<forall>k. i - c \<le> k \<and> k < i \<longrightarrow> a ! k = t"
    and bnd: "0 < i - c \<and> i - c \<le> length xs \<longrightarrow> a ! (i - c - 1) \<noteq> t"
    and pres: "\<forall>k < length xs. a ! k = xs ! k \<or> (xs ! k = t \<and> a ! k = ''coil'')"
    and runs: "runsUpTo a t m (i - c)"
    by (simp_all add: enforceInv_def)
  show ?thesis
  proof (cases "i < length a \<and> a ! i = t")
    case True
    then have step: "enforceStep t m i st = (a, c + 1, if c = 0 then i else s)"
      by (simp add: enforceStep_def st)
    have b: "\<forall>k. Suc i - (c + 1) \<le> k \<and> k < Suc i \<longrightarrow> a ! k = t"
    proof (intro allI impI)
      fix k assume "Suc i - (c + 1) \<le> k \<and> k < Suc i"
      then have "k = i \<or> (i - c \<le> k \<and> k < i)" by auto
      then show "a ! k = t" using True blk by blast
    qed
    have s': "(if c = 0 then i else s) = Suc i - (c + 1)" using sc by auto
    show ?thesis
      unfolding step enforceInv_def
      using len ci True b s' bnd pres runs by simp
  next
    case False
    define a' where "a' = (if c > 0 \<and> c < m then coilRun a s c else a)"
    have step: "enforceStep t m i st = (a', 0, s)"
      using False by (simp add: enforceStep_def st a'_def)
    have len': "length a' = length a" by (simp add: a'_def coilRun_nth(1))
    have nth': "a' ! k = (if 0 < c \<and> c < m \<and> i - c \<le> k \<and> k < i then ''coil'' else a ! k)"
      if "k < length a" for k
    proof (cases "0 < c \<and> c < m")
      case True
      then have "s = i - c" "s + c = i" using sc ci by auto
      then show ?thesis using True that by (simp add: a'_def coilRun_nth(2))
    next
      case False
      then show ?thesis by (auto simp add: a'_def)
    qed
    have ai: "i < length a \<longrightarrow> a' ! i \<noteq> t" using False nth' by auto
    have pres': "\<forall>k < length xs. a' ! k = xs ! k \<or> (xs ! k = t \<and> a' ! k = ''coil'')"
    proof (intro allI impI)
      fix k assume k: "k < length xs"
      show "a' ! k = xs ! k \<or> (xs ! k = t \<and> a' ! k = ''coil'')"
      proof (cases "0 < c \<and> c < m \<and> i - c \<le> k \<and> k < i")
        case True
        then have "a ! k = t" "a' ! k = ''coil''" using blk nth' k len by auto
        then show ?thesis using pres k t by auto
      next
        case False
        then have "a' ! k = a ! k" using nth' k len by auto
        then show ?thesis using pres k by auto
      qed
    qed
    have runs_i: "runsUpTo a' t m i"
    proof (cases "c = 0")
      case True
      then show ?thesis using runs by (simp add: a'_def)
    next
      case cpos: False
      then have il: "i \<le> length a" using sc len by simp
      have bnd': "0 < i - c \<longrightarrow> a ! (i - c - 1) \<noteq> t" using bnd il len by auto
      show ?thesis
      proof (cases "c < m")
        case True
        have "\<forall>k < length a. a' ! k = (if i - c \<le> k \<and> k < i then ''coil'' else a ! k)"
          using nth' True cpos by simp
        then show ?thesis
          using runs_coiled [OF runs _ ci il bnd' t len'] cpos by simp
      next
        case False
        then have "a' = a" by (simp add: a'_def)
        then show ?thesis
          using runs_block [OF runs _ ci il blk bnd'] cpos False by simp
      qed
    qed
    have "runsUpTo a' t m (Suc i)"
      using runs_step_other [OF runs_i] ai len' by simp
    then show ?thesis
      unfolding step enforceInv_def
      using len len' ai pres' by auto
  qed
qed

lemma enforceInv_fold:
  assumes "t \<noteq> ''coil''" "i \<le> length xs + 1"
  shows "enforceInv xs t m i (fold (enforceStep t m) [0..<i] (xs, 0, 0))"
  using assms(2)
proof (induction i)
  case 0
  show ?case by (simp add: enforceInv_def runsUpTo_def maximalRun_def)
next
  case (Suc i)
  then have "enforceInv xs t m i (fold (enforceStep t m) [0..<i] (xs, 0, 0))" "i \<le> length xs"
    by simp_all
  from enforceInv_step [OF this assms(1)] show ?case by simp
qed

lemma enforceMinimumLength_props:
  assumes "t \<noteq> ''coil''"
  shows "length (enforceMinimumLength xs t m) = length xs"
    and "\<forall>k < length xs. enforceMinimumLength xs t m ! k = xs ! k
                          \<or> (xs ! k = t \<and> enforceMinimumLength xs t m ! k = ''coil'')"
    and "maximalRun (enforceMinimumLength xs t m) t p q \<Longrightarrow> m \<le> q - p"
proof -
  obtain a c s where st: "fold (enforceStep t m) [0..<length xs + 1] (xs, 0, 0) = (a, c, s)"
    by (cases "fold (enforceStep t m) [0..<length xs + 1] (xs, 0, 0)")
  have inv: "enforceInv xs t m (length xs + 1) (a, c, s)"
    using enforceInv_fold [OF assms, of "length xs + 1" xs m] st by simp
  have res: "enforceMinimumLength xs t m = a" by (simp only: enforceMinimumLength_def st fst_conv)
  from inv have c0: "c = 0" by (auto simp add: enforceInv_def)
  show "length (enforceMinimumLength xs t m) = length xs"
    using inv by (simp add: res enforceInv_def)
  show "\<forall>k < length xs. enforceMinimumLength xs t m ! k = xs ! k
                          \<or> (xs ! k = t \<and> enforceMinimumLength xs t m ! k = ''coil'')"
    using inv by (simp add: res enforceInv_def)
  assume mr: "maximalRun (enforceMinimumLength xs t m) t p q"
  then have "q \<le> length xs + 1" using inv by (simp add: res enforceInv_def maximalRun_def)
  moreover have "runsUpTo a t m (length xs + 1)" using inv c0 by (simp add: enforceInv_def)
  ultimately show "m \<le> q - p" using mr by (auto simp add: runsUpTo_def res)
qed

lemma maximalRun_same_positions:
  assumes "length a' = length a" "\<forall>k < length a. (a' ! k = t) = (a ! k = t)"
  shows "maximalRun a' t p q = maximalRun a t p q"
proof -
  have "p < q \<Longrightarrow> q \<le> length a \<Longrightarrow> (\<forall>k \<in> {p..<q}. a' ! k = t) = (\<forall>k \<in> {p..<q}. a ! k = t)"
    using assms(2) by auto
  moreover have "p < q \<Longrightarrow> q \<le> length a \<Longrightarrow> p \<noteq> 0 \<Longrightarrow> (a' ! (p - 1) = t) = (a ! (p - 1) = t)"
    using assms(2) by auto
  moreover have "q < length a \<Longrightarrow> (a' ! q = t) = (a ! q = t)"
    using assms(2) by auto
  ultimately show ?thesis
    unfolding maximalRun_def assms(1)
    by (cases "p < q \<and> q \<le> length a") (cases "q = length a"; cases "p = 0"; auto)+
qed

lemma noShortRuns_update:
  assumes ok: "noShortRuns a t m" and i: "i < length a" and ai: "a ! i \<noteq> t"
    and v: "v = t \<longrightarrow> 0 < i \<and> a ! (i - 1) = t"
  shows "noShortRuns (a[i := v]) t m"
proof (cases "v = t")
  case False
  have "((a[i := v]) ! k = t) = (a ! k = t)" if "k < length a" for k
    using False ai that by (cases "k = i") simp_all
  then have "\<forall>k < length a. ((a[i := v]) ! k = t) = (a ! k = t)" by blast
  then have "maximalRun (a[i := v]) t p q = maximalRun a t p q" for p q
    using maximalRun_same_positions [of "a[i := v]" a t] by simp
  then show ?thesis using ok by (simp add: noShortRuns_def)
next
  case True
  then have ipos: "0 < i" and left: "a ! (i - 1) = t" using v by simp_all
  show ?thesis
    unfolding noShortRuns_def
  proof (intro allI impI)
    fix p q assume "maximalRun (a[i := v]) t p q"
    then have mr: "p < q" "q \<le> length a" "\<forall>k \<in> {p..<q}. a[i := v] ! k = t"
      "p = 0 \<or> a[i := v] ! (p - 1) \<noteq> t" "q = length a \<or> a[i := v] ! q \<noteq> t"
      by (simp_all add: maximalRun_def)
    have ati: "a[i := v] ! i = t" using True i by simp
    show "m \<le> q - p"
    proof (cases "p \<le> i \<and> i < q")
      case False
      have "p - 1 \<noteq> i \<or> p = 0" using mr(4) ati by auto
      then have l: "p = 0 \<or> a ! (p - 1) \<noteq> t" using mr(4) by auto
      have "q \<noteq> i" using mr(5) ati i by auto
      then have r: "q = length a \<or> a ! q \<noteq> t" using mr(5) by auto
      have "\<forall>k \<in> {p..<q}. a ! k = t"
      proof
        fix k assume k: "k \<in> {p..<q}"
        then have "i \<noteq> k" using False by auto
        then have "a[i := v] ! k = a ! k" by simp
        moreover from mr(3) k have "a[i := v] ! k = t" by (rule bspec)
        ultimately show "a ! k = t" by simp
      qed
      then have "maximalRun a t p q" using mr(1,2) l r by (simp add: maximalRun_def)
      then show ?thesis using ok by (simp add: noShortRuns_def)
    next
      case in_run: True
      have "p \<noteq> i"
      proof
        assume "p = i"
        then have "a[i := v] ! (p - 1) \<noteq> t" using mr(4) ipos by auto
        moreover have "a[i := v] ! (i - 1) = t" using left ipos by simp
        ultimately show False using \<open>p = i\<close> by simp
      qed
      then have pi: "p < i" using in_run by simp
      have "p - 1 \<noteq> i \<or> p = 0" using pi by auto
      then have l: "p = 0 \<or> a ! (p - 1) \<noteq> t" using mr(4) by auto
      have "\<forall>k \<in> {p..<i}. a ! k = t"
      proof
        fix k assume k: "k \<in> {p..<i}"
        then have ik: "i \<noteq> k" and kq: "k \<in> {p..<q}" using in_run by auto
        from ik have "a[i := v] ! k = a ! k" by simp
        moreover from mr(3) kq have "a[i := v] ! k = t" by (rule bspec)
        ultimately show "a ! k = t" by simp
      qed
      then have "maximalRun a t p i" using pi i l ai by (simp add: maximalRun_def)
      then have "m \<le> i - p" using ok by (simp add: noShortRuns_def)
      then show ?thesis using in_run by linarith
    qed
  qed
qed

lemma fillSingle_ok:
  assumes "noShortRuns a t m" "t \<noteq> ''coil''"
  shows "noShortRuns (fillSingle i a) t m"
proof -
  define C where "C = (a ! i = ''coil'' \<and> a ! (i - 1) = a ! (i + 1) \<and> a ! (i - 1) \<noteq> ''coil'')"
  have f: "fillSingle i a = (if C then a[i := a ! (i - 1)] else a)"
    by (simp only: fillSingle_def Let_def C_def)
  show ?thesis
  proof (cases C)
    case False
    then show ?thesis using assms(1) by (simp only: f if_False)
  next
    case True
    then have c: "a ! i = ''coil''" "a ! (i - 1) \<noteq> ''coil''" unfolding C_def by blast+
    have g: "fillSingle i a = a[i := a ! (i - 1)]" using True by (simp only: f if_True)
    show ?thesis
    proof (cases "i < length a")
      case False
      then have "length a \<le> i" by simp
      then have "a[i := a ! (i - 1)] = a" by (rule list_update_beyond)
      then show ?thesis using assms(1) by (simp only: g)
    next
      case il: True
      have "0 < i" using c by (cases i) auto
      moreover have "a ! i \<noteq> t" using c(1) assms(2) by simp
      ultimately show ?thesis
        unfolding g using noShortRuns_update [OF assms(1) il, of "a ! (i - 1)"] by simp
    qed
  qed
qed

lemma fillBlock_ok:
  assumes ok: "noShortRuns a t m" and t: "t \<noteq> ''coil''"
    and coil: "\<forall>j \<in> {0..<g}. a ! (i + j) = ''coil''" and before: "a ! (i - 1) = v" "v \<noteq> ''coil''"
    and g': "g' \<le> g"
  shows "noShortRuns (fold (\<lambda>j b. b[i + j := v]) [0..<g'] a) t m"
  using g'
proof (induction g')
  case 0
  then show ?case using ok by simp
next
  case (Suc g')
  define b where "b = fold (\<lambda>j b. b[i + j := v]) [0..<g'] a"
  have okb: "noShortRuns b t m" using Suc by (simp add: b_def)
  have len: "length b = length a"
    and nth: "\<And>k. k < length a \<Longrightarrow> b ! k = (if i \<le> k \<and> k < i + g' then v else a ! k)"
    using fold_update_offset [of i v g' a] by (simp_all add: b_def)
  have f: "fold (\<lambda>j b. b[i + j := v]) [0..<Suc g'] a = b[i + g' := v]" by (simp add: b_def)
  show ?case
  proof (cases "i + g' < length a")
    case False
    then have "length b \<le> i + g'" using len by simp
    then have "b[i + g' := v] = b" by (rule list_update_beyond)
    then show ?thesis using okb by (simp only: f)
  next
    case il: True
    have c: "a ! (i + g') = ''coil''" using coil Suc.prems by auto
    then have bi: "b ! (i + g') \<noteq> t" using nth [OF il] t by simp
    have ipos: "0 < i + g'"
    proof (rule ccontr)
      assume "\<not> 0 < i + g'"
      then have "i = 0" "g' = 0" by simp_all
      then show False using c before by simp
    qed
    have "b ! (i + g' - 1) = v"
    proof (cases "g' = 0")
      case True
      then show ?thesis using before ipos il nth [of "i - 1"] by simp
    next
      case False
      then have k: "i + g' - 1 < length a" "i \<le> i + g' - 1" "i + g' - 1 < i + g'"
        using il by simp_all
      show ?thesis using nth [OF k(1)] k(2,3) by simp
    qed
    then show ?thesis
      unfolding f using noShortRuns_update [OF okb, of "i + g'" v] il len bi ipos by simp
  qed
qed

lemma fillGap_ok:
  assumes "noShortRuns a t m" "t \<noteq> ''coil''"
  shows "noShortRuns (fillGap g i a) t m"
proof -
  define C where "C = ((\<forall>j \<in> {0..<g}. a ! (i + j) = ''coil'') \<and> a ! (i - 1) = a ! (i + g)
                       \<and> a ! (i - 1) \<noteq> ''coil'')"
  have f: "fillGap g i a = (if C then fold (\<lambda>j b. b[i + j := a ! (i - 1)]) [0..<g] a else a)"
    by (simp only: fillGap_def Let_def C_def)
  show ?thesis
  proof (cases C)
    case False
    then show ?thesis using assms(1) by (simp only: f if_False)
  next
    case True
    then have c: "\<forall>j \<in> {0..<g}. a ! (i + j) = ''coil''" "a ! (i - 1) \<noteq> ''coil''"
      unfolding C_def by blast+
    have "noShortRuns (fold (\<lambda>j b. b[i + j := a ! (i - 1)]) [0..<g] a) t m"
      by (rule fillBlock_ok [OF assms c(1) refl c(2) order_refl])
    then show ?thesis using True by (simp only: f if_True)
  qed
qed

lemma fillShortGaps_ok:
  assumes "noShortRuns a t m" "t \<noteq> ''coil''"
  shows "noShortRuns (fillShortGaps a k) t m"
proof -
  have 1: "noShortRuns (fold fillSingle is b) t m" if "noShortRuns b t m" for "is" b
    using that by (induction "is" arbitrary: b) (simp_all add: fillSingle_ok assms(2))
  have 2: "noShortRuns (fold (fillGap g) is b) t m" if "noShortRuns b t m" for g "is" b
    using that by (induction "is" arbitrary: b) (simp_all add: fillGap_ok assms(2))
  have 3: "noShortRuns (fold (\<lambda>gapSize a. fold (fillGap gapSize) [gapSize..<length a - gapSize] a) gs b) t m"
    if "noShortRuns b t m" for gs b
    using that by (induction gs arbitrary: b) (simp_all add: 2)
  show ?thesis
    unfolding fillShortGaps_def by (rule 3) (rule 1 [OF assms(1)])
qed

lemma enforce_other_ok:
  assumes "noShortRuns a t m" "t' \<noteq> ''coil''" "t \<noteq> ''coil''" "t \<noteq> t'"
  shows "noShortRuns (enforceMinimumLength a t' m') t m"
proof -
  have "\<forall>k < length a. (enforceMinimumLength a t' m' ! k = t) = (a ! k = t)"
    using enforceMinimumLength_props(2) [OF assms(2), of a m'] assms(3,4) by auto
  then have "maximalRun (enforceMinimumLength a t' m') t p q = maximalRun a t p q" for p q
    using maximalRun_same_positions [of "enforceMinimumLength a t' m'" a t]
          enforceMinimumLength_props(1) [OF assms(2)] by simp
  then show ?thesis using assms(1) by (simp add: noShortRuns_def)
qed

text \<open>
  C2. After the smoothing pass (minimum run lengths for helix and sheet, then gap filling),
  every maximal run of \<open>helix\<close> in the output has at least 4 elements and every maximal
  run of \<open>sheet\<close> at least 3, whatever the input labels.
\<close>

theorem smoothLabels_runs:
  "(maximalRun (smoothLabels xs) ''helix'' p q \<longrightarrow> 4 \<le> q - p)
   \<and> (maximalRun (smoothLabels xs) ''sheet'' p q \<longrightarrow> 3 \<le> q - p)"
proof -
  define a1 where "a1 = enforceMinimumLength xs ''helix'' helixMinLength"
  define a2 where "a2 = enforceMinimumLength a1 ''sheet'' sheetMinLength"
  have h1: "noShortRuns a1 ''helix'' 4"
    using enforceMinimumLength_props(3) [of "''helix''" xs helixMinLength]
    by (simp add: noShortRuns_def a1_def helixMinLength_def)
  have h2: "noShortRuns a2 ''helix'' 4"
    unfolding a2_def by (rule enforce_other_ok [OF h1]) simp_all
  have s2: "noShortRuns a2 ''sheet'' 3"
    using enforceMinimumLength_props(3) [of "''sheet''" a1 sheetMinLength]
    by (simp add: noShortRuns_def a2_def sheetMinLength_def)
  have "smoothLabels xs = fillShortGaps a2 2" by (simp add: smoothLabels_def a1_def a2_def)
  then have "noShortRuns (smoothLabels xs) ''helix'' 4" "noShortRuns (smoothLabels xs) ''sheet'' 3"
    using fillShortGaps_ok [OF h2] fillShortGaps_ok [OF s2] by simp_all
  then show ?thesis by (simp add: noShortRuns_def)
qed

lemma smoothingExample_result:
  "smoothLabels smoothingExample =
     [''coil'', ''coil'', ''coil'', ''helix'', ''helix'', ''helix'', ''helix'', ''helix'',
      ''helix'', ''helix'', ''helix'', ''helix'', ''coil'', ''coil'', ''coil'', ''sheet'',
      ''sheet'', ''sheet'']"
  by code_simp

lemma smoothingExample_runs:
  "maximalRun (smoothLabels smoothingExample) ''helix'' 3 12
   \<and> maximalRun (smoothLabels smoothingExample) ''sheet'' 15 18"
  by code_simp

theorem smoothLabels_runs_witness:
  "maximalRun (smoothLabels smoothingExample) ''helix'' 3 12 \<and> (4::nat) \<le> 12 - 3
   \<and> maximalRun (smoothLabels smoothingExample) ''sheet'' 15 18 \<and> (3::nat) \<le> 18 - 15"
  using smoothLabels_runs [of smoothingExample 3 12] smoothLabels_runs [of smoothingExample 15 18]
        smoothingExample_runs
  by simp

subsection \<open>The geometric pass on a straight chain\<close>

lemma colinear_vector:
  "vector3D (colinearCA p0 u k) (colinearCA p0 u (Suc k))
   = Vector3 (3.8 * vx u) (3.8 * vy u) (3.8 * vz u)"
  by (simp add: vector3D_def colinearCA_def algebra_simps)

lemma step_length:
  assumes "vx u * vx u + vy u * vy u + vz u * vz u = 1"
  shows "vectorLength (Vector3 (3.8 * vx u) (3.8 * vy u) (3.8 * vz u)) = 3.8"
proof -
  have "3.8 * vx u * (3.8 * vx u) + 3.8 * vy u * (3.8 * vy u) + 3.8 * vz u * (3.8 * vz u)
        = (3.8 :: real)\<^sup>2 * (vx u * vx u + vy u * vy u + vz u * vz u)"
    by (simp add: power2_eq_square algebra_simps)
  then have "vectorLength (Vector3 (3.8 * vx u) (3.8 * vy u) (3.8 * vz u)) = sqrt ((3.8 :: real)\<^sup>2)"
    using assms by (simp add: vectorLength_def)
  then show ?thesis by simp
qed

lemma colinear_distance:
  assumes "vx u * vx u + vy u * vy u + vz u * vz u = 1"
  shows "distance3D (colinearCA p0 u k) (colinearCA p0 u (Suc k)) = 3.8"
proof -
  have "distance3D (colinearCA p0 u k) (colinearCA p0 u (Suc k))
        = vectorLength (vector3D (colinearCA p0 u k) (colinearCA p0 u (Suc k)))"
    by (simp add: distance3D_def vectorLength_def vector3D_def Let_def)
  then show ?thesis using step_length [OF assms] by (simp add: colinear_vector)
qed

lemma step_angle:
  assumes "vx u * vx u + vy u * vy u + vz u * vz u = 1"
  shows "angleBetweenVectors (Vector3 (3.8 * vx u) (3.8 * vy u) (3.8 * vz u))
                             (Vector3 (3.8 * vx u) (3.8 * vy u) (3.8 * vz u)) = 0"
proof -
  have "dotProduct (Vector3 (3.8 * vx u) (3.8 * vy u) (3.8 * vz u))
                   (Vector3 (3.8 * vx u) (3.8 * vy u) (3.8 * vz u))
        = (3.8 :: real) * 3.8 * (vx u * vx u + vy u * vy u + vz u * vz u)"
    by (simp add: dotProduct_def algebra_simps)
  then have d: "dotProduct (Vector3 (3.8 * vx u) (3.8 * vy u) (3.8 * vz u))
                   (Vector3 (3.8 * vx u) (3.8 * vy u) (3.8 * vz u)) = 3.8 * 3.8"
    using assms by simp
  show ?thesis
    unfolding angleBetweenVectors_def Let_def d step_length [OF assms] by simp
qed

lemma step_torsion:
  "calculateTorsionAngle (colinearCA p0 u k) (colinearCA p0 u (Suc k))
                         (colinearCA p0 u (Suc (Suc k))) (colinearCA p0 u (Suc (Suc (Suc k)))) = 0"
proof -
  have c: "crossProduct (Vector3 (3.8 * vx u) (3.8 * vy u) (3.8 * vz u))
                        (Vector3 (3.8 * vx u) (3.8 * vy u) (3.8 * vz u)) = Vector3 0 0 0"
    by (simp add: crossProduct_def)
  have a: "angleBetweenVectors (Vector3 0 0 0) (Vector3 0 0 0) = 0"
    by (simp add: angleBetweenVectors_def vectorLength_def)
  show ?thesis
    unfolding calculateTorsionAngle_def Let_def colinear_vector c a by simp
qed

lemma windows:
  "extractCAAtoms (windowOf (colinearChain p0 u) 0)
   = [colinearCA p0 u 0, colinearCA p0 u 1, colinearCA p0 u 2]"
  "extractCAAtoms (windowOf (colinearChain p0 u) 1)
   = [colinearCA p0 u 0, colinearCA p0 u 1, colinearCA p0 u 2, colinearCA p0 u 3]"
  "extractCAAtoms (windowOf (colinearChain p0 u) 2)
   = [colinearCA p0 u 0, colinearCA p0 u 1, colinearCA p0 u 2, colinearCA p0 u 3,
      colinearCA p0 u 4]"
  "extractCAAtoms (windowOf (colinearChain p0 u) 3)
   = [colinearCA p0 u 1, colinearCA p0 u 2, colinearCA p0 u 3, colinearCA p0 u 4]"
  "extractCAAtoms (windowOf (colinearChain p0 u) 4)
   = [colinearCA p0 u 2, colinearCA p0 u 3, colinearCA p0 u 4]"
  by (simp_all add: windowOf_def colinearChain_def extractCAAtoms_def colinearResidue_def
                    geometryWindow_def Let_def)

lemma distance_instances:
  assumes "vx u * vx u + vy u * vy u + vz u * vz u = 1"
  shows "distance3D (colinearCA p0 u 0) (colinearCA p0 u 1) = 3.8"
    "distance3D (colinearCA p0 u 1) (colinearCA p0 u 2) = 3.8"
    "distance3D (colinearCA p0 u 2) (colinearCA p0 u 3) = 3.8"
    "distance3D (colinearCA p0 u 3) (colinearCA p0 u 4) = 3.8"
  using colinear_distance [OF assms, of p0 0] colinear_distance [OF assms, of p0 1]
        colinear_distance [OF assms, of p0 2] colinear_distance [OF assms, of p0 3]
  by (simp_all add: eval_nat_numeral)

lemma vector_instances:
  "vector3D (colinearCA p0 u 0) (colinearCA p0 u 1) = Vector3 (3.8 * vx u) (3.8 * vy u) (3.8 * vz u)"
  "vector3D (colinearCA p0 u 1) (colinearCA p0 u 2) = Vector3 (3.8 * vx u) (3.8 * vy u) (3.8 * vz u)"
  "vector3D (colinearCA p0 u 2) (colinearCA p0 u 3) = Vector3 (3.8 * vx u) (3.8 * vy u) (3.8 * vz u)"
  "vector3D (colinearCA p0 u 3) (colinearCA p0 u 4) = Vector3 (3.8 * vx u) (3.8 * vy u) (3.8 * vz u)"
  using colinear_vector [of p0 u 0] colinear_vector [of p0 u 1]
        colinear_vector [of p0 u 2] colinear_vector [of p0 u 3]
  by (simp_all add: eval_nat_numeral)

lemma torsion_instances:
  "calculateTorsionAngle (colinearCA p0 u 0) (colinearCA p0 u 1) (colinearCA p0 u 2)
                         (colinearCA p0 u 3) = 0"
  "calculateTorsionAngle (colinearCA p0 u 1) (colinearCA p0 u 2) (colinearCA p0 u 3)
                         (colinearCA p0 u 4) = 0"
  using step_torsion [of p0 u 0] step_torsion [of p0 u 1]
  by (simp_all add: eval_nat_numeral)

lemma geometry_lists:
  assumes "vx u * vx u + vy u * vy u + vz u * vz u = 1"
  shows "calculateDistances [colinearCA p0 u 0, colinearCA p0 u 1, colinearCA p0 u 2] = [3.8, 3.8]"
    "calculateAngles [colinearCA p0 u 0, colinearCA p0 u 1, colinearCA p0 u 2] = [0]"
    "calculateTorsions [colinearCA p0 u 0, colinearCA p0 u 1, colinearCA p0 u 2] = []"
    "calculateDistances [colinearCA p0 u 2, colinearCA p0 u 3, colinearCA p0 u 4] = [3.8, 3.8]"
    "calculateAngles [colinearCA p0 u 2, colinearCA p0 u 3, colinearCA p0 u 4] = [0]"
    "calculateTorsions [colinearCA p0 u 2, colinearCA p0 u 3, colinearCA p0 u 4] = []"
    "calculateDistances [colinearCA p0 u 0, colinearCA p0 u 1, colinearCA p0 u 2, colinearCA p0 u 3]
     = [3.8, 3.8, 3.8]"
    "calculateAngles [colinearCA p0 u 0, colinearCA p0 u 1, colinearCA p0 u 2, colinearCA p0 u 3]
     = [0, 0]"
    "calculateTorsions [colinearCA p0 u 0, colinearCA p0 u 1, colinearCA p0 u 2, colinearCA p0 u 3]
     = [0]"
    "calculateDistances [colinearCA p0 u 1, colinearCA p0 u 2, colinearCA p0 u 3, colinearCA p0 u 4]
     = [3.8, 3.8, 3.8]"
    "calculateAngles [colinearCA p0 u 1, colinearCA p0 u 2, colinearCA p0 u 3, colinearCA p0 u 4]
     = [0, 0]"
    "calculateTorsions [colinearCA p0 u 1, colinearCA p0 u 2, colinearCA p0 u 3, colinearCA p0 u 4]
     = [0]"
    "calculateDistances [colinearCA p0 u 0, colinearCA p0 u 1, colinearCA p0 u 2, colinearCA p0 u 3,
                         colinearCA p0 u 4] = [3.8, 3.8, 3.8, 3.8]"
    "calculateAngles [colinearCA p0 u 0, colinearCA p0 u 1, colinearCA p0 u 2, colinearCA p0 u 3,
                      colinearCA p0 u 4] = [0, 0, 0]"
    "calculateTorsions [colinearCA p0 u 0, colinearCA p0 u 1, colinearCA p0 u 2, colinearCA p0 u 3,
                        colinearCA p0 u 4] = [0, 0]"
  using distance_instances [OF assms, of p0] vector_instances [of p0 u]
        torsion_instances [of p0 u] step_angle [OF assms]
  by (simp_all add: calculateDistances_def calculateAngles_def calculateTorsions_def
                    upt_conv_Cons)

lemma helix_scores:
  "scoreHelicalGeometry [3.8, 3.8] [0] [] = 2 / 3"
  "scoreHelicalGeometry [3.8, 3.8, 3.8] [0, 0] [0] = 3 / 5"
  "scoreHelicalGeometry [3.8, 3.8, 3.8, 3.8] [0, 0, 0] [0, 0] = 5 / 8"
  by (simp_all add: scoreHelicalGeometry_def helix_caDistance_def helix_distanceTolerance_def
                    helix_turnAngle_def helix_angleTolerance_def)

lemma sheet_scores:
  "scoreSheetGeometry [3.8, 3.8] [0] = 1"
  "scoreSheetGeometry [3.8, 3.8, 3.8] [0, 0] = 1"
  "scoreSheetGeometry [3.8, 3.8, 3.8, 3.8] [0, 0, 0] = 1"
  "extendedConformation [3.8, 3.8]"
  "extendedConformation [3.8, 3.8, 3.8]"
  "extendedConformation [3.8, 3.8, 3.8, 3.8]"
  by (simp_all add: scoreSheetGeometry_def extendedConformation_def sheet_minDistance_def
                    sheet_maxTurnAngle_def)

lemma confidences:
  "calculateConfidence [a, b, c] [3.8, 3.8] [0] = 0.6"
  "calculateConfidence [a, b, c, d] [3.8, 3.8, 3.8] [0, 0] = 0.8"
  "calculateConfidence [a, b, c, d, e] [3.8, 3.8, 3.8, 3.8] [0, 0, 0] = 1"
  by (simp_all add: calculateConfidence_def geometryWindow_def)

lemma window_scores:
  assumes "vx u * vx u + vy u * vy u + vz u * vz u = 1"
  shows "analyzeLocalGeometry (windowOf (colinearChain p0 u) 0)
         = \<lparr> gs_helix = 2 / 3, gs_sheet = 1, gs_coil = 0, gs_confidence = 0.6 \<rparr>"
    "analyzeLocalGeometry (windowOf (colinearChain p0 u) 1)
         = \<lparr> gs_helix = 3 / 5, gs_sheet = 1, gs_coil = 0, gs_confidence = 0.8 \<rparr>"
    "analyzeLocalGeometry (windowOf (colinearChain p0 u) 2)
         = \<lparr> gs_helix = 5 / 8, gs_sheet = 1, gs_coil = 0, gs_confidence = 1 \<rparr>"
    "analyzeLocalGeometry (windowOf (colinearChain p0 u) 3)
         = \<lparr> gs_helix = 3 / 5, gs_sheet = 1, gs_coil = 0, gs_confidence = 0.8 \<rparr>"
    "analyzeLocalGeometry (windowOf (colinearChain p0 u) 4)
         = \<lparr> gs_helix = 2 / 3, gs_sheet = 1, gs_coil = 0, gs_confidence = 0.6 \<rparr>"
  unfolding analyzeLocalGeometry_def Let_def windows geometry_lists [OF assms]
            helix_scores sheet_scores confidences
  by simp_all

lemma chain_scores:
  assumes "vx u * vx u + vy u * vy u + vz u * vz u = 1"
  shows "calculateGeometryScores (colinearChain p0 u)
         = [\<lparr> gs_helix = 2 / 3, gs_sheet = 1, gs_coil = 0, gs_confidence = 0.6 \<rparr>,
            \<lparr> gs_helix = 3 / 5, gs_sheet = 1, gs_coil = 0, gs_confidence = 0.8 \<rparr>,
            \<lparr> gs_helix = 5 / 8, gs_sheet = 1, gs_coil = 0, gs_confidence = 1 \<rparr>,
            \<lparr> gs_helix = 3 / 5, gs_sheet = 1, gs_coil = 0, gs_confidence = 0.8 \<rparr>,
            \<lparr> gs_helix = 2 / 3, gs_sheet = 1, gs_coil = 0, gs_confidence = 0.6 \<rparr>]"
proof -
  have len: "length (colinearChain p0 u) = 5" by (simp add: colinearChain_def)
  have "[0..<5] = [0, 1, 2, 3, 4 :: nat]" by (simp add: upt_conv_Cons)
  then show ?thesis
    unfolding calculateGeometryScores_def len using window_scores [OF assms, of p0] by simp
qed

lemma sheet_labels_smooth:
  "smoothLabels [''sheet'', ''sheet'', ''sheet'', ''sheet'', ''sheet'']
   = [''sheet'', ''sheet'', ''sheet'', ''sheet'', ''sheet'']"
  by code_simp

text \<open>
  C3. For five residues whose CA atoms lie on a line, 3.8 apart, the geometric pass labels
  every residue \<open>sheet\<close> and none \<open>helix\<close>, the window of every residue passes the test for
  an extended conformation, and after smoothing all five residues are labelled \<open>sheet\<close>.
\<close>

theorem colinear_chain_is_sheet:
  assumes "vx u * vx u + vy u * vy u + vz u * vz u = 1"
  shows "map fst (applyGeometryAssignments (calculateGeometryScores (colinearChain p0 u)))
         = [''sheet'', ''sheet'', ''sheet'', ''sheet'', ''sheet'']
       \<and> ''helix'' \<notin> set (map fst (applyGeometryAssignments
                                        (calculateGeometryScores (colinearChain p0 u))))
       \<and> (\<forall>i < 5. extendedConformation
                     (calculateDistances (extractCAAtoms (windowOf (colinearChain p0 u) i))))
       \<and> map rs_secondaryStructure (analyzeChain (colinearChain p0 u))
         = [''sheet'', ''sheet'', ''sheet'', ''sheet'', ''sheet'']"
proof -
  have labels: "map fst (applyGeometryAssignments (calculateGeometryScores (colinearChain p0 u)))
         = [''sheet'', ''sheet'', ''sheet'', ''sheet'', ''sheet'']"
    by (simp add: chain_scores [OF assms] applyGeometryAssignments_def assignmentOf_def)
  have ext: "extendedConformation
               (calculateDistances (extractCAAtoms (windowOf (colinearChain p0 u) i)))"
    if "i < 5" for i
  proof -
    from that have "i = 0 \<or> i = 1 \<or> i = 2 \<or> i = 3 \<or> i = 4" by auto
    then show ?thesis
      by (auto simp only: windows geometry_lists [OF assms] sheet_scores)
  qed
  have len: "length (colinearChain p0 u) = 5" by (simp add: colinearChain_def)
  have "map rs_secondaryStructure (analyzeChain (colinearChain p0 u))
        = [''sheet'', ''sheet'', ''sheet'', ''sheet'', ''sheet'']"
    unfolding analyzeChain_def Let_def smoothAssignments_def labels sheet_labels_smooth
    by (simp add: len geometryWindow_def applyAssignments_def upt_conv_Cons
                  chain_scores [OF assms] applyGeometryAssignments_def)
  then show ?thesis using labels ext by simp
qed

theorem colinear_chain_is_sheet_witness:
  "vx (Vector3 1 0 0) * vx (Vector3 1 0 0) + vy (Vector3 1 0 0) * vy (Vector3 1 0 0)
     + vz (Vector3 1 0 0) * vz (Vector3 1 0 0) = 1
   \<and> map rs_secondaryStructure (analyzeChain (colinearChain (Vector3 0 0 0) (Vector3 1 0 0)))
       = [''sheet'', ''sheet'', ''sheet'', ''sheet'', ''sheet'']"
  using colinear_chain_is_sheet [of "Vector3 1 0 0" "Vector3 0 0 0"] by simp

subsection \<open>Frenet frames of the B-spline\<close>

lemma foldedCurve_point:
  assumes "0 \<le> t" "t < 1"
  shows "getPointAt foldedCurve t = Inr (Vector3 ((3 * t * t - 3 * t + 1) / 6) 0 0)"
proof -
  have f: "\<lfloor>t\<rfloor> = 0" using assms by (simp add: floor_eq_iff)
  have m: "max 0 (min 1 t) = t" using assms by simp
  have "getPointAt foldedCurve t
        = Inr (Vector3 ((- (t * t * t) + 3 * (t * t) - 3 * t + 1) / 6 + t * t * t / 6) 0 0)"
    by (simp add: getPointAt_def foldedCurve_def startIndex_def degree_def Let_def m f
                  js_index_def evaluateBSpline_def v_add_def v_scale_def)
  moreover have "(- (t * t * t) + 3 * (t * t) - 3 * t + 1) / 6 + t * t * t / 6
                 = (3 * t * t - 3 * t + 1) / 6"
    by (simp add: field_simps)
  ultimately show ?thesis by simp
qed

lemma normalize_x:
  "0 < d \<Longrightarrow> v_normalize (Vector3 d 0 0) = Vector3 1 0 0"
  "d < 0 \<Longrightarrow> v_normalize (Vector3 d 0 0) = Vector3 (- 1) 0 0"
  by (simp_all add: v_normalize_def v_length_def v_scale_def Let_def)

lemma foldedCurve_tangents:
  "getTangentAt foldedCurve 0.5005 = Inr (Vector3 1 0 0)"
  "getTangentAt foldedCurve 0.4995 = Inr (Vector3 (- 1) 0 0)"
  "getTangentAt foldedCurve 0.5015 = Inr (Vector3 1 0 0)"
  by (simp_all add: getTangentAt_def Let_def foldedCurve_point v_subtract_def normalize_x)

text \<open>
  C6. On a curve of four control points that turns back along a line, at a parameter where
  the finite-difference tangent is the unit vector (1, 0, 0), \<open>getFrenetFrameAt\<close> returns a
  frame whose normal and binormal are the zero vector: the difference of the neighbouring
  tangents is parallel to the tangent, so the cross product vanishes.
\<close>

theorem getFrenetFrameAt_degenerate:
  "length foldedCurve = 4
   \<and> getTangentAt foldedCurve 0.5005 = Inr (Vector3 1 0 0)
   \<and> getFrenetFrameAt foldedCurve 0.5005
     = Inr \<lparr> ff_position = Vector3 (1000003 / 24000000) 0 0, ff_tangent = Vector3 1 0 0,
              ff_normal = Vector3 0 0 0, ff_binormal = Vector3 0 0 0 \<rparr>
   \<and> \<not> \<bar>v_length (Vector3 0 0 0) - 1\<bar> \<le> 1 / 100000"
proof -
  have "length foldedCurve = 4" by (simp add: foldedCurve_def)
  then show ?thesis
    using foldedCurve_tangents
    by (simp add: getFrenetFrameAt_def Let_def foldedCurve_point
                  v_subtract_def v_length_def v_normalize_def v_Cross_def v_scale_def)
qed

subsection \<open>Ribbon meshes of a helix chain\<close>

text \<open>
  The curve functions return a value on every curve of at least four control points, so the
  ribbon pipeline does not throw on a chain of ten residues. \<open>createSegmentMesh\<close> emits one
  vertex for every profile point of every segment and six indices for every profile point
  between two consecutive segments.
\<close>

lemma getPointAt_Inr:
  assumes "4 \<le> length cps"
  shows "\<exists>p. getPointAt cps t = Inr p"
proof -
  from startIndex_bounds [OF assms]
  have b: "0 \<le> startIndex cps t" "startIndex cps t + 3 < int (length cps)"
    by simp_all
  then have "\<forall>k \<in> {0, 1, 2, 3}. js_index cps (startIndex cps t + k) \<noteq> None"
    by (simp add: js_index_def)
  then obtain p0 p1 p2 p3 where
    "js_index cps (startIndex cps t) = Some p0" "js_index cps (startIndex cps t + 1) = Some p1"
    "js_index cps (startIndex cps t + 2) = Some p2" "js_index cps (startIndex cps t + 3) = Some p3"
    by fastforce
  then show ?thesis
    using assms by (simp add: getPointAt_def evaluateBSpline_def Let_def)
qed

lemma getTangentAt_Inr:
  assumes "4 \<le> length cps"
  shows "\<exists>v. getTangentAt cps t = Inr v"
proof -
  obtain p1 where p1: "getPointAt cps (max 0 (t - 0.001)) = Inr p1"
    using getPointAt_Inr [OF assms] by blast
  obtain p2 where p2: "getPointAt cps (min 1 (t + 0.001)) = Inr p2"
    using getPointAt_Inr [OF assms] by blast
  show ?thesis using p1 p2 by (simp add: getTangentAt_def Let_def)
qed

lemma getFrenetFrameAt_Inr:
  assumes "4 \<le> length cps"
  shows "\<exists>f. getFrenetFrameAt cps t = Inr f"
proof -
  obtain p where p: "getPointAt cps t = Inr p"
    using getPointAt_Inr [OF assms] by blast
  obtain v where v: "getTangentAt cps t = Inr v"
    using getTangentAt_Inr [OF assms] by blast
  obtain v1 where v1: "getTangentAt cps (max 0 (t - 0.001)) = Inr v1"
    using getTangentAt_Inr [OF assms] by blast
  obtain v2 where v2: "getTangentAt cps (min 1 (t + 0.001)) = Inr v2"
    using getTangentAt_Inr [OF assms] by blast
  show ?thesis using p v v1 v2 by (simp add: getFrenetFrameAt_def Let_def)
qed

lemma collect_Inr:
  assumes "\<forall>x \<in> set xs. \<exists>y. f x = Inr y"
  shows "\<exists>ys. collect (map f xs) = Inr ys \<and> length ys = length xs
              \<and> (\<forall>i < length xs. f (xs ! i) = Inr (ys ! i))"
  using assms
proof (induction xs)
  case Nil
  then show ?case by simp
next
  case (Cons x xs)
  then obtain y where y: "f x = Inr y" by auto
  from Cons obtain ys where ys: "collect (map f xs) = Inr ys" "length ys = length xs"
    "\<forall>i < length xs. f (xs ! i) = Inr (ys ! i)" by auto
  have "collect (map f (x # xs)) = Inr (y # ys)" by (simp add: y ys(1))
  moreover have "\<forall>i < length (x # xs). f ((x # xs) ! i) = Inr ((y # ys) ! i)"
  proof (intro allI impI)
    fix i assume "i < length (x # xs)"
    then show "f ((x # xs) ! i) = Inr ((y # ys) ! i)"
      using y ys(3) by (cases i) simp_all
  qed
  ultimately show ?case using ys(2) by auto
qed

lemma smoothTransitions_same:
  assumes "\<forall>s \<in> set segs. rs_secondaryStructure (sg_residue s) = ss"
  shows "smoothTransitions segs = Inr segs"
proof -
  have step: "smoothTransitionStep i (Inr segs) = Inr segs" if "i \<in> set is" "set is \<subseteq> {1..<length segs - 1}" for i "is"
  proof -
    from that have "i \<in> {1..<length segs - 1}" by blast
    then have "i - 1 < length segs" "i < length segs" "i + 1 < length segs" by auto
    then have "segs ! (i - 1) \<in> set segs" "segs ! i \<in> set segs" "segs ! (i + 1) \<in> set segs"
      by simp_all
    then show ?thesis using assms by (simp add: smoothTransitionStep_def Let_def)
  qed
  have "fold smoothTransitionStep is (Inr segs) = Inr segs" if "set is \<subseteq> {1..<length segs - 1}" for "is"
    using that
  proof (induction "is")
    case Nil
    then show ?case by simp
  next
    case (Cons i "is")
    then have "smoothTransitionStep i (Inr segs) = Inr segs"
      using step [of i "i # is"] by simp
    then show ?case using Cons by simp
  qed
  then show ?thesis by (simp add: smoothTransitions_def)
qed

lemma createSegmentMesh_counts:
  assumes "2 \<le> length segs" "\<forall>s \<in> set segs. length (sg_profile s) = n"
  shows "\<exists>ms. createSegmentMesh segs name = Some ms
              \<and> length (ms_positions ms) = 3 * (length segs * n)
              \<and> length (ms_indices ms) = (length segs - 1) * n * 6
              \<and> ms_metadata ms
                  = Some \<lparr> md_chainId = rs_chainId (sg_residue (segs ! 0)),
                           md_secondaryStructure = rs_secondaryStructure (sg_residue (segs ! 0)),
                           md_start = rs_resSeq (sg_residue (segs ! 0)),
                           md_end = rs_resSeq (sg_residue (segs ! (length segs - 1))) \<rparr>"
proof -
  have p: "length (concat (map (\<lambda>point. [Num (vx point), Num (vy point), Num (vz point)])
                               (transformProfileToWorld s))) = 3 * n" if "s \<in> set segs" for s
    using that assms(2)
    by (subst length_concat_const [where k = 3]) (simp_all add: transformProfileToWorld_def)
  have pos: "length (concat (map (\<lambda>segment.
                concat (map (\<lambda>point. [Num (vx point), Num (vy point), Num (vz point)])
                            (transformProfileToWorld segment))) segs)) = 3 * n * length segs"
    by (rule length_concat_const) (rule p)
  have f: "length (concat (map (\<lambda>j. faceIndices (length (sg_profile (segs ! i))) i j)
                               [0..<length (sg_profile (segs ! i))])) = 6 * n"
    if "i \<in> set [0..<length segs - 1]" for i
  proof -
    from that have "segs ! i \<in> set segs" by simp
    then have "length (sg_profile (segs ! i)) = n" using assms(2) by blast
    then show ?thesis
      by (subst length_concat_const [where k = 6]) (simp_all add: faceIndices_def Let_def)
  qed
  have idx: "length (concat (map (\<lambda>i. concat (map (\<lambda>j. faceIndices (length (sg_profile (segs ! i))) i j)
                                           [0..<length (sg_profile (segs ! i))]))
                        [0..<length segs - 1])) = 6 * n * length [0..<length segs - 1]"
    by (rule length_concat_const) (rule f)
  show ?thesis
    using assms(1) pos idx by (simp add: createSegmentMesh_def)
qed

lemma segmentAt_props:
  assumes "segmentAt spline residues i = Inr s"
  shows "sg_residue s = residues ! min (i div pointsPerResidue) (length residues - 1)"
    and "sg_profile s = getProfileForSecondaryStructure (rs_secondaryStructure (sg_residue s))"
  using assms by (auto simp add: segmentAt_def Let_def split: sum.splits)

lemma extractBackbone_helix:
  "extractBackbone (map (helixResidue ca) xs) = map ca xs"
  by (induction xs) (simp_all add: extractBackbone_def helixResidue_def)

lemma fourth_indices: "filter (\<lambda>i. i mod 4 = 0) [0..<76] = map (\<lambda>k. 4 * k) [0..<19]"
  by code_simp

lemma map_filter_Some:
  assumes "\<forall>x \<in> set xs. \<exists>y. f x = Some y"
  shows "List.map_filter f xs = map (\<lambda>x. the (f x)) xs"
  using assms by (induction xs) (auto simp add: List.map_filter_simps)

lemma map_filter_map:
  "List.map_filter f (map g xs) = List.map_filter (\<lambda>x. f (g x)) xs"
  by (induction xs) (simp_all add: List.map_filter_simps split: option.splits)

lemma ribbon_helix_chain:
  "\<exists>ms. generateRibbon [helixChain ca] ''A'' = Inr ms \<and> length ms = 19
        \<and> (\<forall>k < 19. ms_metadata (ms ! k)
                        = Some \<lparr> md_chainId = ''A'', md_secondaryStructure = ''helix'',
                                 md_start = int (k div 2) + 1, md_end = int ((k + 1) div 2) + 1 \<rparr>
                      \<and> length (ms_positions (ms ! k)) = 3 * (5 * 12)
                      \<and> length (ms_indices (ms ! k)) = (5 - 1) * 12 * 6)"
proof -
  define residues where "residues = map (helixResidue ca) [0..<10]"
  define spline where "spline = createProteinBackbone (map ca [0..<10])"
  have rl: "length residues = 10" by (simp add: residues_def)
  have sl: "4 \<le> length spline"
    by (simp add: spline_def createProteinBackbone_def createSmoothCurve_def Let_def)
  have "\<forall>i \<in> set [0..<length residues * pointsPerResidue]. \<exists>s. segmentAt spline residues i = Inr s"
  proof
    fix i
    obtain f where "getFrenetFrameAt spline
                      (real i / (real (length residues * pointsPerResidue) - 1)) = Inr f"
      using getFrenetFrameAt_Inr [OF sl] by blast
    then show "\<exists>s. segmentAt spline residues i = Inr s"
      by (simp add: segmentAt_def Let_def)
  qed
  from collect_Inr [OF this] obtain segs where
    segs: "collect (map (segmentAt spline residues) [0..<length residues * pointsPerResidue]) = Inr segs"
    and len: "length segs = 80"
    and nth: "\<forall>i < 80. segmentAt spline residues i = Inr (segs ! i)"
    by (auto simp add: rl pointsPerResidue_def)
  have res: "sg_residue (segs ! i) = helixResidue ca (i div 8)" if "i < 80" for i
  proof -
    from that nth have "segmentAt spline residues i = Inr (segs ! i)" by simp
    from segmentAt_props(1) [OF this] have "sg_residue (segs ! i) = residues ! min (i div 8) 9"
      by (simp add: rl pointsPerResidue_def)
    moreover have "i div 8 < 10" using that by simp
    ultimately show ?thesis by (simp add: residues_def)
  qed
  have prof: "length (sg_profile (segs ! i)) = 12" if "i < 80" for i
  proof -
    from that nth have "segmentAt spline residues i = Inr (segs ! i)" by simp
    from segmentAt_props(2) [OF this] show ?thesis
      by (simp add: res [OF that] helixResidue_def getProfileForSecondaryStructure_def
                    getHelixProfile_def)
  qed
  have "\<forall>s \<in> set segs. rs_secondaryStructure (sg_residue s) = ''helix''"
  proof
    fix s assume "s \<in> set segs"
    then obtain i where "i < 80" "s = segs ! i" using len by (metis in_set_conv_nth)
    then show "rs_secondaryStructure (sg_residue s) = ''helix''"
      using res by (simp add: helixResidue_def)
  qed
  then have st: "smoothTransitions segs = Inr segs" by (rule smoothTransitions_same)
  have gen: "generateSegments spline residues = Inr segs"
    by (simp add: generateSegments_def segs st)
  have rib: "generateRibbon [helixChain ca] ''A'' = Inr (createRibbonMeshes segs ''A'')"
    using gen
    by (simp add: generateRibbon_def helixChain_def extractBackbone_helix Let_def
                  residues_def spline_def)
  define grp where "grp = (\<lambda>k. take (segmentLength + 1) (drop (4 * k) segs))"
  have grp_len: "length (grp k) = 5" if "k < 19" for k
    using that len by (simp add: grp_def segmentLength_def)
  have grp_nth: "grp k ! j = segs ! (4 * k + j)" if "k < 19" "j < 5" for k j
    using that len by (simp add: grp_def segmentLength_def)
  have grp_prof: "\<forall>s \<in> set (grp k). length (sg_profile s) = 12" if k: "k < 19" for k
  proof
    fix s assume "s \<in> set (grp k)"
    then obtain j where j: "j < 5" "s = grp k ! j"
      using grp_len [OF k] by (metis in_set_conv_nth)
    then have "s = segs ! (4 * k + j)" using grp_nth [OF k] by simp
    moreover have "4 * k + j < 80" using k j(1) by simp
    ultimately show "length (sg_profile s) = 12" using prof by simp
  qed
  have mesh: "\<exists>ms. createSegmentMesh (grp k) (''A'', 4 * k) = Some ms
                \<and> length (ms_positions ms) = 3 * (5 * 12)
                \<and> length (ms_indices ms) = (5 - 1) * 12 * 6
                \<and> ms_metadata ms
                    = Some \<lparr> md_chainId = ''A'', md_secondaryStructure = ''helix'',
                             md_start = int (k div 2) + 1, md_end = int ((k + 1) div 2) + 1 \<rparr>"
    if "k < 19" for k
  proof -
    have "2 \<le> length (grp k)" using grp_len [OF that] by simp
    from createSegmentMesh_counts [OF this grp_prof [OF that], of "(''A'', 4 * k)"]
    obtain ms where ms: "createSegmentMesh (grp k) (''A'', 4 * k) = Some ms"
      "length (ms_positions ms) = 3 * (length (grp k) * 12)"
      "length (ms_indices ms) = (length (grp k) - 1) * 12 * 6"
      "ms_metadata ms
         = Some \<lparr> md_chainId = rs_chainId (sg_residue (grp k ! 0)),
                  md_secondaryStructure = rs_secondaryStructure (sg_residue (grp k ! 0)),
                  md_start = rs_resSeq (sg_residue (grp k ! 0)),
                  md_end = rs_resSeq (sg_residue (grp k ! (length (grp k) - 1))) \<rparr>"
      by blast
    have a: "sg_residue (grp k ! 0) = helixResidue ca (k div 2)"
      using grp_nth [OF that, of 0] res [of "4 * k"] that by simp
    have "(4 * k + 4) div 8 = (k + 1) div 2" by simp
    then have b: "sg_residue (grp k ! 4) = helixResidue ca ((k + 1) div 2)"
      using grp_nth [OF that, of 4] res [of "4 * k + 4"] that by simp
    show ?thesis
      using ms a b by (simp add: grp_len [OF that] helixResidue_def)
  qed
  have crm: "createRibbonMeshes segs ''A''
             = map (\<lambda>k. the (createSegmentMesh (grp k) (''A'', 4 * k))) [0..<19]"
  proof -
    have "createRibbonMeshes segs ''A''
          = List.map_filter (\<lambda>k. createSegmentMesh (grp k) (''A'', 4 * k)) [0..<19]"
      by (simp add: createRibbonMeshes_def len segmentLength_def fourth_indices grp_def
                    map_filter_map)
    also have "\<dots> = map (\<lambda>k. the (createSegmentMesh (grp k) (''A'', 4 * k))) [0..<19]"
    proof (rule map_filter_Some, rule ballI)
      fix k assume "k \<in> set [0..<19]"
      then have "k < 19" by simp
      from mesh [OF this] show "\<exists>y. createSegmentMesh (grp k) (''A'', 4 * k) = Some y"
        by blast
    qed
    finally show ?thesis .
  qed
  have "\<forall>k < 19. ms_metadata (createRibbonMeshes segs ''A'' ! k)
                        = Some \<lparr> md_chainId = ''A'', md_secondaryStructure = ''helix'',
                                 md_start = int (k div 2) + 1, md_end = int ((k + 1) div 2) + 1 \<rparr>
                      \<and> length (ms_positions (createRibbonMeshes segs ''A'' ! k)) = 3 * (5 * 12)
                      \<and> length (ms_indices (createRibbonMeshes segs ''A'' ! k)) = (5 - 1) * 12 * 6"
  proof (intro allI impI)
    fix k :: nat assume k: "k < 19"
    from mesh [OF k] obtain ms where ms: "createSegmentMesh (grp k) (''A'', 4 * k) = Some ms"
      "length (ms_positions ms) = 3 * (5 * 12)" "length (ms_indices ms) = (5 - 1) * 12 * 6"
      "ms_metadata ms = Some \<lparr> md_chainId = ''A'', md_secondaryStructure = ''helix'',
                             md_start = int (k div 2) + 1, md_end = int ((k + 1) div 2) + 1 \<rparr>"
      by blast
    have "createRibbonMeshes segs ''A'' ! k = ms" using k by (simp add: crm ms(1))
    then show "ms_metadata (createRibbonMeshes segs ''A'' ! k)
                        = Some \<lparr> md_chainId = ''A'', md_secondaryStructure = ''helix'',
                                 md_start = int (k div 2) + 1, md_end = int ((k + 1) div 2) + 1 \<rparr>
                      \<and> length (ms_positions (createRibbonMeshes segs ''A'' ! k)) = 3 * (5 * 12)
                      \<and> length (ms_indices (createRibbonMeshes segs ''A'' ! k)) = (5 - 1) * 12 * 6"
      using ms(2-4) by simp
  qed
  moreover have "length (createRibbonMeshes segs ''A'') = 19" by (simp add: crm)
  ultimately show ?thesis using rib by blast
qed

subsection \<open>The cartoon mesh of a helix chain\<close>

lemma groupLoop_same:
  assumes "\<forall>s \<in> set segs. cs_cartoonType s = gr_cartoonType g"
  shows "groupLoop segs groups (Some g)
         = groups @ [g \<lparr> gr_segments := gr_segments g @ segs,
                          gr_points := gr_points g @ map cs_point2 segs \<rparr>]"
  using assms
proof (induction segs arbitrary: g)
  case Nil
  then show ?case by simp
next
  case (Cons s segs)
  have "\<forall>x \<in> set segs. cs_cartoonType x
          = gr_cartoonType (g \<lparr> gr_segments := gr_segments g @ [s],
                                 gr_points := gr_points g @ [cs_point2 s] \<rparr>)"
    using Cons.prems by simp
  from Cons.IH [OF this] show ?case using Cons.prems by simp
qed

lemma groupSegmentsByType_same:
  assumes "\<forall>x \<in> set (s # segs). cs_cartoonType x = ct"
  shows "groupSegmentsByType (s # segs)
         = [\<lparr> gr_cartoonType = ct, gr_segments = s # segs,
               gr_points = cs_point1 s # cs_point2 s # map cs_point2 segs \<rparr>]"
proof -
  have "\<forall>x \<in> set segs. cs_cartoonType x
          = gr_cartoonType \<lparr> gr_cartoonType = cs_cartoonType s, gr_segments = [s],
                              gr_points = [cs_point1 s, cs_point2 s] \<rparr>"
    using assms by simp
  from groupLoop_same [OF this, of "[]"] show ?thesis
    using assms by (simp add: groupSegmentsByType_def)
qed

lemma js_index_facts:
  "k < length xs \<Longrightarrow> js_index xs (int k) = Some (xs ! k)"
  "k + 1 < length xs \<Longrightarrow> js_index xs (int k + 1) = Some (xs ! (k + 1))"
  "0 < k \<Longrightarrow> k \<le> length xs \<Longrightarrow> js_index xs (int k - 1) = Some (xs ! (k - 1))"
  "2 \<le> k \<Longrightarrow> k \<le> length xs + 1 \<Longrightarrow> js_index xs (int k - 2) = Some (xs ! (k - 2))"
  by (simp_all add: js_index_def nat_diff_distrib' nat_add_distrib)

lemma computeFrenetFrame_Inr:
  assumes "2 \<le> length points" "i < length points"
  shows "\<exists>f. computeFrenetFrame points i = Inr f"
proof (cases "i = 0")
  case True
  have "js_index points 1 = Some (points ! 1)" "js_index points 0 = Some (points ! 0)"
    using assms(1) by (auto simp add: js_index_def)
  then show ?thesis
    unfolding computeFrenetFrame_def Let_def using True by simp
next
  case nz: False
  show ?thesis
  proof (cases "i = length points - 1")
    case True
    then have e: "int i = int (length points) - 1" using assms by simp
    have pos: "0 < length points" "length points \<le> length points + 1" using assms(1) by linarith+
    have "js_index points (int (length points) - 1) = Some (points ! (length points - 1))"
      "js_index points (int (length points) - 2) = Some (points ! (length points - 2))"
      by (rule js_index_facts(3) [OF pos(1) order_refl], rule js_index_facts(4) [OF assms(1) pos(2)])
    then show ?thesis
      unfolding computeFrenetFrame_def Let_def using e nz by simp
  next
    case False
    then have ne: "int i \<noteq> int (length points) - 1" using assms by linarith
    have b: "i + 1 < length points" "0 < i" "i \<le> length points" using assms False nz by simp_all
    have "js_index points (int i + 1) = Some (points ! (i + 1))"
      "js_index points (int i - 1) = Some (points ! (i - 1))"
      "js_index points (int i) = Some (points ! i)"
      by (rule js_index_facts(2) [OF b(1)], rule js_index_facts(3) [OF b(2,3)],
          rule js_index_facts(1) [OF assms(2)])
    then show ?thesis
      unfolding computeFrenetFrame_def Let_def using ne nz by simp
  qed
qed

lemma minimizeFrameTwisting_length:
  "length (minimizeFrameTwisting frames) = length frames"
  using untwist_loop [of "length frames" frames] by (simp add: minimizeFrameTwisting_def)

lemma computeFrenetFrames_Inr:
  assumes "2 \<le> length points"
  shows "\<exists>fs. computeFrenetFrames points = Inr fs \<and> length fs = length points"
proof -
  have "\<forall>i \<in> set [0..<length points]. \<exists>f. computeFrenetFrame points i = Inr f"
    using computeFrenetFrame_Inr [OF assms] by simp
  from collect_Inr [OF this] obtain fs where
    "collect (map (computeFrenetFrame points) [0..<length points]) = Inr fs"
    "length fs = length points" by auto
  then show ?thesis
    by (simp add: computeFrenetFrames_def minimizeFrameTwisting_length)
qed

lemma interpolateSmooth_length:
  "2 \<le> length points \<Longrightarrow> length (interpolateSmooth points k) = (length points - 1) * k"
  by (simp add: interpolateSmooth_def Let_def)

lemma helix_lower: "toLowerCase ''helix'' = ''helix''"
  by code_simp

lemma backbone_helix:
  "extractBackboneCoordinates (helixChain ca)
   = map (\<lambda>k. \<lparr> bp_position = ca k, bp_residue = helixResidue ca k \<rparr>) [0..<10]"
proof -
  have "map (\<lambda>r. \<lparr> bp_position = the (rs_ca r), bp_residue = r \<rparr>)
            (filter (\<lambda>r. rs_ca r \<noteq> None) (map (helixResidue ca) xs))
        = map (\<lambda>k. \<lparr> bp_position = ca k, bp_residue = helixResidue ca k \<rparr>) xs" for xs
    by (induction xs) (simp_all add: helixResidue_def)
  then show ?thesis by (simp add: extractBackboneCoordinates_def helixChain_def)
qed

lemma circle_fields:
  "ex_n (circle e k r) = ex_n e" "ex_nShapePoints (circle e k r) = k + 1"
  by (simp_all add: circle_def)

lemma createExtrusion_helix:
  assumes "cv_cartoonType cv = HELIX"
  shows "createExtrusion cv stg = circle (copyCurve cv) 12 (st_helix_radius stg)"
    and "ex_n (copyCurve cv) = length (cv_points cv)"
  using assms by (simp_all add: createExtrusion_def copyCurve_def Let_def allocatePointsNormalsColors_def)

lemma cartoon_helix_chain:
  "\<exists>m cv e. generateCartoon [helixChain ca] ''A'' defaultSettings = Inr [m]
     \<and> ms_metadata m = None \<and> ms_name m = (''cartoon'', 3)
     \<and> length (ms_positions m) = 3 * (180 * 13) \<and> length (ms_indices m) = (180 - 1) * 13 * 6
     \<and> generateSmoothCurves
           (detectSecondaryStructure (extractBackboneCoordinates (helixChain ca)))
           defaultSettings = Inr [cv]
     \<and> cv_cartoonType cv = HELIX
     \<and> createExtrusion cv defaultSettings = circle e 12 1.8"
proof -
  define pts where "pts = extractBackboneCoordinates (helixChain ca)"
  have pts: "pts = map (\<lambda>k. \<lparr> bp_position = ca k, bp_residue = helixResidue ca k \<rparr>) [0..<10]"
    by (simp add: pts_def backbone_helix)
  have pl: "length pts = 10" by (simp add: pts)
  have ct: "cartoonTypeOf pts i = HELIX" if "i < 10" for i
    using that by (simp add: cartoonTypeOf_def Let_def pts helixResidue_def helix_lower)
  define segf where "segf = (\<lambda>i. \<lparr> cs_point1 = pts ! i, cs_point2 = pts ! (i + 1),
                    cs_cartoonType = cartoonTypeOf pts i,
                    cs_residue = bp_residue (pts ! i), cs_index = i \<rparr>)"
  have up: "[0..<9] = 0 # [1..<9]" by (simp add: upt_conv_Cons)
  have all: "\<forall>x \<in> set (segf 0 # map segf [1..<9]). cs_cartoonType x = HELIX"
    using ct by (auto simp add: segf_def)
  define g where "g = \<lparr> gr_cartoonType = HELIX, gr_segments = segf 0 # map segf [1..<9],
               gr_points = cs_point1 (segf 0) # cs_point2 (segf 0)
                           # map cs_point2 (map segf [1..<9]) \<rparr>"
  have "detectSecondaryStructure pts = groupSegmentsByType (map segf [0..<9])"
    by (simp add: detectSecondaryStructure_def pl segf_def)
  also have "\<dots> = groupSegmentsByType (segf 0 # map segf [1..<9])"
    by (simp only: up list.map)
  also have "\<dots> = [g]"
    unfolding g_def by (rule groupSegmentsByType_same [OF all])
  finally have det: "detectSecondaryStructure pts = [g]" .
  have gl: "length (gr_points g) = 10" by (simp add: g_def)
  define sp where "sp = interpolateSmooth (map bp_position (gr_points g)) 20"
  have spl: "length sp = 180"
    using interpolateSmooth_length [of "map bp_position (gr_points g)" 20] gl
    by (simp add: sp_def)
  then have "2 \<le> length sp" by simp
  from computeFrenetFrames_Inr [OF this] obtain fs where
    fs: "computeFrenetFrames sp = Inr fs" by blast
  define cv where "cv = \<lparr> cv_cartoonType = HELIX, cv_points = sp, cv_frames = fs,
                           cv_colors = generateColors (gr_segments g),
                           cv_segments = gr_segments g \<rparr>"
  have gt: "gr_cartoonType g = HELIX" by (simp add: g_def)
  have ss: "st_sampling defaultSettings = 20" by (simp add: defaultSettings_def)
  have cur: "curveOf defaultSettings g = Inr cv"
    unfolding curveOf_def Let_def ss sp_def [symmetric] fs by (simp add: cv_def gt)
  have curves: "generateSmoothCurves (detectSecondaryStructure pts) defaultSettings = Inr [cv]"
    by (simp add: generateSmoothCurves_def det gl cur)
  define e where "e = copyCurve cv"
  have cvt: "cv_cartoonType cv = HELIX" by (simp add: cv_def)
  have e: "createExtrusion cv defaultSettings = circle e 12 1.8" "ex_n e = 180"
    using createExtrusion_helix(1) [OF cvt, of defaultSettings] createExtrusion_helix(2) [OF cvt]
    by (simp_all add: e_def defaultSettings_def cv_def spl)
  have n: "2 \<le> ex_n (circle e 12 1.8)" "3 \<le> ex_nShapePoints (circle e 12 1.8)"
    using e(2) by (simp_all add: circle_fields)
  have cnt: "length (g_vertices (generateGeometry (circle e 12 1.8))) = 3 * (180 * 13)"
    "length (g_indices (generateGeometry (circle e 12 1.8))) = (180 - 1) * 13 * 6"
    using generateGeometry_counts [OF n] e(2) by (simp_all add: circle_fields)
  then have ne: "g_vertices (generateGeometry (circle e 12 1.8)) \<noteq> []" by auto
  define m where "m = \<lparr> ms_name = (''cartoon'', cartoonTypeNumber HELIX),
                         ms_positions = g_vertices (generateGeometry (circle e 12 1.8)),
                         ms_indices = g_indices (generateGeometry (circle e 12 1.8)),
                         ms_metadata = None \<rparr>"
  have gm: "generateMesh (createExtrusion cv defaultSettings) (cv_cartoonType cv) = Some m"
    unfolding generateMesh_def Let_def e(1) cvt using ne by (simp add: m_def)
  have "generateCartoon [helixChain ca] ''A'' defaultSettings = Inr [m]"
    using curves gm
    by (simp add: generateCartoon_def Let_def pts_def [symmetric] pl
                  List.map_filter_simps)
       (simp add: helixChain_def)
  moreover have "ms_metadata m = None" "ms_name m = (''cartoon'', 3)"
    "length (ms_positions m) = 3 * (180 * 13)" "length (ms_indices m) = (180 - 1) * 13 * 6"
    using cnt by (simp_all add: m_def cartoonTypeNumber_def)
  moreover have "cv_cartoonType cv = HELIX" by (simp add: cv_def)
  ultimately show ?thesis using curves e(1) unfolding pts_def by blast
qed

subsection \<open>Extrusion counts of both generators\<close>

text \<open>
  C1. \<open>CartoonShapes.circle\<close> with \<open>n\<close> sides stores \<open>n + 1\<close> shape points, the first one
  repeated at the end. Extruded over \<open>m \<ge> 2\<close> curve samples, with \<open>n \<ge> 3\<close>,
  \<open>generateGeometry\<close> therefore emits \<open>m(n + 1)\<close> vertices, three numbers each, and
  \<open>(m - 1)(n + 1)6\<close> indices. The ribbon's \<open>createSegmentMesh\<close>, over \<open>m\<close> segments whose
  profiles have \<open>n\<close> points each, emits \<open>mn\<close> vertices and \<open>(m - 1)n6\<close> indices.
\<close>

theorem extrusion_counts:
  assumes "2 \<le> m" "3 \<le> n" "ex_n e = m"
    and "length segs = m" "\<forall>s \<in> set segs. length (sg_profile s) = n"
  shows "length (g_vertices (generateGeometry (circle e n r))) = 3 * (m * (n + 1))
       \<and> length (g_indices (generateGeometry (circle e n r))) = (m - 1) * (n + 1) * 6
       \<and> (\<exists>ms. createSegmentMesh segs name = Some ms
                \<and> length (ms_positions ms) = 3 * (m * n)
                \<and> length (ms_indices ms) = (m - 1) * n * 6)"
proof -
  have c: "2 \<le> ex_n (circle e n r)" "3 \<le> ex_nShapePoints (circle e n r)"
    using assms(1-3) by (simp_all add: circle_fields)
  have "length (g_vertices (generateGeometry (circle e n r))) = 3 * (m * (n + 1))"
    "length (g_indices (generateGeometry (circle e n r))) = (m - 1) * (n + 1) * 6"
    using generateGeometry_counts [OF c] assms(3) by (simp_all add: circle_fields)
  moreover have "2 \<le> length segs" using assms(1,4) by simp
  from createSegmentMesh_counts [OF this assms(5), of name]
  have "\<exists>ms. createSegmentMesh segs name = Some ms
                \<and> length (ms_positions ms) = 3 * (m * n)
                \<and> length (ms_indices ms) = (m - 1) * n * 6"
    using assms(4) by auto
  ultimately show ?thesis by blast
qed

text \<open>
  Two curve samples and twelve sides: 26 vertices and 78 indices from the cartoon extrusion,
  24 vertices and 72 indices from the ribbon.
\<close>

theorem extrusion_counts_witness:
  "length (g_vertices (generateGeometry
       (circle (allocatePointsNormalsColors newCartoonExtrude 2) 12 1.8))) = 3 * (2 * 13)
   \<and> length (g_indices (generateGeometry
       (circle (allocatePointsNormalsColors newCartoonExtrude 2) 12 1.8))) = 1 * 13 * 6
   \<and> (\<exists>ms. createSegmentMesh [ringSegment 0, ringSegment 1] (''ribbon_A_helix'', 0) = Some ms
            \<and> length (ms_positions ms) = 3 * (2 * 12)
            \<and> length (ms_indices ms) = 1 * 12 * 6)"
  using extrusion_counts [of 2 12 "allocatePointsNormalsColors newCartoonExtrude 2"
          "[ringSegment 0, ringSegment 1]" "1.8" "(''ribbon_A_helix'', 0)"]
  by (simp add: allocatePointsNormalsColors_def ringSegment_def getHelixProfile_def)

text \<open>
  A triangle (\<open>n = 3\<close>) over two curve samples gives 8 vertices and 24 indices in the
  cartoon extrusion, not \<open>mn = 6\<close> and \<open>(m - 1)n6 = 18\<close>.
\<close>

theorem extrusion_counts_counterexample:
  "length (g_vertices (generateGeometry
       (circle (allocatePointsNormalsColors newCartoonExtrude 2) 3 1))) = 3 * 8
   \<and> 8 \<noteq> (2::nat) * 3
   \<and> length (g_indices (generateGeometry
       (circle (allocatePointsNormalsColors newCartoonExtrude 2) 3 1))) = 24
   \<and> 24 \<noteq> (2 - 1) * 3 * (6::nat)"
proof -
  let ?e = "circle (allocatePointsNormalsColors newCartoonExtrude 2) 3 1"
  have c: "2 \<le> ex_n ?e" "3 \<le> ex_nShapePoints ?e"
    by (simp_all add: circle_fields allocatePointsNormalsColors_def)
  show ?thesis
    using generateGeometry_counts [OF c]
    by (simp add: circle_fields allocatePointsNormalsColors_def)
qed

subsection \<open>Meshes of a helix chain\<close>

text \<open>
  C4. For a chain \<open>A\<close> of ten residues numbered 1 to 10, each with a CA atom and labelled
  \<open>helix\<close>, at any CA positions: the cartoon generator returns exactly one mesh, built from
  one curve of type \<open>HELIX\<close> extruded with the circle of 12 sides, and the mesh carries no
  metadata; the ribbon generator returns 19 meshes of five segments each with the
  12-point helix profile, where mesh \<open>k\<close> carries the residue range from \<open>k div 2 + 1\<close>
  to \<open>(k + 1) div 2 + 1\<close>.
\<close>

theorem helix_chain_meshes:
  "(\<exists>m cv e. generateCartoon [helixChain ca] ''A'' defaultSettings = Inr [m]
       \<and> ms_metadata m = None
       \<and> generateSmoothCurves
             (detectSecondaryStructure (extractBackboneCoordinates (helixChain ca)))
             defaultSettings = Inr [cv]
       \<and> cv_cartoonType cv = HELIX
       \<and> createExtrusion cv defaultSettings = circle e 12 1.8)
   \<and> (\<exists>ms. generateRibbon [helixChain ca] ''A'' = Inr ms \<and> length ms = 19
        \<and> (\<forall>k < 19. ms_metadata (ms ! k)
                        = Some \<lparr> md_chainId = ''A'', md_secondaryStructure = ''helix'',
                                 md_start = int (k div 2) + 1, md_end = int ((k + 1) div 2) + 1 \<rparr>
                      \<and> length (ms_positions (ms ! k)) = 3 * (5 * 12)
                      \<and> length (ms_indices (ms ! k)) = (5 - 1) * 12 * 6))"
proof
  from cartoon_helix_chain [of ca]
  show "\<exists>m cv e. generateCartoon [helixChain ca] ''A'' defaultSettings = Inr [m]
       \<and> ms_metadata m = None
       \<and> generateSmoothCurves
             (detectSecondaryStructure (extractBackboneCoordinates (helixChain ca)))
             defaultSettings = Inr [cv]
       \<and> cv_cartoonType cv = HELIX
       \<and> createExtrusion cv defaultSettings = circle e 12 1.8"
    by blast
  show "\<exists>ms. generateRibbon [helixChain ca] ''A'' = Inr ms \<and> length ms = 19
        \<and> (\<forall>k < 19. ms_metadata (ms ! k)
                        = Some \<lparr> md_chainId = ''A'', md_secondaryStructure = ''helix'',
                                 md_start = int (k div 2) + 1, md_end = int ((k + 1) div 2) + 1 \<rparr>
                      \<and> length (ms_positions (ms ! k)) = 3 * (5 * 12)
                      \<and> length (ms_indices (ms ! k)) = (5 - 1) * 12 * 6)"
    by (rule ribbon_helix_chain)
qed

text \<open>
  On a straight chain with 3.8 between CA atoms the first ribbon mesh has the range 1 to 1,
  the second 1 to 2 and the last 10 to 10.
\<close>

theorem helix_chain_meshes_witness:
  "\<exists>m ms. generateCartoon [helixChain lineCA] ''A'' defaultSettings = Inr [m]
     \<and> ms_metadata m = None
     \<and> generateRibbon [helixChain lineCA] ''A'' = Inr ms \<and> length ms = 19
     \<and> ms_metadata (ms ! 0)
         = Some \<lparr> md_chainId = ''A'', md_secondaryStructure = ''helix'',
                  md_start = 1, md_end = 1 \<rparr>
     \<and> ms_metadata (ms ! 1)
         = Some \<lparr> md_chainId = ''A'', md_secondaryStructure = ''helix'',
                  md_start = 1, md_end = 2 \<rparr>
     \<and> ms_metadata (ms ! 18)
         = Some \<lparr> md_chainId = ''A'', md_secondaryStructure = ''helix'',
                  md_start = 10, md_end = 10 \<rparr>"
proof -
  from helix_chain_meshes [of lineCA] obtain m ms where
    m: "generateCartoon [helixChain lineCA] ''A'' defaultSettings = Inr [m]" "ms_metadata m = None"
    and ms: "generateRibbon [helixChain lineCA] ''A'' = Inr ms" "length ms = 19"
    and md: "\<forall>k < 19. ms_metadata (ms ! k)
                        = Some \<lparr> md_chainId = ''A'', md_secondaryStructure = ''helix'',
                                 md_start = int (k div 2) + 1, md_end = int ((k + 1) div 2) + 1 \<rparr>
                      \<and> length (ms_positions (ms ! k)) = 3 * (5 * 12)
                      \<and> length (ms_indices (ms ! k)) = (5 - 1) * 12 * 6"
    by blast
  have "ms_metadata (ms ! 0)
         = Some \<lparr> md_chainId = ''A'', md_secondaryStructure = ''helix'',
                  md_start = 1, md_end = 1 \<rparr>"
    using md [rule_format, of 0] by simp
  moreover have "ms_metadata (ms ! 1)
         = Some \<lparr> md_chainId = ''A'', md_secondaryStructure = ''helix'',
                  md_start = 1, md_end = 2 \<rparr>"
    using md [rule_format, of 1] by simp
  moreover have "ms_metadata (ms ! 18)
         = Some \<lparr> md_chainId = ''A'', md_secondaryStructure = ''helix'',
                  md_start = 10, md_end = 10 \<rparr>"
    using md [rule_format, of 18] by simp
  ultimately show ?thesis using m ms by blast
qed

text \<open>
  On that chain the one cartoon mesh does not carry the range 1 to 10, and the ribbon has
  more than one mesh, the first of which does not carry the range 1 to 10 either.
\<close>

theorem helix_chain_counterexample:
  "(\<exists>m. generateCartoon [helixChain lineCA] ''A'' defaultSettings = Inr [m]
        \<and> ms_metadata m
            \<noteq> Some \<lparr> md_chainId = ''A'', md_secondaryStructure = ''helix'',
                     md_start = 1, md_end = 10 \<rparr>)
   \<and> (\<exists>ms. generateRibbon [helixChain lineCA] ''A'' = Inr ms \<and> length ms \<noteq> 1
        \<and> ms_metadata (ms ! 0)
            \<noteq> Some \<lparr> md_chainId = ''A'', md_secondaryStructure = ''helix'',
                     md_start = 1, md_end = 10 \<rparr>)"
proof
  from cartoon_helix_chain [of lineCA] obtain m where
    "generateCartoon [helixChain lineCA] ''A'' defaultSettings = Inr [m]" "ms_metadata m = None"
    by blast
  then show "\<exists>m. generateCartoon [helixChain lineCA] ''A'' defaultSettings = Inr [m]
        \<and> ms_metadata m
            \<noteq> Some \<lparr> md_chainId = ''A'', md_secondaryStructure = ''helix'',
                     md_start = 1, md_end = 10 \<rparr>"
    by simp
  from ribbon_helix_chain [of lineCA] obtain ms where
    ms: "generateRibbon [helixChain lineCA] ''A'' = Inr ms" "length ms = 19"
    and md: "\<forall>k < 19. ms_metadata (ms ! k)
                        = Some \<lparr> md_chainId = ''A'', md_secondaryStructure = ''helix'',
                                 md_start = int (k div 2) + 1, md_end = int ((k + 1) div 2) + 1 \<rparr>
                      \<and> length (ms_positions (ms ! k)) = 3 * (5 * 12)
                      \<and> length (ms_indices (ms ! k)) = (5 - 1) * 12 * 6"
    by blast
  have "ms_metadata (ms ! 0)
         = Some \<lparr> md_chainId = ''A'', md_secondaryStructure = ''helix'',
                  md_start = 1, md_end = 1 \<rparr>"
    using md [rule_format, of 0] by simp
  then show "\<exists>ms. generateRibbon [helixChain lineCA] ''A'' = Inr ms \<and> length ms \<noteq> 1
        \<and> ms_metadata (ms ! 0)
            \<noteq> Some \<lparr> md_chainId = ''A'', md_secondaryStructure = ''helix'',
                     md_start = 1, md_end = 10 \<rparr>"
    using ms by simp
qed

end
